(* ===== verification/TPrelude.thy ===== *)
theory TPrelude
  imports Main "HOL-Library.Word" "HOL-Library.State_Monad"
begin

text \<open>
  Shared vocabulary of the TEADFS development: the machine-level types of the C sources
  (bytes, fixed-width words, pointers), the Linux error-pointer convention, little-endian
  byte codecs as a locale with one interpretation per C field type, a weakest-precondition
  reading of the library's state monad, and the generic list lemmas that the component
  theories use.
\<close>

section \<open>Types and constants of the C sources\<close>

type_synonym byte = "8 word"
type_synonym bytes = "byte list"
type_synonym u8 = "8 word"
type_synonym u32 = "32 word"
type_synonym u64 = "64 word"

text \<open>
  A C pointer is a signed machine value: \<open>0\<close> is \<open>NULL\<close>, the range \<open>-4095 .. -1\<close>
  is Linux's error-pointer range (\<open>IS_ERR\<close>), everything else is an address.
\<close>

type_synonym ptr = int

definition IS_ERR :: "ptr \<Rightarrow> bool" where
  "IS_ERR p \<longleftrightarrow> - 4095 \<le> p \<and> p < 0"

definition EIO :: int where "EIO = 5"
definition ECHILD :: int where "ECHILD = 10"
definition ENOMEM :: int where "ENOMEM = 12"
definition EACCES :: int where "EACCES = 13"
definition EFAULT :: int where "EFAULT = 14"
definition EBUSY :: int where "EBUSY = 16"
definition EXDEV :: int where "EXDEV = 18"
definition EINVAL :: int where "EINVAL = 22"
definition ENOTTY :: int where "ENOTTY = 25"
definition ENOSYS :: int where "ENOSYS = 38"
definition ENOTEMPTY :: int where "ENOTEMPTY = 39"
definition EOPNOTSUPP :: int where "EOPNOTSUPP = 95"
definition ESTALE :: int where "ESTALE = 116"
definition ENOIOCTLCMD :: int where "ENOIOCTLCMD = 515"
definition EIOCBQUEUED :: int where "EIOCBQUEUED = 529"

lemmas errno_defs = EIO_def ECHILD_def ENOMEM_def EACCES_def EFAULT_def EBUSY_def EXDEV_def
  EINVAL_def ENOTTY_def ENOSYS_def ENOTEMPTY_def EOPNOTSUPP_def ESTALE_def ENOIOCTLCMD_def
  EIOCBQUEUED_def

text \<open>\<open>PATH_MAX\<close> of \<open>linux/limits.h\<close> and the page size of the supported machines.\<close>

definition PATH_MAX :: nat where "PATH_MAX = 4096"
definition PAGE_CACHE_SHIFT :: nat where "PAGE_CACHE_SHIFT = 12"
definition PAGE_CACHE_SIZE :: nat where "PAGE_CACHE_SIZE = 4096"

text \<open>The decimal digits that \<open>printf\<close> writes for a number.\<close>

fun decimal :: "nat \<Rightarrow> bytes" where
  "decimal n = (if n < 10 then [48 + of_nat n] else decimal (n div 10) @ [48 + of_nat (n mod 10)])"

declare decimal.simps [simp del]

text \<open>Conversion of an unsigned 32-bit value to C's \<open>int\<close> (two's complement).\<close>

definition int_of_u32 :: "u32 \<Rightarrow> int" where
  "int_of_u32 x = sint x"

lemma int_of_u32_small: "unat x < 2 ^ 31 \<Longrightarrow> int_of_u32 x = int (unat x)"
proof -
  assume "unat x < 2 ^ 31"
  then have "uint x < 2 ^ 31"
    by (metis nat_less_numeral_power_cancel_iff unat_eq_nat_uint)
  moreover have "0 \<le> uint x" by simp
  ultimately have "signed_take_bit 31 (uint x) = uint x"
    by (intro signed_take_bit_int_eq_self) linarith+
  then show ?thesis
    by (simp add: int_of_u32_def sint_uint)
qed

section \<open>Buffers\<close>

text \<open>Overwriting a run of bytes at an offset, and reading one.\<close>

definition put_at :: "nat \<Rightarrow> 'a list \<Rightarrow> 'a list \<Rightarrow> 'a list" where
  "put_at off bs buf = take off buf @ bs @ drop (off + length bs) buf"

definition get_at :: "nat \<Rightarrow> nat \<Rightarrow> 'a list \<Rightarrow> 'a list" where
  "get_at off n buf = take n (drop off buf)"

named_theorems buf_simps \<open>reading and writing runs of bytes\<close>

lemma length_put_at [simp]:
  "off + length bs \<le> length buf \<Longrightarrow> length (put_at off bs buf) = length buf"
  by (simp add: put_at_def)

lemma length_get_at [simp]: "off + n \<le> length buf \<Longrightarrow> length (get_at off n buf) = n"
  by (simp add: get_at_def)

lemma get_put_same [buf_simps]:
  "off + length bs \<le> length buf \<Longrightarrow> n = length bs \<Longrightarrow> get_at off n (put_at off bs buf) = bs"
  by (simp add: get_at_def put_at_def)

lemma get_put_before [buf_simps]:
  assumes "o1 + n \<le> o2" "o2 + length bs \<le> length buf"
  shows "get_at o1 n (put_at o2 bs buf) = get_at o1 n buf"
proof -
  have "take n (drop o1 (take o2 buf)) = take n (drop o1 buf)"
    using assms by (simp add: drop_take min_def)
  then show ?thesis
    using assms by (simp add: get_at_def put_at_def)
qed

lemma get_put_after [buf_simps]:
  assumes "o2 + length bs \<le> o1" "o2 + length bs \<le> length buf"
  shows "get_at o1 n (put_at o2 bs buf) = get_at o1 n buf"
proof -
  have "o1 - o2 - length bs + (o2 + length bs) = o1"
    using assms by simp
  then show ?thesis
    using assms by (simp add: get_at_def put_at_def drop_append add.commute add.left_commute)
qed

section \<open>Little-endian fields\<close>

fun le_bytes :: "nat \<Rightarrow> nat \<Rightarrow> bytes" where
  "le_bytes 0 v = []"
| "le_bytes (Suc n) v = of_nat (v mod 256) # le_bytes n (v div 256)"

fun le_nat :: "bytes \<Rightarrow> nat" where
  "le_nat [] = 0"
| "le_nat (b # bs) = unat b + 256 * le_nat bs"

definition enc_u8 :: "u8 \<Rightarrow> bytes" where "enc_u8 x = le_bytes 1 (unat x)"
definition dec_u8 :: "bytes \<Rightarrow> u8" where "dec_u8 bs = of_nat (le_nat bs)"
definition enc_u32 :: "u32 \<Rightarrow> bytes" where "enc_u32 x = le_bytes 4 (unat x)"
definition dec_u32 :: "bytes \<Rightarrow> u32" where "dec_u32 bs = of_nat (le_nat bs)"
definition enc_u64 :: "u64 \<Rightarrow> bytes" where "enc_u64 x = le_bytes 8 (unat x)"
definition dec_u64 :: "bytes \<Rightarrow> u64" where "dec_u64 bs = of_nat (le_nat bs)"

lemma length_le_bytes [simp]: "length (le_bytes n v) = n"
  by (induction n arbitrary: v) auto

lemma le_nat_le_bytes: "le_nat (le_bytes n v) = v mod 256 ^ n"
proof (induction n arbitrary: v)
  case 0
  then show ?case by simp
next
  case (Suc n)
  have "unat (of_nat (v mod 256) :: byte) = v mod 256"
    by (simp add: unat_of_nat)
  with Suc show ?case
    by (simp add: mod_mult2_eq)
qed

text \<open>
  A fixed-width codec writes a value as a run of \<open>width\<close> bytes and reads it back. The
  laws of reading one field after writing another are proved once, for any such codec.
\<close>

locale byte_codec =
  fixes enc :: "'a \<Rightarrow> bytes"
    and dec :: "bytes \<Rightarrow> 'a"
    and width :: nat
  assumes enc_length: "length (enc x) = width"
    and dec_enc: "dec (enc x) = x"
begin

lemma get_field_put_field:
  "off + width \<le> length buf \<Longrightarrow> dec (get_at off width (put_at off (enc x) buf)) = x"
  by (simp add: get_put_same enc_length dec_enc)

lemma put_field_length:
  "off + width \<le> length buf \<Longrightarrow> length (put_at off (enc x) buf) = length buf"
  by (simp add: enc_length)

lemma get_other_field:
  assumes "off + width \<le> length buf" and "o' + n \<le> off \<or> off + width \<le> o'"
  shows "get_at o' n (put_at off (enc x) buf) = get_at o' n buf"
  using assms by (auto simp: get_put_before get_put_after enc_length)

lemma enc_inj: "enc x = enc y \<Longrightarrow> x = y"
  using dec_enc by metis

end

interpretation c8: byte_codec enc_u8 dec_u8 1
proof
  fix x :: u8
  have "unat x < 256" using unsigned_less [of x, where ?'a = nat] by simp
  then show "dec_u8 (enc_u8 x) = x"
    by (simp add: enc_u8_def dec_u8_def unat_of_nat)
qed (simp add: enc_u8_def)

interpretation c32: byte_codec enc_u32 dec_u32 4
proof
  fix x :: u32
  have "unat x < 256 ^ 4" using unsigned_less [of x, where ?'a = nat] by simp
  then show "dec_u32 (enc_u32 x) = x"
    unfolding enc_u32_def dec_u32_def le_nat_le_bytes by simp
qed (simp add: enc_u32_def)

interpretation c64: byte_codec enc_u64 dec_u64 8
proof
  fix x :: u64
  have "unat x < 256 ^ 8" using unsigned_less [of x, where ?'a = nat] by simp
  then show "dec_u64 (enc_u64 x) = x"
    unfolding enc_u64_def dec_u64_def le_nat_le_bytes by simp
qed (simp add: enc_u64_def)

lemmas codec_lengths [simp] = c8.enc_length c32.enc_length c64.enc_length
lemmas codec_roundtrips [simp] = c8.dec_enc c32.dec_enc c64.dec_enc

section \<open>Weakest preconditions for the state monad\<close>

abbreviation ret :: "'a \<Rightarrow> ('s, 'a) state" where
  "ret \<equiv> State_Monad.return"

abbreviation gets :: "('s \<Rightarrow> 'a) \<Rightarrow> ('s, 'a) state" where
  "gets f \<equiv> State (\<lambda>s. (f s, s))"

abbreviation modify :: "('s \<Rightarrow> 's) \<Rightarrow> ('s, unit) state" where
  "modify f \<equiv> State (\<lambda>s. ((), f s))"

text \<open>\<open>wp m Q s\<close>: running \<open>m\<close> from \<open>s\<close> ends with a value and a state that satisfy \<open>Q\<close>.\<close>

definition wp :: "('s, 'a) state \<Rightarrow> ('a \<Rightarrow> 's \<Rightarrow> bool) \<Rightarrow> 's \<Rightarrow> bool" where
  "wp m Q s \<longleftrightarrow> Q (fst (run_state m s)) (snd (run_state m s))"

named_theorems wp_simps \<open>weakest preconditions of the monad's constructors\<close>

lemma wp_ret [wp_simps]: "wp (ret a) Q = Q a"
  by (simp add: wp_def fun_eq_iff)

lemma wp_bind [wp_simps]: "wp (State_Monad.bind m f) Q = wp m (\<lambda>a. wp (f a) Q)"
  by (simp add: wp_def split_beta fun_eq_iff)

lemma wp_State [wp_simps]: "wp (State f) Q = (\<lambda>s. Q (fst (f s)) (snd (f s)))"
  by (simp add: wp_def fun_eq_iff)

lemma wp_if [wp_simps]: "wp (if b then m else n) Q s = (if b then wp m Q s else wp n Q s)"
  by simp

lemma wp_ifI: "(b \<Longrightarrow> wp m Q s) \<Longrightarrow> (\<not> b \<Longrightarrow> wp n Q s) \<Longrightarrow> wp (if b then m else n) Q s"
  by simp

lemma wp_Let [wp_simps]: "wp (Let x f) Q s = wp (f x) Q s"
  by simp

lemma wp_option [wp_simps]:
  "wp (case x of None \<Rightarrow> m | Some y \<Rightarrow> n y) Q s =
     (case x of None \<Rightarrow> wp m Q s | Some y \<Rightarrow> wp (n y) Q s)"
  by (simp split: option.splits)

lemma wp_prod [wp_simps]: "wp (case p of (a, b) \<Rightarrow> f a b) Q s = wp (f (fst p) (snd p)) Q s"
  by (simp add: split_beta)

lemma wp_mono: "wp m P s \<Longrightarrow> (\<And>a t. P a t \<Longrightarrow> Q a t) \<Longrightarrow> wp m Q s"
  by (simp add: wp_def)

lemma wp_run: "wp m Q s \<Longrightarrow> run_state m s = (a, t) \<Longrightarrow> Q a t"
  by (simp add: wp_def)

end
