(* ===== verification/Kernel_Env.thy ===== *)
theory Kernel_Env
  imports TPrelude
begin

text \<open>
  The machine the module runs on. The Linux kernel around TEADFS is not part of the
  repository: every call that leaves the module is a value of type \<open>kcall\<close>, and the
  kernel is a parameter \<open>K\<close> that maps a call and an abstract world to a result and a new
  world. The module's own memory (the blocks it allocates, its globals, the private-data
  fields it owns in VFS objects) is the record \<open>st\<close>. Two ghost fields make statements about
  runs possible: \<open>trace\<close> lists the calls made with their results, \<open>faults\<close> lists the
  memory errors (a run after its first fault has no meaning in C).
\<close>

section \<open>The data the module keeps (teadfs\_header.h)\<close>

record teadfs_file_info =
  lower_file :: ptr
  access :: int
  file_path :: ptr
  file_path_length :: int
  file_path_buf :: ptr

record teadfs_dentry_info =
  lower_path_dentry :: ptr
  lower_path_mnt :: ptr

text \<open>The fields of \<open>struct address_space\<close> that \<open>teadfs_replace_copy_address_space\<close> writes.\<close>

record address_space =
  a_ops :: ptr
  host :: ptr
  as_flags :: int
  gfp_mask :: int
  as_private_data :: ptr
  backing_dev_info :: ptr
  writeback_index :: int

record teadfs_inode_info =
  lower_inode :: ptr
  i_decrypt :: address_space
  lower_file_count :: int
  file_decrypt :: int

record teadfs_sb_info =
  lower_sb :: ptr

record teadfs_msg_ctx =
  ctx_state :: u8
  msg_id :: u64
  request_msg_size :: nat
  request_msg :: ptr
  response_msg_size :: nat
  response_msg :: ptr

definition TEADFS_SUPER_MAGIC :: int where "TEADFS_SUPER_MAGIC = 0x44414554"
definition TEADFS_MSG_CTX_STATE_FREE :: u8 where "TEADFS_MSG_CTX_STATE_FREE = 1"
definition TEADFS_MSG_CTX_STATE_PENDING :: u8 where "TEADFS_MSG_CTX_STATE_PENDING = 2"
definition TEADFS_MSG_CTX_STATE_DONE :: u8 where "TEADFS_MSG_CTX_STATE_DONE = 3"
definition TEADFS_MSG_CTX_STATE_NO_REPLY :: u8 where "TEADFS_MSG_CTX_STATE_NO_REPLY = 4"

lemmas ctx_state_defs = TEADFS_MSG_CTX_STATE_FREE_def TEADFS_MSG_CTX_STATE_PENDING_def
  TEADFS_MSG_CTX_STATE_DONE_def TEADFS_MSG_CTX_STATE_NO_REPLY_def

text \<open>A zeroed structure, as \<open>kzalloc\<close> returns it.\<close>

definition zero_file_info :: teadfs_file_info where
  "zero_file_info = \<lparr>lower_file = 0, access = 0, file_path = 0, file_path_length = 0,
     file_path_buf = 0\<rparr>"

definition zero_dentry_info :: teadfs_dentry_info where
  "zero_dentry_info = \<lparr>lower_path_dentry = 0, lower_path_mnt = 0\<rparr>"

definition zero_address_space :: address_space where
  "zero_address_space = \<lparr>a_ops = 0, host = 0, as_flags = 0, gfp_mask = 0, as_private_data = 0,
     backing_dev_info = 0, writeback_index = 0\<rparr>"

definition zero_inode_info :: teadfs_inode_info where
  "zero_inode_info = \<lparr>lower_inode = 0, i_decrypt = zero_address_space, lower_file_count = 0,
     file_decrypt = 0\<rparr>"

definition zero_sb_info :: teadfs_sb_info where
  "zero_sb_info = \<lparr>lower_sb = 0\<rparr>"

definition zero_msg_ctx :: teadfs_msg_ctx where
  "zero_msg_ctx = \<lparr>ctx_state = 0, msg_id = 0, request_msg_size = 0, request_msg = 0,
     response_msg_size = 0, response_msg = 0\<rparr>"

text \<open>A heap block is raw bytes or one of the module's structures.\<close>

datatype block =
    B_raw bytes
  | B_file teadfs_file_info
  | B_dentry teadfs_dentry_info
  | B_inode teadfs_inode_info
  | B_sb teadfs_sb_info
  | B_ctx teadfs_msg_ctx
  | B_vfile ptr ptr  \<comment> \<open>a \<open>struct file\<close> in the module's own memory: dentry and inode\<close>

text \<open>
  Undefined behaviour of C: accesses outside live memory, wrong frees, dereferenced null and error
  pointers, and reading an argument list that another call has consumed.
\<close>

datatype fault = Bad_access ptr | Out_of_bounds ptr | Bad_free ptr | Bad_pointer ptr | Consumed_args

text \<open>The page cache a \<open>struct file\<close> reads through: the inode's own, or the decrypt one.\<close>

datatype mapping = M_data ptr | M_decrypt ptr

section \<open>Calls out of the module\<close>

datatype lock =
    L_global            \<comment> \<open>\<open>global_param.mux\<close>\<close>
  | L_queue             \<comment> \<open>\<open>g_comm_msg_queue.mux\<close>\<close>
  | L_ctx ptr           \<comment> \<open>\<open>teadfs_msg_ctx.mux\<close>\<close>
  | L_user_proc         \<comment> \<open>\<open>user_proc.lock\<close> (read side)\<close>
  | L_lower_file ptr    \<comment> \<open>\<open>teadfs_inode_info.lower_file_mutex\<close>\<close>
  | L_dentry_info ptr   \<comment> \<open>the spinlock of \<open>teadfs_dentry_info\<close>\<close>
  | L_i_mutex ptr       \<comment> \<open>\<open>i_mutex\<close> of the inode of a lower dentry\<close>
  | L_rename ptr ptr    \<comment> \<open>\<open>lock_rename\<close> of two lower directories\<close>

text \<open>Fields of kernel objects the module reads or writes and does not own.\<close>

datatype field =
    F_d_inode | F_d_sb | F_d_name | F_d_revalidate | F_i_sb | F_i_mode | F_i_nlink | F_i_ino
  | F_i_state_new | F_i_size | F_i_rdev | F_i_ctime | F_f_dentry | F_f_inode | F_f_flags | F_f_mnt
  | F_f_pos | F_op_flush | F_op_fasync | F_op_ioctl | F_op_compat_ioctl | F_op_setxattr
  | F_op_getxattr | F_op_listxattr | F_op_removexattr | F_op_statfs | F_op_bmap | F_s_flags
  | F_s_maxbytes | F_s_blocksize | F_s_is_teadfs | F_s_bdi | F_a_ops | F_as_host | F_as_flags
  | F_as_bdi | F_as_writeback_index | F_s_root
  | F_s_op | F_s_d_op | F_s_magic | F_i_op | F_i_fop | F_i_version

datatype mem_call = K_kzalloc nat | K_kfree ptr | K_stale_read ptr

datatype net_call =
    K_nlmsg_new nat
  | K_nlmsg_put ptr nat
  | K_netlink_unicast ptr int bytes
  | K_netlink_kernel_create nat
  | K_netlink_kernel_release ptr
  | K_misc_register
  | K_misc_deregister
  | K_wait_event_timeout ptr
  | K_wake_up ptr

datatype ref_call =
    K_dget ptr | K_dput ptr | K_dget_parent ptr | K_igrab ptr | K_iput ptr | K_mntget ptr
  | K_mntput ptr | K_path_get ptr | K_path_put ptr ptr | K_fput ptr

datatype io_call =
    K_dentry_open ptr ptr int
  | K_d_path ptr ptr nat
  | K_kernel_read ptr int nat
  | K_kernel_write ptr bytes int
  | K_filemap_write_and_wait mapping
  | K_generic_file_aio_read ptr nat int
  | K_generic_file_aio_write ptr bytes int
  | K_wait_on_sync_kiocb ptr
  | K_touch_atime ptr ptr
  | K_invalidate_remote_inode ptr
  | K_readdir ptr int
  | K_flush ptr ptr
  | K_llseek ptr int int
  | K_vfs_fsync ptr int
  | K_fasync int ptr int
  | K_ioctl ptr int int
  | K_compat_ioctl ptr int int
  | K_set_f_pos ptr int

datatype page_call =
    K_grab_cache_page_write_begin ptr nat int
  | K_read_mapping_page ptr int
  | K_lock_page ptr
  | K_unlock_page ptr
  | K_page_cache_release ptr
  | K_flush_dcache_page ptr
  | K_truncate_setsize ptr int
  | K_bmap ptr int

datatype attr_call =
    K_copy_attr_all ptr ptr
  | K_copy_attr_times ptr ptr
  | K_copy_attr_atime ptr ptr
  | K_copy_inode_size ptr ptr
  | K_set_nlink ptr int
  | K_clear_nlink ptr
  | K_set_i_ctime ptr int
  | K_mark_inode_dirty_sync ptr
  | K_generic_fillattr ptr

datatype dcache_call =
    K_d_instantiate ptr ptr
  | K_d_add ptr ptr
  | K_d_drop ptr
  | K_d_make_root ptr
  | K_unlock_new_inode ptr
  | K_init_special_inode ptr int int
  | K_iget5_locked ptr ptr
  | K_lookup_one_len ptr ptr
  | K_d_revalidate ptr int
  | K_lock_rename ptr ptr

datatype vfs_call =
    K_vfs_create ptr ptr int bool
  | K_vfs_unlink ptr ptr
  | K_vfs_link ptr ptr ptr
  | K_vfs_symlink ptr ptr bytes
  | K_vfs_mkdir ptr ptr int
  | K_vfs_rmdir ptr ptr
  | K_vfs_mknod ptr ptr int int
  | K_vfs_rename ptr ptr ptr ptr
  | K_vfs_getattr ptr ptr
  | K_inode_change_ok ptr int
  | K_notify_change ptr int int
  | K_inode_permission ptr int
  | K_vfs_setxattr ptr bytes bytes int
  | K_getxattr ptr bytes nat
  | K_listxattr ptr nat
  | K_removexattr ptr bytes
  | K_readlink ptr nat
  | K_generic_readlink ptr int
  | K_nd_set_link ptr ptr
  | K_nd_get_link ptr
  | K_statfs ptr

datatype sb_call =
    K_sget int
  | K_bdi_setup_and_register ptr
  | K_bdi_destroy ptr
  | K_kern_path bytes
  | K_path_dentry  \<comment> \<open>the dentry of the path that \<open>kern_path\<close> stored\<close>
  | K_path_mnt
  | K_deactivate_locked_super ptr
  | K_kill_anon_super ptr
  | K_register_filesystem
  | K_unregister_filesystem
  | K_call_rcu ptr
  | K_truncate_inode_pages ptr
  | K_clear_inode ptr
  | K_seq_printf ptr bytes
  | K_filp_open bytes int int
  | K_filp_close ptr
  | K_vprintk bytes

datatype kcall =
    K_lock lock
  | K_unlock lock
  | K_mem mem_call
  | K_net net_call
  | K_ref ref_call
  | K_load field ptr
  | K_store field ptr int
  | K_io io_call
  | K_page page_call
  | K_attr attr_call
  | K_dcache dcache_call
  | K_vfs vfs_call
  | K_sb sb_call
  | K_indeterminate nat  \<comment> \<open>reading a local variable that was never written\<close>

text \<open>
  A result: a C integer or pointer, bytes written to an output buffer, and, for a wait, the
  netlink messages that arrive while the caller sleeps.
\<close>

datatype kret = KRet (rv: int) (rdata: bytes) (rmsgs: "bytes list")

type_synonym 'w kernel = "kcall \<Rightarrow> 'w \<Rightarrow> kret \<times> 'w"

section \<open>The state\<close>

record page =
  pg_index :: nat
  pg_uptodate :: bool
  pg_data :: bytes

record 'w st =
  world :: 'w
  trace :: "(kcall \<times> int) list"
  faults :: "fault list"
  heap :: "ptr \<Rightarrow> block option"
  dead :: "ptr \<Rightarrow> block option"
  brk :: ptr
  cur_pid :: int
  unique_id :: u64
  client_pid :: int
  client_connect :: int
  msg_ctx_queue :: "ptr list"
  private_data :: "ptr \<Rightarrow> ptr"
  d_fsdata :: "ptr \<Rightarrow> ptr"
  s_fs_info :: "ptr \<Rightarrow> ptr"
  f_mapping :: "ptr \<Rightarrow> mapping"
  i_size :: "ptr \<Rightarrow> int"
  pages :: "ptr \<Rightarrow> page"

type_synonym ('w, 'a) op = "('w st, 'a) state"

text \<open>One call out: the kernel answers from its world, the call is recorded with its result.\<close>

definition call :: "'w kernel \<Rightarrow> kcall \<Rightarrow> ('w, kret) op" where
  "call K c = State (\<lambda>s. let (r, w) = K c (world s)
     in (r, s\<lparr>world := w, trace := trace s @ [(c, rv r)]\<rparr>))"

definition call_rv :: "'w kernel \<Rightarrow> kcall \<Rightarrow> ('w, int) op" where
  "call_rv K c = do { r \<leftarrow> call K c; ret (rv r) }"

text \<open>Lock operations have no effect on data in a sequential run: they are only recorded.\<close>

definition emit :: "kcall \<Rightarrow> ('w, unit) op" where
  "emit c = modify (\<lambda>s. s\<lparr>trace := trace s @ [(c, 0)]\<rparr>)"

definition raise_fault :: "fault \<Rightarrow> ('w, unit) op" where
  "raise_fault f = modify (\<lambda>s. s\<lparr>faults := faults s @ [f]\<rparr>)"

section \<open>Memory (mem.h)\<close>

text \<open>
  \<open>kzalloc\<close> returns \<open>NULL\<close> or a fresh zeroed block; whether it fails is the kernel's
  choice (\<open>rv = 0\<close>). The block's initial contents carry its C type.
\<close>

definition teadfs_zalloc :: "'w kernel \<Rightarrow> nat \<Rightarrow> block \<Rightarrow> ('w, ptr) op" where
  "teadfs_zalloc K n blk = do {
     r \<leftarrow> call_rv K (K_mem (K_kzalloc n));
     if r = 0 then ret 0
     else State (\<lambda>s. (brk s, s\<lparr>brk := brk s + 1, heap := (heap s)(brk s \<mapsto> blk)\<rparr>))
   }"

definition teadfs_free :: "ptr \<Rightarrow> ('w, unit) op" where
  "teadfs_free p = do {
     emit (K_mem (K_kfree p));
     h \<leftarrow> gets heap;
     if p = 0 then ret ()
     else if h p = None then raise_fault (Bad_free p)
     else modify (\<lambda>s. s\<lparr>heap := (heap s)(p := None), dead := (dead s)(p := heap s p)\<rparr>)
   }"

fun raw_of :: "block option \<Rightarrow> bytes option" where
  "raw_of (Some (B_raw b)) = Some b"
| "raw_of _ = None"

fun file_of :: "block option \<Rightarrow> teadfs_file_info option" where
  "file_of (Some (B_file f)) = Some f"
| "file_of _ = None"

fun dentry_of :: "block option \<Rightarrow> teadfs_dentry_info option" where
  "dentry_of (Some (B_dentry d)) = Some d"
| "dentry_of _ = None"

fun inode_of :: "block option \<Rightarrow> teadfs_inode_info option" where
  "inode_of (Some (B_inode i)) = Some i"
| "inode_of _ = None"

fun sb_of :: "block option \<Rightarrow> teadfs_sb_info option" where
  "sb_of (Some (B_sb b)) = Some b"
| "sb_of _ = None"

fun ctx_of :: "block option \<Rightarrow> teadfs_msg_ctx option" where
  "ctx_of (Some (B_ctx c)) = Some c"
| "ctx_of _ = None"

text \<open>
  Reading or writing through a pointer: a block that is not live, or not of the expected type,
  is a fault, as is an access outside the block.
\<close>

definition load :: "(block option \<Rightarrow> 'a option) \<Rightarrow> 'a \<Rightarrow> ptr \<Rightarrow> ('w, 'a) op" where
  "load sel dflt p = do {
     h \<leftarrow> gets heap;
     case sel (h p) of None \<Rightarrow> do { raise_fault (Bad_access p); ret dflt } | Some x \<Rightarrow> ret x
   }"

definition store :: "(block option \<Rightarrow> 'a option) \<Rightarrow> ('a \<Rightarrow> block) \<Rightarrow> ('a \<Rightarrow> 'a) \<Rightarrow> ptr \<Rightarrow> ('w, unit) op"
where
  "store sel mk f p = do {
     h \<leftarrow> gets heap;
     case sel (h p) of
       None \<Rightarrow> raise_fault (Bad_access p)
     | Some x \<Rightarrow> modify (\<lambda>s. s\<lparr>heap := (heap s)(p \<mapsto> mk (f x))\<rparr>)
   }"

text \<open>
  A read of a freed block is a fault. What it returns depends on whether the memory was reused:
  the kernel's choice (\<open>rv = 0\<close>: not reused, the old contents are still there).
\<close>

definition stale_peek :: "'w kernel \<Rightarrow> ptr \<Rightarrow> nat \<Rightarrow> nat \<Rightarrow> ('w, bytes) op" where
  "stale_peek K p off n = do {
     raise_fault (Bad_access p);
     d \<leftarrow> gets dead;
     r \<leftarrow> call K (K_mem (K_stale_read p));
     case raw_of (d p) of
       None \<Rightarrow> ret (take n (rdata r @ replicate n 0))
     | Some b \<Rightarrow>
         if rv r = 0 \<and> off + n \<le> length b then ret (get_at off n b)
         else ret (take n (rdata r @ replicate n 0))
   }"

text \<open>Copying no bytes touches no memory.\<close>

definition peek :: "'w kernel \<Rightarrow> ptr \<Rightarrow> nat \<Rightarrow> nat \<Rightarrow> ('w, bytes) op" where
  "peek K p off n = do {
     h \<leftarrow> gets heap;
     if n = 0 then ret []
     else case raw_of (h p) of
       None \<Rightarrow> stale_peek K p off n
     | Some b \<Rightarrow>
         if off + n \<le> length b then ret (get_at off n b)
         else do { raise_fault (Out_of_bounds p); ret (replicate n 0) }
   }"

definition poke :: "ptr \<Rightarrow> nat \<Rightarrow> bytes \<Rightarrow> ('w, unit) op" where
  "poke p off bs = do {
     h \<leftarrow> gets heap;
     if bs = [] then ret ()
     else case raw_of (h p) of
       None \<Rightarrow> raise_fault (Bad_access p)
     | Some b \<Rightarrow>
         if off + length bs \<le> length b
         then modify (\<lambda>s. s\<lparr>heap := (heap s)(p \<mapsto> B_raw (put_at off bs b))\<rparr>)
         else raise_fault (Out_of_bounds p)
   }"

text \<open>A local variable of a function: a block that lives until the function returns.\<close>

definition push_local :: "block \<Rightarrow> ('w, ptr) op" where
  "push_local blk = State (\<lambda>s. (brk s, s\<lparr>brk := brk s + 1, heap := (heap s)(brk s \<mapsto> blk)\<rparr>))"

definition pop_local :: "ptr \<Rightarrow> ('w, unit) op" where
  "pop_local p = modify (\<lambda>s. s\<lparr>heap := (heap s)(p := None)\<rparr>)"

text \<open>
  \<open>file->f_path.dentry\<close> and \<open>file->f_inode\<close>: from the module's memory for a file object of
  its own, from the kernel otherwise.
\<close>

definition f_dentry :: "'w kernel \<Rightarrow> ptr \<Rightarrow> ('w, ptr) op" where
  "f_dentry K file = do {
     h \<leftarrow> gets heap;
     case h file of Some (B_vfile d i) \<Rightarrow> ret d | _ \<Rightarrow> call_rv K (K_load F_f_dentry file)
   }"

definition f_inode :: "'w kernel \<Rightarrow> ptr \<Rightarrow> ('w, ptr) op" where
  "f_inode K file = do {
     h \<leftarrow> gets heap;
     case h file of Some (B_vfile d i) \<Rightarrow> ret i | _ \<Rightarrow> call_rv K (K_load F_f_inode file)
   }"

text \<open>Evaluating \<open>p->field\<close> for a pointer that may be \<open>NULL\<close> or an error pointer.\<close>

definition deref :: "ptr \<Rightarrow> ('w, unit) op" where
  "deref p = (if p = 0 \<or> IS_ERR p then raise_fault (Bad_pointer p) else ret ())"

text \<open>Live blocks have positive addresses below the allocation mark.\<close>

definition heap_ok :: "'w st \<Rightarrow> bool" where
  "heap_ok s \<longleftrightarrow> 0 < brk s \<and> (\<forall>p. heap s p \<noteq> None \<longrightarrow> 0 < p \<and> p < brk s)"

text \<open>
  What a step that only talks to the network leaves alone: everything but the world, the trace,
  the client's pid and the heap.
\<close>

definition frame :: "'w st \<Rightarrow> 'w st \<Rightarrow> bool" where
  "frame s t \<longleftrightarrow> faults t = faults s \<and> cur_pid t = cur_pid s \<and> unique_id t = unique_id s \<and>
     client_connect t = client_connect s \<and> msg_ctx_queue t = msg_ctx_queue s \<and>
     private_data t = private_data s \<and> d_fsdata t = d_fsdata s \<and> s_fs_info t = s_fs_info s \<and>
     f_mapping t = f_mapping s \<and> i_size t = i_size s \<and> pages t = pages s"

lemma frame_refl [simp]: "frame s s"
  by (simp add: frame_def)

lemma frame_trans: "frame s t \<Longrightarrow> frame t u \<Longrightarrow> frame s u"
  by (simp add: frame_def)

subsection \<open>Weakest preconditions of the primitives\<close>

lemma run_call:
  "run_state (call K c) s =
     (fst (K c (world s)),
      s\<lparr>world := snd (K c (world s)), trace := trace s @ [(c, rv (fst (K c (world s))))]\<rparr>)"
  by (simp add: call_def split_beta Let_def)

lemma wp_callI:
  "(\<And>r w. Q r (s\<lparr>world := w, trace := trace s @ [(c, rv r)]\<rparr>)) \<Longrightarrow> wp (call K c) Q s"
  by (simp add: wp_def run_call)

lemma wp_call_rvI:
  "(\<And>r w. Q r (s\<lparr>world := w, trace := trace s @ [(c, r)]\<rparr>)) \<Longrightarrow> wp (call_rv K c) Q s"
  by (simp add: call_rv_def wp_simps wp_callI)

lemma wp_call:
  "wp (call K c) Q s \<longleftrightarrow>
     Q (fst (K c (world s)))
       (s\<lparr>world := snd (K c (world s)), trace := trace s @ [(c, rv (fst (K c (world s))))]\<rparr>)"
  by (simp add: wp_def run_call)

lemma wp_emit [wp_simps]: "wp (emit c) Q = (\<lambda>s. Q () (s\<lparr>trace := trace s @ [(c, 0)]\<rparr>))"
  by (simp add: emit_def wp_simps)

lemma wp_raise_fault [wp_simps]:
  "wp (raise_fault f) Q = (\<lambda>s. Q () (s\<lparr>faults := faults s @ [f]\<rparr>))"
  by (simp add: raise_fault_def wp_simps)

lemma wp_load [wp_simps]: "sel (heap s p) = Some x \<Longrightarrow> wp (load sel d p) Q s = Q x s"
  by (simp add: load_def wp_simps)

lemma wp_store [wp_simps]:
  "sel (heap s p) = Some x \<Longrightarrow>
     wp (store sel mk f p) Q s = Q () (s\<lparr>heap := (heap s)(p \<mapsto> mk (f x))\<rparr>)"
  by (simp add: store_def wp_simps)

lemma wp_peek [wp_simps]:
  "heap s p = Some (B_raw b) \<Longrightarrow> off + n \<le> length b \<Longrightarrow> wp (peek K p off n) Q s = Q (get_at off n b) s"
  by (simp add: peek_def wp_simps get_at_def)

lemma wp_poke [wp_simps]:
  "heap s p = Some (B_raw b) \<Longrightarrow> off + length bs \<le> length b \<Longrightarrow>
     wp (poke p off bs) Q s = Q () (s\<lparr>heap := (heap s)(p \<mapsto> B_raw (put_at off bs b))\<rparr>)"
  by (cases "bs = []") (simp_all add: poke_def wp_simps put_at_def fun_upd_idem)

lemma wp_free_null [wp_simps]:
  "wp (teadfs_free 0) Q s = Q () (s\<lparr>trace := trace s @ [(K_mem (K_kfree 0), 0)]\<rparr>)"
  by (simp add: teadfs_free_def wp_simps)

lemma wp_free [wp_simps]:
  "heap s p = Some b \<Longrightarrow> p \<noteq> 0 \<Longrightarrow> wp (teadfs_free p) Q s =
     Q () (s\<lparr>trace := trace s @ [(K_mem (K_kfree p), 0)], heap := (heap s)(p := None),
          dead := (dead s)(p := heap s p)\<rparr>)"
  by (simp add: teadfs_free_def wp_simps)

lemma wp_zallocI:
  assumes "\<And>w. Q 0 (s\<lparr>world := w, trace := trace s @ [(K_mem (K_kzalloc n), 0)]\<rparr>)"
    and "\<And>r w. r \<noteq> 0 \<Longrightarrow> Q (brk s) (s\<lparr>world := w, trace := trace s @ [(K_mem (K_kzalloc n), r)],
            brk := brk s + 1, heap := (heap s)(brk s \<mapsto> blk)\<rparr>)"
  shows "wp (teadfs_zalloc K n blk) Q s"
  unfolding teadfs_zalloc_def wp_simps
  by (rule wp_call_rvI) (use assms in \<open>auto simp: wp_simps\<close>)

lemma heap_ok_null [simp]: "heap_ok s \<Longrightarrow> heap s 0 = None"
  by (auto simp: heap_ok_def)

lemma heap_ok_brk [simp]: "heap_ok s \<Longrightarrow> heap s (brk s) = None"
  by (auto simp: heap_ok_def)

section \<open>Monitors of the trace\<close>

text \<open>
  A monitor runs along the trace of an operation: \<open>step\<close> maps its state and a call with its result
  to its next state, or rejects the call. \<open>mon step H m G\<close> says that every run of \<open>m\<close> that the
  monitor enters in state \<open>H\<close> only adds calls that it accepts and, when \<open>m\<close> returns \<open>a\<close>, leaves it
  in state \<open>G a\<close>.
\<close>

type_synonym 'h monitor = "'h \<Rightarrow> kcall \<times> int \<Rightarrow> 'h option"

fun mon_run :: "'h monitor \<Rightarrow> 'h \<Rightarrow> (kcall \<times> int) list \<Rightarrow> 'h option" where
  "mon_run step H [] = Some H"
| "mon_run step H (c # cs) = (case step H c of None \<Rightarrow> None | Some H' \<Rightarrow> mon_run step H' cs)"

definition mon :: "'h monitor \<Rightarrow> 'h \<Rightarrow> ('w, 'a) op \<Rightarrow> ('a \<Rightarrow> 'h) \<Rightarrow> bool" where
  "mon step H m G \<longleftrightarrow> (\<forall>s a t. run_state m s = (a, t) \<longrightarrow>
     (\<exists>new. trace t = trace s @ new \<and> mon_run step H new = Some (G a)))"

lemma mon_run_append:
  "mon_run step H (xs @ ys) = (case mon_run step H xs of None \<Rightarrow> None | Some H' \<Rightarrow> mon_run step H' ys)"
  by (induction xs arbitrary: H) (auto split: option.splits)

lemma monD:
  "mon step H m G \<Longrightarrow> run_state m s = (a, t) \<Longrightarrow>
     \<exists>new. trace t = trace s @ new \<and> mon_run step H new = Some (G a)"
  by (simp add: mon_def)

text \<open>The same with a postcondition on the final state.\<close>

lemma mon_wp:
  "mon step H m (\<lambda>_. H') \<Longrightarrow> wp m (\<lambda>_ t. \<exists>new. trace t = trace s @ new \<and> mon_run step H new = Some H') s"
  unfolding wp_def by (drule monD [where s = s], rule prod.collapse [symmetric]) simp

named_theorems mon_intros \<open>monitors of the monad's constructors and of the operations\<close>

lemma mon_ret_at: "G a = H \<Longrightarrow> mon step H (ret a) G"
  by (simp add: mon_def)

lemma mon_ret [mon_intros]: "mon step H (ret a) (\<lambda>_. H)"
  by (rule mon_ret_at) simp

text \<open>A step whose result decides the monitor's state and is known to satisfy \<open>V\<close>.\<close>

lemma mon_bind_at_val:
  assumes "mon step H m G1" and "\<And>s. wp m (\<lambda>a _. V a) s" and "\<And>a. V a \<Longrightarrow> mon step (G1 a) (f a) G"
  shows "mon step H (State_Monad.bind m f) G"
  unfolding mon_def
proof (intro allI impI)
  fix s b u assume run: "run_state (State_Monad.bind m f) s = (b, u)"
  obtain a t where m: "run_state m s = (a, t)" by (cases "run_state m s")
  then have f: "run_state (f a) t = (b, u)" using run by simp
  obtain n1 where n1: "trace t = trace s @ n1" "mon_run step H n1 = Some (G1 a)"
    using monD [OF assms(1) m] by blast
  have "V a" using wp_run [OF assms(2) m] .
  then obtain n2 where n2: "trace u = trace t @ n2" "mon_run step (G1 a) n2 = Some (G b)"
    using monD [OF assms(3) f] by blast
  show "\<exists>new. trace u = trace s @ new \<and> mon_run step H new = Some (G b)"
    using n1 n2 by (intro exI [of _ "n1 @ n2"]) (simp add: mon_run_append)
qed

lemma mon_bind_at:
  "mon step H m G1 \<Longrightarrow> (\<And>a. mon step (G1 a) (f a) G) \<Longrightarrow> mon step H (State_Monad.bind m f) G"
  by (rule mon_bind_at_val [where V = "\<lambda>_. True"]) (simp_all add: wp_def)

lemma mon_bind [mon_intros]:
  "mon step H m (\<lambda>_. H1) \<Longrightarrow> (\<And>a. mon step H1 (f a) G) \<Longrightarrow> mon step H (State_Monad.bind m f) G"
  by (rule mon_bind_at)

lemma mon_bind_val:
  "mon step H m (\<lambda>_. H1) \<Longrightarrow> (\<And>s. wp m (\<lambda>a _. V a) s) \<Longrightarrow> (\<And>a. V a \<Longrightarrow> mon step H1 (f a) G) \<Longrightarrow>
     mon step H (State_Monad.bind m f) G"
  by (rule mon_bind_at_val)

lemma mon_if [mon_intros]:
  "(b \<Longrightarrow> mon step H m G) \<Longrightarrow> (\<not> b \<Longrightarrow> mon step H n G) \<Longrightarrow> mon step H (if b then m else n) G"
  by simp

lemma mon_option [mon_intros]:
  "(x = None \<Longrightarrow> mon step H m G) \<Longrightarrow> (\<And>y. x = Some y \<Longrightarrow> mon step H (n y) G) \<Longrightarrow>
     mon step H (case x of None \<Rightarrow> m | Some y \<Rightarrow> n y) G"
  by (simp split: option.splits)

lemma mon_Let [mon_intros]: "mon step H (f x) G \<Longrightarrow> mon step H (Let x f) G"
  by simp

lemma mon_prod [mon_intros]:
  "(\<And>a b. p = (a, b) \<Longrightarrow> mon step H (f a b) G) \<Longrightarrow> mon step H (case p of (a, b) \<Rightarrow> f a b) G"
  by (cases p) simp

lemma mon_State [mon_intros]:
  assumes "\<And>s. trace (snd (f s)) = trace s"
  shows "mon step H (State f) (\<lambda>_. H)"
  unfolding mon_def
proof (intro allI impI)
  fix s a t assume "run_state (State f) s = (a, t)"
  then have "t = snd (f s)" by simp
  then show "\<exists>new. trace t = trace s @ new \<and> mon_run step H new = Some H"
    using assms by (intro exI [of _ "[]"]) simp
qed

lemma mon_call [mon_intros]: "(\<And>r. step H (c, r) = Some H') \<Longrightarrow> mon step H (call K c) (\<lambda>_. H')"
  by (auto simp: mon_def run_call)

lemma mon_call_rv_at: "(\<And>r. step H (c, r) = Some (G r)) \<Longrightarrow> mon step H (call_rv K c) G"
  by (auto simp: mon_def run_call call_rv_def)

lemma mon_call_rv [mon_intros]: "(\<And>r. step H (c, r) = Some H') \<Longrightarrow> mon step H (call_rv K c) (\<lambda>_. H')"
  by (rule mon_call_rv_at)

lemma mon_emit [mon_intros]: "step H (c, 0) = Some H' \<Longrightarrow> mon step H (emit c) (\<lambda>_. H')"
  by (auto simp: mon_def emit_def)

lemma mon_raise_fault [mon_intros]: "mon step H (raise_fault f) (\<lambda>_. H)"
  unfolding raise_fault_def by (rule mon_State) simp

lemma mon_load [mon_intros]: "mon step H (load sel d p) (\<lambda>_. H)"
  unfolding load_def by (rule mon_intros | simp)+

lemma mon_store [mon_intros]: "mon step H (store sel mk f p) (\<lambda>_. H)"
  unfolding store_def by (rule mon_intros | simp)+

lemma mon_poke [mon_intros]: "mon step H (poke p off bs) (\<lambda>_. H)"
  unfolding poke_def by (rule mon_intros | simp)+

lemma mon_push_local [mon_intros]: "mon step H (push_local blk) (\<lambda>_. H)"
  unfolding push_local_def by (rule mon_intros | simp)+

lemma mon_pop_local [mon_intros]: "mon step H (pop_local p) (\<lambda>_. H)"
  unfolding pop_local_def by (rule mon_intros | simp)+

lemma mon_block [mon_intros]:
  "(\<And>d i. x = Some (B_vfile d i) \<Longrightarrow> mon step H (m d i) G) \<Longrightarrow> mon step H n G \<Longrightarrow>
     mon step H (case x of Some (B_vfile d i) \<Rightarrow> m d i | _ \<Rightarrow> n) G"
  by (auto split: option.splits block.splits)

lemma mon_deref [mon_intros]: "mon step H (deref p) (\<lambda>_. H)"
  unfolding deref_def by (rule mon_intros | simp)+

text \<open>
  Most monitors do not mind calls for memory and reads of fields; for them the primitives that make
  such calls are accepted too.
\<close>

locale quiet_monitor =
  fixes step :: "'h monitor"
  assumes step_mem: "step H (K_mem c, r) = Some H"
    and step_load: "step H (K_load fld p, r) = Some H"
begin

lemma mon_peek: "mon step H (peek K p off n) (\<lambda>_. H)"
  unfolding peek_def stale_peek_def by (rule mon_intros | simp add: step_mem)+

lemma mon_zalloc: "mon step H (teadfs_zalloc K n blk) (\<lambda>_. H)"
  unfolding teadfs_zalloc_def by (rule mon_intros | simp add: step_mem)+

lemma mon_free: "mon step H (teadfs_free p) (\<lambda>_. H)"
  unfolding teadfs_free_def by (rule mon_intros | simp add: step_mem)+

lemma mon_f_dentry: "mon step H (f_dentry K f) (\<lambda>_. H)"
  unfolding f_dentry_def by (rule mon_block mon_intros | simp add: step_load)+

lemma mon_f_inode: "mon step H (f_inode K f) (\<lambda>_. H)"
  unfolding f_inode_def by (rule mon_block mon_intros | simp add: step_load)+

lemmas mon_primitives = mon_peek mon_zalloc mon_free mon_f_dentry mon_f_inode

end

text \<open>
  A monitor that ignores the whole message channel: locks, the network and the path lookups of
  the requests.
\<close>

locale neutral_monitor = quiet_monitor step
  for step :: "'h monitor" +
  assumes step_lock: "step H (K_lock l, r) = Some H"
    and step_unlock: "step H (K_unlock l, r) = Some H"
    and step_net: "step H (K_net c, r) = Some H"
    and step_indet: "step H (K_indeterminate n, r) = Some H"
    and step_d_path: "step H (K_io (K_d_path d m n), r) = Some H"
begin

lemmas steps [simp] = step_mem step_load step_lock step_unlock step_net step_indet step_d_path

declare mon_primitives [mon_intros]

end

section \<open>Lock discipline\<close>

text \<open>
  The set of locks a thread holds: taking a lock twice (self-deadlock) or releasing one that is
  not held is rejected. \<open>holds H m H'\<close>: entered with the locks \<open>H\<close> held, \<open>m\<close> obeys the
  discipline and ends with exactly \<open>H'\<close> held.
\<close>

fun lock_step :: "lock set monitor" where
  "lock_step H (K_lock l, r) = (if l \<in> H then None else Some (insert l H))"
| "lock_step H (K_unlock l, r) = (if l \<in> H then Some (H - {l}) else None)"
| "lock_step H _ = Some H"

interpretation lk: quiet_monitor lock_step
  by unfold_locales simp_all

abbreviation holds :: "lock set \<Rightarrow> ('w, 'a) op \<Rightarrow> lock set \<Rightarrow> bool" where
  "holds H m H' \<equiv> mon lock_step H m (\<lambda>_. H')"

named_theorems holds_intros \<open>lock discipline of the monad's constructors and of the operations\<close>

lemmas [holds_intros] = mon_ret mon_bind mon_if mon_option mon_Let mon_prod mon_State mon_call
  mon_call_rv mon_emit mon_raise_fault mon_load mon_store mon_poke mon_push_local mon_pop_local
  mon_deref lk.mon_primitives

section \<open>Frames\<close>

text \<open>
  \<open>keeps g m\<close>: no run of \<open>m\<close> changes the view \<open>g\<close> of the state. The locale collects the views
  that the message channel cannot change: those that ignore the world, the ghost fields, the heap
  and the channel's own globals.
\<close>

definition keeps :: "('w st \<Rightarrow> 'b) \<Rightarrow> ('w, 'a) op \<Rightarrow> bool" where
  "keeps g m \<longleftrightarrow> (\<forall>s. g (snd (run_state m s)) = g s)"

lemma keeps_wp: "keeps g m \<Longrightarrow> (\<And>a t. g t = g s \<Longrightarrow> Q a t) \<Longrightarrow> wp m Q s"
  by (simp add: keeps_def wp_def)

lemma wp_all: "(\<And>a t. Q a t) \<Longrightarrow> wp m Q s"
  by (simp add: wp_def)

named_theorems keeps_intros \<open>frames of the monad's constructors and of the operations\<close>

lemma keeps_ret [keeps_intros]: "keeps g (ret a)"
  by (simp add: keeps_def)

lemma keeps_bind [keeps_intros]: "keeps g m \<Longrightarrow> (\<And>a. keeps g (f a)) \<Longrightarrow> keeps g (State_Monad.bind m f)"
  by (simp add: keeps_def split_beta)

lemma keeps_if [keeps_intros]:
  "(b \<Longrightarrow> keeps g m) \<Longrightarrow> (\<not> b \<Longrightarrow> keeps g n) \<Longrightarrow> keeps g (if b then m else n)"
  by simp

lemma keeps_option [keeps_intros]:
  "(x = None \<Longrightarrow> keeps g m) \<Longrightarrow> (\<And>y. x = Some y \<Longrightarrow> keeps g (n y)) \<Longrightarrow>
     keeps g (case x of None \<Rightarrow> m | Some y \<Rightarrow> n y)"
  by (simp split: option.splits)

lemma keeps_Let [keeps_intros]: "keeps g (f x) \<Longrightarrow> keeps g (Let x f)"
  by simp

lemma keeps_prod [keeps_intros]:
  "(\<And>a b. p = (a, b) \<Longrightarrow> keeps g (f a b)) \<Longrightarrow> keeps g (case p of (a, b) \<Rightarrow> f a b)"
  by (cases p) simp

lemma keeps_State [keeps_intros]: "(\<And>s. g (snd (f s)) = g s) \<Longrightarrow> keeps g (State f)"
  by (simp add: keeps_def)

lemma keeps_block [keeps_intros]:
  "(\<And>d i. x = Some (B_vfile d i) \<Longrightarrow> keeps g (m d i)) \<Longrightarrow> keeps g n \<Longrightarrow>
     keeps g (case x of Some (B_vfile d i) \<Rightarrow> m d i | _ \<Rightarrow> n)"
  by (auto split: option.splits block.splits)

locale outer_view =
  fixes g :: "'w st \<Rightarrow> 'b"
  assumes g_world: "g (s\<lparr>world := w\<rparr>) = g s"
    and g_trace: "g (s\<lparr>trace := tr\<rparr>) = g s"
    and g_faults: "g (s\<lparr>faults := fs\<rparr>) = g s"
    and g_heap: "g (s\<lparr>heap := h\<rparr>) = g s"
    and g_dead: "g (s\<lparr>dead := d\<rparr>) = g s"
    and g_brk: "g (s\<lparr>brk := b\<rparr>) = g s"
    and g_uid: "g (s\<lparr>unique_id := u\<rparr>) = g s"
    and g_cpid: "g (s\<lparr>client_pid := c\<rparr>) = g s"
    and g_queue: "g (s\<lparr>msg_ctx_queue := q\<rparr>) = g s"
begin

lemmas g_simps [simp] = g_world g_trace g_faults g_heap g_dead g_brk g_uid g_cpid g_queue

lemma keeps_call [keeps_intros]: "keeps g (call K c)"
  by (simp add: keeps_def run_call)

lemma keeps_call_rv [keeps_intros]: "keeps g (call_rv K c)"
  unfolding call_rv_def by (rule keeps_intros)+

lemma keeps_memory [keeps_intros]:
  "keeps g (emit c)"
  "keeps g (raise_fault f)"
  "keeps g (load sel d p)"
  "keeps g (store sel mk upd p)"
  "keeps g (poke p off bs)"
  "keeps g (push_local blk)"
  "keeps g (pop_local p)"
  "keeps g (deref p)"
  unfolding emit_def raise_fault_def load_def store_def poke_def push_local_def pop_local_def deref_def
  by (rule keeps_intros | simp)+

lemma keeps_blocks [keeps_intros]:
  "keeps g (peek K p off n)"
  "keeps g (teadfs_zalloc K n blk)"
  "keeps g (teadfs_free p)"
  "keeps g (f_dentry K f)"
  "keeps g (f_inode K f)"
  unfolding peek_def stale_peek_def teadfs_zalloc_def teadfs_free_def f_dentry_def f_inode_def
  by (rule keeps_block keeps_intros | simp)+

end

text \<open>The view of everything the channel leaves alone.\<close>

definition outer :: "'w st \<Rightarrow> _" where
  "outer s = (i_size s, pages s, private_data s, d_fsdata s, s_fs_info s, f_mapping s, cur_pid s, client_connect s)"

interpretation ov: outer_view outer
  by unfold_locales (simp_all add: outer_def)

section \<open>Locals\<close>

lemma wp_push_local [wp_simps]:
  "wp (push_local blk) Q s = Q (brk s) (s\<lparr>brk := brk s + 1, heap := (heap s)(brk s \<mapsto> blk)\<rparr>)"
  by (simp add: push_local_def wp_simps)

lemma wp_pop_local [wp_simps]:
  "wp (pop_local p) Q s = Q () (s\<lparr>heap := (heap s)(p := None)\<rparr>)"
  by (simp add: pop_local_def wp_simps)

lemma wp_deref [wp_simps]: "p \<noteq> 0 \<Longrightarrow> \<not> IS_ERR p \<Longrightarrow> wp (deref p) Q s = Q () s"
  by (simp add: deref_def wp_simps)

section \<open>A concrete machine\<close>

text \<open>
  A kernel in which every call returns one and nothing arrives, and the state of a module that
  has just been loaded, for evaluating the operations on concrete inputs.
\<close>

definition calm_kernel :: "unit kernel" where
  "calm_kernel = (\<lambda>c w. (KRet 1 [] [], w))"

definition boot_st :: "'w \<Rightarrow> 'w st" where
  "boot_st w = \<lparr>world = w, trace = [], faults = [], heap = (\<lambda>_. None), dead = (\<lambda>_. None), brk = 1,
     cur_pid = 100, unique_id = 1, client_pid = 0, client_connect = 0, msg_ctx_queue = [],
     private_data = (\<lambda>_. 0), d_fsdata = (\<lambda>_. 0), s_fs_info = (\<lambda>_. 0), f_mapping = M_data,
     i_size = (\<lambda>_. 0), pages = (\<lambda>_. \<lparr>pg_index = 0, pg_uptodate = False, pg_data = []\<rparr>)\<rparr>"

lemma boot_heap_ok [simp]: "heap_ok (boot_st w)"
  by (simp add: heap_ok_def boot_st_def)

end
