(* ===== verification/Global_Param.thy ===== *)
theory Global_Param
  imports Kernel_Env
begin

text \<open>
  The module's globals (\<open>global_param.c\<close>): the message-id counter, the client's pid and
  connection flag, each read and written under \<open>global_param.mux\<close>, and the queue of pending
  requests. The id counter is analysed through the locale \<open>id_counter\<close>: which ids a run of
  allocations hands out, and how long they stay distinct.
\<close>

section \<open>Operations\<close>

definition teadfs_init_global_param :: "('w, int) op" where
  "teadfs_init_global_param = do {
     modify (\<lambda>s. s\<lparr>unique_id := 1\<rparr>);
     modify (\<lambda>s. s\<lparr>msg_ctx_queue := []\<rparr>);
     ret 0
   }"

definition teadfs_release_global_param :: "('w, unit) op" where
  "teadfs_release_global_param = ret ()"

definition teadfs_get_next_msg_id :: "('w, u64) op" where
  "teadfs_get_next_msg_id = do {
     emit (K_lock L_global);
     modify (\<lambda>s. s\<lparr>unique_id := unique_id s + 1\<rparr>);
     u \<leftarrow> gets unique_id;
     (if 0 = u then modify (\<lambda>s. s\<lparr>unique_id := 1\<rparr>) else ret ());
     m \<leftarrow> gets unique_id;
     emit (K_unlock L_global);
     ret m
   }"

definition teadfs_get_msg_queue :: "('w, ptr list) op" where
  "teadfs_get_msg_queue = gets msg_ctx_queue"

definition teadfs_get_client_pid :: "('w, int) op" where
  "teadfs_get_client_pid = do {
     emit (K_lock L_global);
     pid \<leftarrow> gets client_pid;
     emit (K_unlock L_global);
     ret pid
   }"

definition teadfs_set_client_pid :: "int \<Rightarrow> ('w, unit) op" where
  "teadfs_set_client_pid pid = do {
     emit (K_lock L_global);
     modify (\<lambda>s. s\<lparr>client_pid := pid\<rparr>);
     emit (K_unlock L_global)
   }"

definition teadfs_get_client_connect :: "('w, int) op" where
  "teadfs_get_client_connect = do {
     emit (K_lock L_global);
     connect \<leftarrow> gets client_connect;
     emit (K_unlock L_global);
     ret connect
   }"

definition teadfs_set_clinet_connect :: "int \<Rightarrow> ('w, unit) op" where
  "teadfs_set_clinet_connect connect = do {
     emit (K_lock L_global);
     modify (\<lambda>s. s\<lparr>client_connect := connect\<rparr>);
     emit (K_unlock L_global)
   }"

section \<open>Weakest preconditions and lock discipline\<close>

text \<open>The trace left by one access to the globals.\<close>

abbreviation global_section :: "(kcall \<times> int) list" where
  "global_section \<equiv> [(K_lock L_global, 0), (K_unlock L_global, 0)]"

text \<open>The counter's successor: wrap-around skips \<open>0\<close>.\<close>

definition next_id :: "u64 \<Rightarrow> u64" where
  "next_id u = (if u + 1 = 0 then 1 else u + 1)"

lemma wp_get_next_msg_id [wp_simps]:
  "wp teadfs_get_next_msg_id Q s =
     Q (next_id (unique_id s)) (s\<lparr>unique_id := next_id (unique_id s), trace := trace s @ global_section\<rparr>)"
  by (simp add: teadfs_get_next_msg_id_def wp_simps next_id_def)

lemma wp_get_msg_queue [wp_simps]: "wp teadfs_get_msg_queue Q s = Q (msg_ctx_queue s) s"
  by (simp add: teadfs_get_msg_queue_def wp_simps)

lemma wp_get_client_pid [wp_simps]:
  "wp teadfs_get_client_pid Q s = Q (client_pid s) (s\<lparr>trace := trace s @ global_section\<rparr>)"
  by (simp add: teadfs_get_client_pid_def wp_simps)

lemma wp_set_client_pid [wp_simps]:
  "wp (teadfs_set_client_pid p) Q s = Q () (s\<lparr>client_pid := p, trace := trace s @ global_section\<rparr>)"
  by (simp add: teadfs_set_client_pid_def wp_simps)

lemma wp_get_client_connect [wp_simps]:
  "wp teadfs_get_client_connect Q s = Q (client_connect s) (s\<lparr>trace := trace s @ global_section\<rparr>)"
  by (simp add: teadfs_get_client_connect_def wp_simps)

lemma wp_set_clinet_connect [wp_simps]:
  "wp (teadfs_set_clinet_connect c) Q s = Q () (s\<lparr>client_connect := c, trace := trace s @ global_section\<rparr>)"
  by (simp add: teadfs_set_clinet_connect_def wp_simps)

lemma holds_get_next_msg_id [holds_intros]:
  "L_global \<notin> H \<Longrightarrow> holds H teadfs_get_next_msg_id H"
  unfolding teadfs_get_next_msg_id_def by (rule holds_intros | simp)+

lemma holds_get_msg_queue [holds_intros]: "holds H teadfs_get_msg_queue H"
  unfolding teadfs_get_msg_queue_def by (rule holds_intros | simp)+

lemma holds_get_client_pid [holds_intros]: "L_global \<notin> H \<Longrightarrow> holds H teadfs_get_client_pid H"
  unfolding teadfs_get_client_pid_def by (rule holds_intros | simp)+

lemma holds_set_client_pid [holds_intros]: "L_global \<notin> H \<Longrightarrow> holds H (teadfs_set_client_pid p) H"
  unfolding teadfs_set_client_pid_def by (rule holds_intros | simp)+

lemma holds_get_client_connect [holds_intros]:
  "L_global \<notin> H \<Longrightarrow> holds H teadfs_get_client_connect H"
  unfolding teadfs_get_client_connect_def by (rule holds_intros | simp)+

lemma holds_set_clinet_connect [holds_intros]:
  "L_global \<notin> H \<Longrightarrow> holds H (teadfs_set_clinet_connect c) H"
  unfolding teadfs_set_clinet_connect_def by (rule holds_intros | simp)+

context neutral_monitor
begin

lemma mon_globals [mon_intros]:
  "mon step H teadfs_get_next_msg_id (\<lambda>_. H)"
  "mon step H teadfs_get_msg_queue (\<lambda>_. H)"
  "mon step H teadfs_get_client_pid (\<lambda>_. H)"
  "mon step H (teadfs_set_client_pid p) (\<lambda>_. H)"
  "mon step H teadfs_get_client_connect (\<lambda>_. H)"
  "mon step H (teadfs_set_clinet_connect c) (\<lambda>_. H)"
  unfolding teadfs_get_next_msg_id_def teadfs_get_msg_queue_def teadfs_get_client_pid_def
    teadfs_set_client_pid_def teadfs_get_client_connect_def teadfs_set_clinet_connect_def
  by (rule mon_intros | simp)+

end

context outer_view
begin

lemma keeps_globals [keeps_intros]:
  "keeps g teadfs_get_next_msg_id"
  "keeps g teadfs_get_msg_queue"
  "keeps g teadfs_get_client_pid"
  "keeps g (teadfs_set_client_pid p)"
  "keeps g teadfs_get_client_connect"
  unfolding teadfs_get_next_msg_id_def teadfs_get_msg_queue_def teadfs_get_client_pid_def
    teadfs_set_client_pid_def teadfs_get_client_connect_def
  by (rule keeps_intros | simp)+

end

section \<open>Message ids\<close>

text \<open>
  A counter that walks round a cycle of \<open>period\<close> values: \<open>idx\<close> numbers the valid values, and
  a step moves to the next number. Iterates below the period are distinct.
\<close>

locale id_counter =
  fixes nxt :: "'i \<Rightarrow> 'i" and valid :: "'i \<Rightarrow> bool" and idx :: "'i \<Rightarrow> nat" and period :: nat
  assumes valid_nxt: "valid (nxt x)"
    and idx_nxt: "valid x \<Longrightarrow> idx (nxt x) = (idx x + 1) mod period"
    and idx_less: "valid x \<Longrightarrow> idx x < period"
begin

lemma valid_iter: "valid x \<Longrightarrow> valid ((nxt ^^ n) x)"
  by (cases n) (simp_all add: valid_nxt)

lemma idx_iter: "valid x \<Longrightarrow> idx ((nxt ^^ n) x) = (idx x + n) mod period"
proof (induction n)
  case 0
  then show ?case by (simp add: idx_less)
next
  case (Suc n)
  then show ?case by (simp add: idx_nxt valid_iter mod_Suc_eq)
qed

lemma iter_distinct:
  assumes "valid x" "i < j" "j < i + period"
  shows "(nxt ^^ i) x \<noteq> (nxt ^^ j) x"
proof
  assume "(nxt ^^ i) x = (nxt ^^ j) x"
  then have "(idx x + i) mod period = (idx x + j) mod period"
    using idx_iter assms(1) by metis
  then have "period dvd (idx x + j) - (idx x + i)"
    using assms(2) by (metis mod_eq_dvd_iff_nat nat_add_left_cancel_le less_imp_le)
  then have "period dvd j - i" by simp
  then show False
    using assms(2,3) by (auto dest: dvd_imp_le)
qed

end

interpretation gid: id_counter next_id "\<lambda>u. u \<noteq> 0" "\<lambda>u. unat u - 1" "2 ^ 64 - 1"
proof
  fix x :: u64
  show "next_id x \<noteq> 0" by (simp add: next_id_def)
  have ub: "unat x < 2 ^ 64" using unsigned_less [of x, where ?'a = nat] by simp
  show "unat x - 1 < 2 ^ 64 - 1" if "x \<noteq> 0"
    using ub that by (simp add: unat_gt_0)
  show "unat (next_id x) - 1 = (unat x - 1 + 1) mod (2 ^ 64 - 1)" if x: "x \<noteq> 0"
  proof (cases "x + 1 = 0")
    case True
    then have "x = - 1" by (simp add: eq_neg_iff_add_eq_0)
    then have "unat x = 2 ^ 64 - 1" by (simp add: unsigned_minus_1_eq_mask mask_eq_exp_minus_1)
    with True x show ?thesis by (simp add: next_id_def)
  next
    case False
    then have "unat (x + 1) = unat x + 1"
      by (metis Suc_eq_plus1 unatSuc add.commute)
    moreover have "unat x \<noteq> 0" using x by (simp add: unat_eq_zero)
    moreover have "unat (x + 1) < 2 ^ 64" using unsigned_less [of "x + 1", where ?'a = nat] by simp
    ultimately show ?thesis using False by (simp add: next_id_def)
  qed
qed

text \<open>The ids that a run of \<open>n\<close> requests draws, in order.\<close>

primrec draw_ids :: "nat \<Rightarrow> ('w, u64 list) op" where
  "draw_ids 0 = ret []"
| "draw_ids (Suc n) = do {
     i \<leftarrow> teadfs_get_next_msg_id;
     is \<leftarrow> draw_ids n;
     ret (i # is)
   }"

lemma draw_ids_iter:
  "fst (run_state (draw_ids n) s) = map (\<lambda>k. (next_id ^^ Suc k) (unique_id s)) [0..<n]"
proof (induction n arbitrary: s)
  case 0
  then show ?case by simp
next
  case (Suc n)
  let ?t = "s\<lparr>unique_id := next_id (unique_id s), trace := trace s @ global_section\<rparr>"
  have step: "run_state teadfs_get_next_msg_id s = (next_id (unique_id s), ?t)"
  proof -
    have "wp teadfs_get_next_msg_id (\<lambda>a t. (a, t) = (next_id (unique_id s), ?t)) s"
      unfolding wp_get_next_msg_id by simp
    then show ?thesis by (simp add: wp_def prod_eq_iff)
  qed
  have "fst (run_state (draw_ids (Suc n)) s) = next_id (unique_id s) # fst (run_state (draw_ids n) ?t)"
    by (simp add: step split_beta)
  also have "\<dots> = map (\<lambda>k. (next_id ^^ Suc k) (unique_id s)) [0..<Suc n]"
    unfolding Suc.IH by (simp add: map_upt_Suc funpow_swap1 del: upt_Suc)
  finally show ?case .
qed

section \<open>Properties\<close>

text \<open>
  C17: message ids are never zero, and any run of up to 2^64 - 1 requests draws
  distinct ids: no two requests that are pending together can be confused.
\<close>

theorem msg_ids_distinct:
  assumes "unique_id s \<noteq> 0" "n \<le> 2 ^ 64 - 1"
  shows "distinct (fst (run_state (draw_ids n) s)) \<and> 0 \<notin> set (fst (run_state (draw_ids n) s))"
proof -
  have "inj_on (\<lambda>k. (next_id ^^ Suc k) (unique_id s)) {0..<n}"
  proof (rule inj_onI)
    fix i j assume i: "i \<in> {0..<n}" and j: "j \<in> {0..<n}"
      and eq: "(next_id ^^ Suc i) (unique_id s) = (next_id ^^ Suc j) (unique_id s)"
    show "i = j"
      using gid.iter_distinct [OF assms(1), of "Suc i" "Suc j"] gid.iter_distinct [OF assms(1), of "Suc j" "Suc i"]
        eq i j assms(2) by (cases i j rule: linorder_cases) auto
  qed
  moreover have "(next_id ^^ Suc k) (unique_id s) \<noteq> 0" for k
    using gid.valid_nxt by simp
  ultimately show ?thesis
    unfolding draw_ids_iter by (auto simp: distinct_map)
qed

theorem msg_ids_distinct_witness:
  "distinct (fst (run_state (draw_ids 3) (boot_st ()))) \<and> 0 \<notin> set (fst (run_state (draw_ids 3) (boot_st ())))"
  using msg_ids_distinct [of "boot_st ()" 3] by (simp add: boot_st_def)

end
