(* ===== verification/Protocol.thy ===== *)
theory Protocol
  imports TPrelude
begin

text \<open>
  The wire format between the kernel module and the user-mode client (\<open>protocol.h\<close>):
  message numbers, result codes and the byte layout of \<open>struct teadfs_packet_info\<close> as the
  x86-64 ABI lays the C declarations out. Packets are byte strings; the union members are
  accessors at their offsets, so members that overlap in C overlap here.
\<close>

section \<open>Constants\<close>

definition PR_MSG_HELLO :: u8 where "PR_MSG_HELLO = 1"
definition PR_MSG_CLOSE :: u8 where "PR_MSG_CLOSE = 2"
definition PR_MSG_USER :: u8 where "PR_MSG_USER = 3"
definition PR_MSG_OPEN :: u8 where "PR_MSG_OPEN = PR_MSG_USER + 1"
definition PR_MSG_RELEASE :: u8 where "PR_MSG_RELEASE = PR_MSG_USER + 2"
definition PR_MSG_READ :: u8 where "PR_MSG_READ = PR_MSG_USER + 3"
definition PR_MSG_WRITE :: u8 where "PR_MSG_WRITE = PR_MSG_USER + 4"
definition PR_MSG_CLEANUP :: u8 where "PR_MSG_CLEANUP = PR_MSG_USER + 5"

lemmas msg_type_defs = PR_MSG_HELLO_def PR_MSG_CLOSE_def PR_MSG_USER_def PR_MSG_OPEN_def
  PR_MSG_RELEASE_def PR_MSG_READ_def PR_MSG_WRITE_def PR_MSG_CLEANUP_def

definition ENCRYPT_FILE_HEADER_SIZE :: int where "ENCRYPT_FILE_HEADER_SIZE = 256"

text \<open>\<open>enum OPEN_FILE_RESULT\<close> and \<open>enum RELEASE_FILE_RESULT\<close>: C enumerators are integers.\<close>

definition OFR_INIT :: int where "OFR_INIT = 1"
definition OFR_PROHIBIT :: int where "OFR_PROHIBIT = 2"
definition OFR_ENCRYPT :: int where "OFR_ENCRYPT = 3"
definition OFR_DECRYPT :: int where "OFR_DECRYPT = 4"
definition RFR_NORMAL :: int where "RFR_NORMAL = 1"
definition RFR_ENCRYPT :: int where "RFR_ENCRYPT = 2"

lemmas ofr_defs = OFR_INIT_def OFR_PROHIBIT_def OFR_ENCRYPT_def OFR_DECRYPT_def

section \<open>C structure layout\<close>

text \<open>
  A structure member is a pair of size and alignment. Members are placed in order, each at the
  next multiple of its alignment; the structure is padded to its own alignment.
\<close>

definition align_up :: "nat \<Rightarrow> nat \<Rightarrow> nat" where
  "align_up n a = (n + a - 1) div a * a"

fun member_offsets :: "nat \<Rightarrow> (nat \<times> nat) list \<Rightarrow> nat list" where
  "member_offsets off [] = []"
| "member_offsets off ((sz, al) # ms) =
     align_up off al # member_offsets (align_up off al + sz) ms"

fun struct_end :: "nat \<Rightarrow> (nat \<times> nat) list \<Rightarrow> nat" where
  "struct_end off [] = off"
| "struct_end off ((sz, al) # ms) = struct_end (align_up off al + sz) ms"

definition struct_align :: "(nat \<times> nat) list \<Rightarrow> nat" where
  "struct_align ms = fold (\<lambda>m a. max (snd m) a) ms 1"

definition struct_size :: "(nat \<times> nat) list \<Rightarrow> nat" where
  "struct_size ms = align_up (struct_end 0 ms) (struct_align ms)"

text \<open>A nested structure, or the union, as a member of another.\<close>

definition as_member :: "(nat \<times> nat) list \<Rightarrow> nat \<times> nat" where
  "as_member ms = (struct_size ms, struct_align ms)"

definition union_member :: "(nat \<times> nat) list list \<Rightarrow> nat \<times> nat" where
  "union_member alts =
     (let al = fold (\<lambda>ms a. max (struct_align ms) a) alts 1
      in (align_up (fold (\<lambda>ms n. max (struct_size ms) n) alts 0) al, al))"

text \<open>The declarations of \<open>protocol.h\<close>, member by member.\<close>

definition binary_decl :: "(nat \<times> nat) list" where
  "binary_decl = [(4, 4), (4, 4)]"

definition header_decl :: "(nat \<times> nat) list" where
  "header_decl = [(4, 4), (8, 8), (1, 1), (1, 1), (4, 4), (4, 4), (4, 4)]"

definition hello_decl :: "(nat \<times> nat) list" where "hello_decl = [(4, 4)]"
definition open_decl :: "(nat \<times> nat) list" where "open_decl = [(8, 8), as_member binary_decl]"
definition release_decl :: "(nat \<times> nat) list" where "release_decl = [(8, 8), as_member binary_decl]"
definition read_decl :: "(nat \<times> nat) list" where
  "read_decl = [(4, 4), (8, 8), as_member binary_decl]"
definition write_decl :: "(nat \<times> nat) list" where
  "write_decl = [(4, 4), (8, 8), as_member binary_decl]"
definition delete_decl :: "(nat \<times> nat) list" where "delete_decl = [as_member binary_decl]"
definition code_decl :: "(nat \<times> nat) list" where "code_decl = [(4, 4)]"
definition cleanup_decl :: "(nat \<times> nat) list" where "cleanup_decl = [(8, 8)]"

definition packet_decl :: "(nat \<times> nat) list" where
  "packet_decl = [as_member header_decl,
     union_member [hello_decl, open_decl, release_decl, read_decl, write_decl, delete_decl,
       code_decl, cleanup_decl]]"

section \<open>Packets as bytes\<close>

definition sizeof_packet :: nat where "sizeof_packet = 56"

text \<open>Offsets of the members in a packet buffer.\<close>

definition O_size :: nat where "O_size = 0"
definition O_msg_id :: nat where "O_msg_id = 8"
definition O_msg_type :: nat where "O_msg_type = 16"
definition O_initiator :: nat where "O_initiator = 17"
definition O_pid :: nat where "O_pid = 20"
definition O_uid :: nat where "O_uid = 24"
definition O_gid :: nat where "O_gid = 28"
definition O_hello_pid :: nat where "O_hello_pid = 32"
definition O_open_file_id :: nat where "O_open_file_id = 32"
definition O_open_path_size :: nat where "O_open_path_size = 40"
definition O_open_path_offset :: nat where "O_open_path_offset = 44"
definition O_release_file_id :: nat where "O_release_file_id = 32"
definition O_release_path_size :: nat where "O_release_path_size = 40"
definition O_release_path_offset :: nat where "O_release_path_offset = 44"
definition O_read_code :: nat where "O_read_code = 32"
definition O_read_offset :: nat where "O_read_offset = 40"
definition O_read_data_size :: nat where "O_read_data_size = 48"
definition O_read_data_offset :: nat where "O_read_data_offset = 52"
definition O_write_code :: nat where "O_write_code = 32"
definition O_write_offset :: nat where "O_write_offset = 40"
definition O_write_data_size :: nat where "O_write_data_size = 48"
definition O_write_data_offset :: nat where "O_write_data_offset = 52"
definition O_error_code :: nat where "O_error_code = 32"
definition O_cleanup_file_id :: nat where "O_cleanup_file_id = 32"

lemmas layout_defs = sizeof_packet_def O_size_def O_msg_id_def O_msg_type_def O_initiator_def
  O_pid_def O_uid_def O_gid_def O_hello_pid_def O_open_file_id_def O_open_path_size_def
  O_open_path_offset_def O_release_file_id_def O_release_path_size_def O_release_path_offset_def
  O_read_code_def O_read_offset_def O_read_data_size_def O_read_data_offset_def O_write_code_def
  O_write_offset_def O_write_data_size_def O_write_data_offset_def O_error_code_def
  O_cleanup_file_id_def

text \<open>C \<open>int\<close> members, two's complement.\<close>

definition enc_int :: "int \<Rightarrow> bytes" where "enc_int i = enc_u32 (word_of_int i)"
definition dec_int :: "bytes \<Rightarrow> int" where "dec_int bs = sint (dec_u32 bs)"

record teadfs_packet_header =
  h_size :: u32
  h_msg_id :: u64
  h_msg_type :: u8
  h_initiator :: u8
  h_pid :: u32
  h_uid :: u32
  h_gid :: u32

definition put_header :: "teadfs_packet_header \<Rightarrow> bytes \<Rightarrow> bytes" where
  "put_header h b =
     put_at O_gid (enc_u32 (h_gid h)) (put_at O_uid (enc_u32 (h_uid h))
       (put_at O_pid (enc_u32 (h_pid h)) (put_at O_initiator (enc_u8 (h_initiator h))
         (put_at O_msg_type (enc_u8 (h_msg_type h)) (put_at O_msg_id (enc_u64 (h_msg_id h))
           (put_at O_size (enc_u32 (h_size h)) b))))))"

definition get_header :: "bytes \<Rightarrow> teadfs_packet_header" where
  "get_header b = \<lparr>
     h_size = dec_u32 (get_at O_size 4 b),
     h_msg_id = dec_u64 (get_at O_msg_id 8 b),
     h_msg_type = dec_u8 (get_at O_msg_type 1 b),
     h_initiator = dec_u8 (get_at O_initiator 1 b),
     h_pid = dec_u32 (get_at O_pid 4 b),
     h_uid = dec_u32 (get_at O_uid 4 b),
     h_gid = dec_u32 (get_at O_gid 4 b)\<rparr>"

section \<open>Lemmas\<close>

lemma align_up_dvd: "a dvd align_up n a"
  by (simp add: align_up_def)

lemma align_up_ge: "0 < a \<Longrightarrow> n \<le> align_up n a"
proof -
  assume a: "0 < a"
  have "n + a - 1 = (n + a - 1) div a * a + (n + a - 1) mod a" by simp
  moreover have "(n + a - 1) mod a \<le> a - 1" using a by (simp add: less_Suc_eq_le [symmetric])
  ultimately show ?thesis unfolding align_up_def using a by linarith
qed

lemma dec_enc_int: "- (2 ^ 31) \<le> i \<Longrightarrow> i < 2 ^ 31 \<Longrightarrow> dec_int (enc_int i) = i"
  by (simp add: dec_int_def enc_int_def sint_uint signed_take_bit_int_eq_self
      take_bit_signed_take_bit signed_take_bit_take_bit uint_word_of_int_eq)

lemma length_enc_int [simp]: "length (enc_int i) = 4"
  by (simp add: enc_int_def)

lemma length_put_header [simp]:
  "sizeof_packet \<le> length b \<Longrightarrow> length (put_header h b) = length b"
  by (simp add: put_header_def layout_defs)

lemma get_put_header:
  "sizeof_packet \<le> length b \<Longrightarrow> get_header (put_header h b) = h"
  by (simp add: get_header_def put_header_def layout_defs buf_simps)

text \<open>Writing a header leaves the payload of the packet alone.\<close>

lemma put_header_payload:
  "sizeof_packet \<le> length b \<Longrightarrow> 32 \<le> off \<Longrightarrow> get_at off n (put_header h b) = get_at off n b"
  by (simp add: put_header_def layout_defs buf_simps)

section \<open>Layout and codec\<close>

text \<open>
  The offsets at which the module and the client read and write packet members
  are those of the C declarations in \<open>protocol.h\<close> under the x86-64 ABI, including the members of
  the union, and a packet is 56 bytes.
\<close>

lemma packet_layout:
  "struct_size packet_decl = sizeof_packet \<and>
   member_offsets 0 header_decl = [O_size, O_msg_id, O_msg_type, O_initiator, O_pid, O_uid, O_gid] \<and>
   member_offsets 0 packet_decl = [0, O_hello_pid] \<and>
   map ((+) O_open_file_id) (member_offsets 0 open_decl) = [O_open_file_id, O_open_path_size] \<and>
   map ((+) O_release_file_id) (member_offsets 0 release_decl) = [O_release_file_id, O_release_path_size] \<and>
   map ((+) O_read_code) (member_offsets 0 read_decl) = [O_read_code, O_read_offset, O_read_data_size] \<and>
   map ((+) O_write_code) (member_offsets 0 write_decl) = [O_write_code, O_write_offset, O_write_data_size] \<and>
   map ((+) O_open_path_size) (member_offsets 0 binary_decl) = [O_open_path_size, O_open_path_offset] \<and>
   map ((+) O_read_data_size) (member_offsets 0 binary_decl) = [O_read_data_size, O_read_data_offset]"
  by (simp add: layout_defs packet_decl_def header_decl_def hello_decl_def open_decl_def release_decl_def
      read_decl_def write_decl_def delete_decl_def code_decl_def cleanup_decl_def binary_decl_def
      struct_size_def struct_align_def as_member_def union_member_def align_up_def)

text \<open>
  A header written into a packet buffer is read back unchanged, whatever the
  buffer held, and writing it changes no byte of the message behind it.
\<close>

lemma header_roundtrip:
  assumes "sizeof_packet \<le> length b"
  shows "get_header (put_header h b) = h \<and> drop O_hello_pid (put_header h b) = drop O_hello_pid b"
proof -
  have "get_at O_hello_pid (length b) (put_header h b) = get_at O_hello_pid (length b) b"
    using put_header_payload [OF assms, of O_hello_pid] by (simp add: layout_defs)
  then show ?thesis
    using get_put_header [OF assms] assms by (simp add: get_at_def)
qed

end
