(* ===== verification/Netlink.thy ===== *)
theory Netlink
  imports Global_Param Protocol
begin

text \<open>
  The netlink channel (\<open>netlink.c\<close>): sending a packet to the client, and receiving one, which
  either is a request of the client (hello, close) or the answer to a pending request, stored
  in the first queued context with its message id.
\<close>

section \<open>Messages\<close>

text \<open>
  A received \<open>sk_buff\<close> is the byte string of its data: a 16-byte \<open>struct nlmsghdr\<close> (length,
  type, flags, sequence number, port) and the packet.
\<close>

definition NLMSG_HDRLEN :: nat where "NLMSG_HDRLEN = 16"

definition nlmsg_len_field :: "bytes \<Rightarrow> u32" where
  "nlmsg_len_field skb = dec_u32 (get_at 0 4 skb)"

definition nlmsg_data :: "bytes \<Rightarrow> bytes" where
  "nlmsg_data skb = drop NLMSG_HDRLEN skb"

text \<open>\<open>nlmsg_len(nlh)\<close> stored in a \<open>size_t\<close>: the subtraction may go below zero and wrap.\<close>

definition nlmsg_payload_len :: "bytes \<Rightarrow> nat" where
  "nlmsg_payload_len skb = unat (of_nat (unat (nlmsg_len_field skb)) - of_nat NLMSG_HDRLEN :: u64)"

definition nlmsghdr_bytes :: "nat \<Rightarrow> int \<Rightarrow> bytes" where
  "nlmsghdr_bytes len pid =
     enc_u32 (of_nat len) @ [0, 0] @ [0, 0] @ enc_u32 0 @ enc_u32 (word_of_int pid)"

definition NETLINK_TEADFS :: nat where "NETLINK_TEADFS = 25"

section \<open>Sending\<close>

definition teadfs_send_to_user :: "'w kernel \<Rightarrow> bytes \<Rightarrow> nat \<Rightarrow> ('w, int) op" where
  "teadfs_send_to_user K data n = do {
     skb \<leftarrow> call_rv K (K_net (K_nlmsg_new n));
     if skb = 0 then ret 0
     else do {
       nlh \<leftarrow> call_rv K (K_net (K_nlmsg_put skb n));
       (if nlh = 0 then raise_fault (Bad_access nlh) else ret ());
       pid \<leftarrow> teadfs_get_client_pid;
       let msg = nlmsghdr_bytes (NLMSG_HDRLEN + n) pid @ take n data;
       emit (K_lock L_user_proc);
       dst \<leftarrow> teadfs_get_client_pid;
       rc \<leftarrow> call_rv K (K_net (K_netlink_unicast skb dst msg));
       emit (K_unlock L_user_proc);
       ret rc
     }
   }"

section \<open>Receiving\<close>

text \<open>A local structure that is not initialised holds whatever the stack held.\<close>

definition stack_bytes :: "'w kernel \<Rightarrow> nat \<Rightarrow> ('w, bytes) op" where
  "stack_bytes K n = do {
     r \<leftarrow> call K (K_indeterminate n);
     ret (take n (rdata r @ replicate n 0))
   }"

text \<open>Reading a packet field of a message that is too short reads past the buffer.\<close>

definition packet_field :: "bytes \<Rightarrow> nat \<Rightarrow> nat \<Rightarrow> ('w, bytes) op" where
  "packet_field pkt off n =
     (if off + n \<le> length pkt then ret (get_at off n pkt)
      else do { raise_fault (Out_of_bounds 0); ret (replicate n 0) })"

definition teadfs_user_request_kernel :: "'w kernel \<Rightarrow> bytes \<Rightarrow> ('w, unit) op" where
  "teadfs_user_request_kernel K packet_info = do {
     response0 \<leftarrow> stack_bytes K sizeof_packet;
     ty \<leftarrow> packet_field packet_info O_msg_type 1;
     if dec_u8 ty = PR_MSG_HELLO then do {
       hdr \<leftarrow> packet_field packet_info 0 32;
       let response1 = put_at 0 hdr response0;
       let response2 = put_at O_size (enc_u32 (of_nat sizeof_packet)) response1;
       let response3 = put_at O_error_code (enc_int 0) response2;
       pid \<leftarrow> packet_field packet_info O_hello_pid 4;
       teadfs_set_client_pid (dec_int pid);
       teadfs_send_to_user K response3 (unat (dec_u32 (get_at O_size 4 response3)));
       ret ()
     }
     else if dec_u8 ty = PR_MSG_CLOSE then teadfs_set_client_pid 0
     else ret ()
   }"

text \<open>The answer to a pending request, stored in its context \<open>c\<close>.\<close>

definition store_response :: "'w kernel \<Rightarrow> bytes \<Rightarrow> ptr \<Rightarrow> ('w, unit) op" where
  "store_response K skb c = do {
     emit (K_lock (L_ctx c));
     store ctx_of B_ctx (\<lambda>x. x\<lparr>ctx_state := TEADFS_MSG_CTX_STATE_DONE\<rparr>) c;
     let n = unat (nlmsg_len_field skb);
     p \<leftarrow> teadfs_zalloc K n (B_raw (replicate n 0));
     store ctx_of B_ctx (\<lambda>x. x\<lparr>response_msg := p\<rparr>) c;
     (if p = 0 then ret ()
      else do {
        store ctx_of B_ctx (\<lambda>x. x\<lparr>response_msg_size := nlmsg_payload_len skb\<rparr>) c;
        data \<leftarrow> packet_field (nlmsg_data skb) 0 (nlmsg_payload_len skb);
        poke p 0 data
      });
     call K (K_net (K_wake_up c));
     emit (K_unlock (L_ctx c))
   }"

text \<open>\<open>list_for_each_entry\<close> over the pending requests, up to the first match.\<close>

fun deliver :: "'w kernel \<Rightarrow> bytes \<Rightarrow> ptr list \<Rightarrow> ('w, unit) op" where
  "deliver K skb [] = ret ()"
| "deliver K skb (c # cs) = do {
     id \<leftarrow> packet_field (nlmsg_data skb) O_msg_id 8;
     ctx \<leftarrow> load ctx_of zero_msg_ctx c;
     if dec_u64 id = msg_id ctx then store_response K skb c
     else deliver K skb cs
   }"

definition teadfs_netlink_receive :: "'w kernel \<Rightarrow> bytes \<Rightarrow> ('w, unit) op" where
  "teadfs_netlink_receive K skb = do {
     ini \<leftarrow> packet_field (nlmsg_data skb) O_initiator 1;
     if dec_u8 ini = 1 then teadfs_user_request_kernel K (nlmsg_data skb)
     else do {
       emit (K_lock L_queue);
       q \<leftarrow> teadfs_get_msg_queue;
       deliver K skb q;
       emit (K_unlock L_queue)
     }
   }"

text \<open>The messages that arrive while a requester sleeps, in order.\<close>

fun receive_all :: "'w kernel \<Rightarrow> bytes list \<Rightarrow> ('w, unit) op" where
  "receive_all K [] = ret ()"
| "receive_all K (m # ms) = do { teadfs_netlink_receive K m; receive_all K ms }"

section \<open>Starting and stopping\<close>

definition teadfs_start_netlink :: "'w kernel \<Rightarrow> ('w, ptr \<times> int) op" where
  "teadfs_start_netlink K = do {
     nlfd \<leftarrow> call_rv K (K_net (K_netlink_kernel_create NETLINK_TEADFS));
     if IS_ERR nlfd then ret (nlfd, - 1)
     else ret (nlfd, 0)
   }"

definition teadfs_release_netlink :: "'w kernel \<Rightarrow> ptr \<Rightarrow> ('w, unit) op" where
  "teadfs_release_netlink K nlfd = do {
     call K (K_net (K_netlink_kernel_release nlfd));
     ret ()
   }"

section \<open>Lemmas\<close>

text \<open>
  What the module relies on from the kernel's netlink code: \<open>nlmsg_put\<close> succeeds on a buffer
  that \<open>nlmsg_new\<close> made for the same payload size.
\<close>

definition nlmsg_put_fits :: "'w kernel \<Rightarrow> bool" where
  "nlmsg_put_fits K \<longleftrightarrow> (\<forall>skb n w. rv (fst (K (K_net (K_nlmsg_put skb n)) w)) \<noteq> 0)"

text \<open>A well-formed message: the announced length is present and holds a whole packet.\<close>

definition skb_ok :: "bytes \<Rightarrow> bool" where
  "skb_ok skb \<longleftrightarrow> NLMSG_HDRLEN + sizeof_packet \<le> unat (nlmsg_len_field skb) \<and>
     unat (nlmsg_len_field skb) \<le> length skb"

definition skb_msg_id :: "bytes \<Rightarrow> u64" where
  "skb_msg_id skb = h_msg_id (get_header (nlmsg_data skb))"

text \<open>A stored answer: a live block that holds at least a packet, with the request's own id.\<close>

definition answered :: "'w st \<Rightarrow> teadfs_msg_ctx \<Rightarrow> bool" where
  "answered s x \<longleftrightarrow> response_msg x \<notin> set (msg_ctx_queue s) \<and>
     (\<exists>b. heap s (response_msg x) = Some (B_raw b) \<and> response_msg_size x \<le> length b \<and>
        sizeof_packet \<le> response_msg_size x \<and> h_msg_id (get_header b) = msg_id x)"

definition resp :: "'w st \<Rightarrow> ptr \<Rightarrow> ptr" where
  "resp s c = (case ctx_of (heap s c) of None \<Rightarrow> 0 | Some x \<Rightarrow> response_msg x)"

text \<open>
  The channel invariant: every queued context is live, has no answer or a good one, and no two
  contexts share an answer.
\<close>

definition chan_ok :: "'w st \<Rightarrow> bool" where
  "chan_ok s \<longleftrightarrow> heap_ok s \<and>
     (\<forall>c \<in> set (msg_ctx_queue s). \<exists>x. heap s c = Some (B_ctx x) \<and> (response_msg x = 0 \<or> answered s x)) \<and>
     (\<forall>c \<in> set (msg_ctx_queue s). \<forall>d \<in> set (msg_ctx_queue s). c \<noteq> d \<longrightarrow> resp s c = resp s d \<longrightarrow> resp s c = 0)"

lemma nlmsg_payload_len_ok:
  assumes "skb_ok skb"
  shows "nlmsg_payload_len skb = unat (nlmsg_len_field skb) - NLMSG_HDRLEN"
proof -
  have le: "16 \<le> unat (nlmsg_len_field skb)" and lt: "unat (nlmsg_len_field skb) < 2 ^ 32"
    using assms unsigned_less [of "nlmsg_len_field skb", where ?'a = nat]
    by (simp_all add: skb_ok_def NLMSG_HDRLEN_def)
  have "of_nat (unat (nlmsg_len_field skb)) - of_nat NLMSG_HDRLEN =
      (of_nat (unat (nlmsg_len_field skb) - 16) :: u64)"
    using le by (simp add: NLMSG_HDRLEN_def of_nat_diff)
  then show ?thesis
    using lt by (simp add: nlmsg_payload_len_def unat_of_nat NLMSG_HDRLEN_def)
qed

lemma skb_ok_lengths:
  assumes "skb_ok skb"
  shows "nlmsg_payload_len skb \<le> length (nlmsg_data skb)"
    and "nlmsg_payload_len skb \<le> unat (nlmsg_len_field skb)"
    and "sizeof_packet \<le> nlmsg_payload_len skb"
    and "sizeof_packet \<le> length (nlmsg_data skb)"
  using assms by (auto simp: nlmsg_payload_len_ok nlmsg_data_def skb_ok_def)

lemma wp_packet_field [wp_simps]:
  "off + n \<le> length pkt \<Longrightarrow> wp (packet_field pkt off n) Q s = Q (get_at off n pkt) s"
  by (simp add: packet_field_def wp_simps)

lemma wp_send_to_userI:
  assumes "nlmsg_put_fits K"
    and "\<And>rc t. frame s t \<Longrightarrow> heap t = heap s \<Longrightarrow> brk t = brk s \<Longrightarrow> client_pid t = client_pid s \<Longrightarrow> Q rc t"
  shows "wp (teadfs_send_to_user K data n) Q s"
  using assms(1) unfolding teadfs_send_to_user_def call_rv_def nlmsg_put_fits_def
  by (auto simp: wp_simps wp_call frame_def intro!: assms(2))

lemma wp_user_requestI:
  assumes "nlmsg_put_fits K" "sizeof_packet \<le> length pkt"
    and "\<And>t. frame s t \<Longrightarrow> heap t = heap s \<Longrightarrow> brk t = brk s \<Longrightarrow> Q () t"
  shows "wp (teadfs_user_request_kernel K pkt) Q s"
  using assms(1,2) unfolding teadfs_user_request_kernel_def stack_bytes_def
  by (auto simp: wp_simps layout_defs frame_def intro!: wp_callI wp_send_to_userI assms(3))

lemma heap_ok_neq_brk: "heap_ok s \<Longrightarrow> heap s c = Some b \<Longrightarrow> c \<noteq> brk s \<and> c \<noteq> 0"
  by auto

text \<open>
  The two outcomes of storing an answer: no memory for it (the context is done without one), or
  a fresh block that starts with the packet.
\<close>

definition response_bytes :: "bytes \<Rightarrow> bytes" where
  "response_bytes skb =
     put_at 0 (get_at 0 (nlmsg_payload_len skb) (nlmsg_data skb))
       (replicate (unat (nlmsg_len_field skb)) 0)"

lemma wp_store_responseI:
  assumes s: "heap_ok s" "heap s c = Some (B_ctx x)" "skb_ok skb"
    and oom: "\<And>t. frame s t \<Longrightarrow> brk t = brk s \<Longrightarrow>
        heap t = (heap s)(c \<mapsto> B_ctx (x\<lparr>ctx_state := TEADFS_MSG_CTX_STATE_DONE, response_msg := 0\<rparr>)) \<Longrightarrow> Q () t"
    and got: "\<And>t. frame s t \<Longrightarrow> brk t = brk s + 1 \<Longrightarrow>
        heap t = (heap s)(c \<mapsto> B_ctx (x\<lparr>ctx_state := TEADFS_MSG_CTX_STATE_DONE, response_msg := brk s,
            response_msg_size := nlmsg_payload_len skb\<rparr>), brk s \<mapsto> B_raw (response_bytes skb)) \<Longrightarrow> Q () t"
  shows "wp (store_response K skb c) Q s"
proof -
  note len = skb_ok_lengths [OF s(3)]
  have c: "c \<noteq> brk s" "brk s \<noteq> c" "c \<noteq> 0" "brk s \<noteq> 0"
    using s(1,2) heap_ok_neq_brk by (auto simp: heap_ok_def)
  show ?thesis
    unfolding store_response_def wp_simps
    apply (simp add: s(2) wp_simps)
    apply (rule wp_zallocI)
     apply (simp add: wp_simps)
     apply (rule wp_callI, rule oom; simp add: frame_def fun_eq_iff)
    apply (simp add: wp_simps c len)
    apply (rule wp_callI, rule got; use c in \<open>simp add: frame_def fun_eq_iff response_bytes_def\<close>)
    done
qed

lemma response_bytes_ok:
  assumes "skb_ok skb"
  shows "length (response_bytes skb) = unat (nlmsg_len_field skb)"
    and "sizeof_packet \<le> nlmsg_payload_len skb"
    and "nlmsg_payload_len skb \<le> length (response_bytes skb)"
    and "take (nlmsg_payload_len skb) (response_bytes skb) = take (nlmsg_payload_len skb) (nlmsg_data skb)"
proof -
  note len = skb_ok_lengths [OF assms]
  show "length (response_bytes skb) = unat (nlmsg_len_field skb)"
    and "take (nlmsg_payload_len skb) (response_bytes skb) = take (nlmsg_payload_len skb) (nlmsg_data skb)"
    using len by (simp_all add: response_bytes_def put_at_def get_at_def)
  then show "sizeof_packet \<le> nlmsg_payload_len skb"
    "nlmsg_payload_len skb \<le> length (response_bytes skb)"
    using len by simp_all
qed

lemma get_at_take: "off + n \<le> m \<Longrightarrow> get_at off n (take m xs) = get_at off n xs"
  by (simp add: get_at_def drop_take min_def)

lemma get_header_take: "sizeof_packet \<le> m \<Longrightarrow> get_header (take m b) = get_header b"
  by (simp add: get_header_def layout_defs get_at_take)

lemma response_header:
  assumes "skb_ok skb"
  shows "h_msg_id (get_header (response_bytes skb)) = skb_msg_id skb"
  using response_bytes_ok(2,4) [OF assms] get_header_take unfolding skb_msg_id_def by metis

text \<open>
  Delivery: either no pending request has the message's id and nothing changes, or exactly one
  context with that id is completed.
\<close>

lemma wp_deliverI:
  assumes s: "heap_ok s" "\<forall>c \<in> set cs. \<exists>x. heap s c = Some (B_ctx x)" "skb_ok skb"
    and none: "(\<And>c x. c \<in> set cs \<Longrightarrow> heap s c = Some (B_ctx x) \<Longrightarrow> msg_id x \<noteq> skb_msg_id skb) \<Longrightarrow> Q () s"
    and hit: "\<And>c x. c \<in> set cs \<Longrightarrow> heap s c = Some (B_ctx x) \<Longrightarrow> msg_id x = skb_msg_id skb \<Longrightarrow>
       wp (store_response K skb c) Q s"
  shows "wp (deliver K skb cs) Q s"
  using s(2) none hit
proof (induction cs)
  case Nil
  then show ?case by (simp add: wp_simps)
next
  case (Cons c cs)
  obtain x where x: "heap s c = Some (B_ctx x)" using Cons.prems(1) by auto
  have len: "O_msg_id + 8 \<le> length (nlmsg_data skb)"
    using skb_ok_lengths(4) [OF s(3)] by (simp add: layout_defs)
  have id: "dec_u64 (get_at O_msg_id 8 (nlmsg_data skb)) = skb_msg_id skb"
    by (simp add: skb_msg_id_def get_header_def)
  show ?case
  proof (cases "msg_id x = skb_msg_id skb")
    case True
    then have "wp (store_response K skb c) Q s" using Cons.prems(3) x by simp
    then show ?thesis using True x len id by (simp add: wp_simps)
  next
    case False
    have "wp (deliver K skb cs) Q s"
    proof (rule Cons.IH)
      assume n: "\<And>c' x'. c' \<in> set cs \<Longrightarrow> heap s c' = Some (B_ctx x') \<Longrightarrow> msg_id x' \<noteq> skb_msg_id skb"
      show "Q () s"
        by (rule Cons.prems(2)) (use n False x in auto)
    qed (use Cons.prems in auto)
    then show ?thesis using False x len id by (simp add: wp_simps)
  qed
qed

lemma wp_receiveI:
  assumes "nlmsg_put_fits K" "chan_ok s" "skb_ok skb"
    and none: "\<And>t. frame s t \<Longrightarrow> heap t = heap s \<Longrightarrow> brk t = brk s \<Longrightarrow> Q () t"
    and oom: "\<And>t c x. frame s t \<Longrightarrow> c \<in> set (msg_ctx_queue s) \<Longrightarrow> heap s c = Some (B_ctx x) \<Longrightarrow>
        msg_id x = skb_msg_id skb \<Longrightarrow> brk t = brk s \<Longrightarrow>
        heap t = (heap s)(c \<mapsto> B_ctx (x\<lparr>ctx_state := TEADFS_MSG_CTX_STATE_DONE, response_msg := 0\<rparr>)) \<Longrightarrow> Q () t"
    and got: "\<And>t c x. frame s t \<Longrightarrow> c \<in> set (msg_ctx_queue s) \<Longrightarrow> heap s c = Some (B_ctx x) \<Longrightarrow>
        msg_id x = skb_msg_id skb \<Longrightarrow> brk t = brk s + 1 \<Longrightarrow>
        heap t = (heap s)(c \<mapsto> B_ctx (x\<lparr>ctx_state := TEADFS_MSG_CTX_STATE_DONE, response_msg := brk s,
            response_msg_size := nlmsg_payload_len skb\<rparr>), brk s \<mapsto> B_raw (response_bytes skb)) \<Longrightarrow> Q () t"
  shows "wp (teadfs_netlink_receive K skb) Q s"
proof -
  note len = skb_ok_lengths(4) [OF assms(3)]
  have q: "heap_ok s" "\<forall>c \<in> set (msg_ctx_queue s). \<exists>x. heap s c = Some (B_ctx x)"
    using assms(2) by (auto simp: chan_ok_def)
  have "wp (deliver K skb (msg_ctx_queue s)) (\<lambda>_ t. Q () (t\<lparr>trace := trace t @ [(K_unlock L_queue, 0)]\<rparr>))
      (s\<lparr>trace := trace s @ [(K_lock L_queue, 0)]\<rparr>)"
  proof (rule wp_deliverI)
    fix c x assume c: "c \<in> set (msg_ctx_queue s)"
      "heap (s\<lparr>trace := trace s @ [(K_lock L_queue, 0)]\<rparr>) c = Some (B_ctx x)"
      "msg_id x = skb_msg_id skb"
    show "wp (store_response K skb c) (\<lambda>_ t. Q () (t\<lparr>trace := trace t @ [(K_unlock L_queue, 0)]\<rparr>))
        (s\<lparr>trace := trace s @ [(K_lock L_queue, 0)]\<rparr>)"
      apply (rule wp_store_responseI [where x = x])
          apply (use q in \<open>simp add: heap_ok_def\<close>)
         apply (use c in simp)
        apply (rule assms(3))
       apply (rule oom [of _ c x]; use c in \<open>simp add: frame_def\<close>)
      apply (rule got [of _ c x]; use c in \<open>simp add: frame_def\<close>)
      done
  next
    show "Q () (s\<lparr>trace := trace s @ [(K_lock L_queue, 0)],
        trace := trace (s\<lparr>trace := trace s @ [(K_lock L_queue, 0)]\<rparr>) @ [(K_unlock L_queue, 0)]\<rparr>)"
      by (rule none) (simp_all add: frame_def)
  qed (use q assms(3) in \<open>simp_all add: heap_ok_def\<close>)
  moreover have "wp (teadfs_user_request_kernel K (nlmsg_data skb)) Q s"
    using assms(1) len by (rule wp_user_requestI) (simp add: none)
  ultimately show ?thesis
    using len unfolding teadfs_netlink_receive_def by (simp add: wp_simps layout_defs)
qed

text \<open>
  What any sequence of received messages may do to the module: pending contexts keep their
  identity and are completed only with answers of their own id, all other blocks that existed
  before stay as they are.
\<close>

definition ctx_kept :: "ptr \<Rightarrow> teadfs_msg_ctx \<Rightarrow> teadfs_msg_ctx \<Rightarrow> bool" where
  "ctx_kept a x y \<longleftrightarrow> msg_id y = msg_id x \<and> request_msg y = request_msg x \<and>
     request_msg_size y = request_msg_size x \<and>
     (response_msg y = 0 \<or> response_msg y = response_msg x \<or> a \<le> response_msg y)"

definition delivered :: "'w st \<Rightarrow> 'w st \<Rightarrow> bool" where
  "delivered s t \<longleftrightarrow> frame s t \<and> chan_ok t \<and> brk s \<le> brk t \<and>
     (\<forall>p. p < brk s \<longrightarrow> p \<notin> set (msg_ctx_queue s) \<longrightarrow> heap t p = heap s p) \<and>
     (\<forall>c x. c \<in> set (msg_ctx_queue s) \<longrightarrow> heap s c = Some (B_ctx x) \<longrightarrow>
        (\<exists>y. heap t c = Some (B_ctx y) \<and> ctx_kept (brk s) x y))"

lemma chan_okD:
  "chan_ok s \<Longrightarrow> c \<in> set (msg_ctx_queue s) \<Longrightarrow>
     \<exists>x. heap s c = Some (B_ctx x) \<and> (response_msg x = 0 \<or> answered s x)"
  by (simp add: chan_ok_def)

lemma chan_ok_heap: "chan_ok s \<Longrightarrow> heap_ok s"
  by (simp add: chan_ok_def)

lemma delivered_refl: "chan_ok s \<Longrightarrow> delivered s s"
  by (auto simp: delivered_def ctx_kept_def)

lemma delivered_trans:
  assumes "delivered s t" "delivered t u"
  shows "delivered s u"
proof -
  have q: "msg_ctx_queue t = msg_ctx_queue s" and le: "brk s \<le> brk t"
    using assms(1) by (auto simp: delivered_def frame_def)
  have "\<exists>z. heap u c = Some (B_ctx z) \<and> ctx_kept (brk s) x z"
    if c: "c \<in> set (msg_ctx_queue s)" "heap s c = Some (B_ctx x)" for c x
  proof -
    obtain y where "heap t c = Some (B_ctx y)" "ctx_kept (brk s) x y"
      using assms(1) c unfolding delivered_def by blast
    moreover then obtain z where "heap u c = Some (B_ctx z)" "ctx_kept (brk t) y z"
      using assms(2) c q unfolding delivered_def by metis
    ultimately show ?thesis using le by (auto simp: ctx_kept_def)
  qed
  moreover have "heap u p = heap s p" if "p < brk s" "p \<notin> set (msg_ctx_queue s)" for p
    using assms that q le unfolding delivered_def by (metis order_less_le_trans)
  ultimately show ?thesis
    using assms le by (auto simp: delivered_def intro: frame_trans)
qed

text \<open>One step of delivery keeps the channel invariant: a completed context, another context.\<close>

lemma answered_other:
  assumes "chan_ok s" "frame s t" "answered s x" "c \<in> set (msg_ctx_queue s)"
    and "\<And>p. p \<noteq> c \<Longrightarrow> heap s p \<noteq> None \<Longrightarrow> heap t p = heap s p"
  shows "answered t x"
proof -
  obtain b where b: "heap s (response_msg x) = Some (B_raw b)" "response_msg_size x \<le> length b"
      "sizeof_packet \<le> response_msg_size x" "h_msg_id (get_header b) = msg_id x"
    and r: "response_msg x \<notin> set (msg_ctx_queue s)"
    using assms(3) by (auto simp: answered_def)
  then have "heap t (response_msg x) = Some (B_raw b)"
    using assms(4) by (metis assms(5) option.distinct(1))
  then show ?thesis using assms(2) b r by (simp add: answered_def frame_def)
qed

lemma delivered_step:
  assumes s: "chan_ok s" "frame s t" "c \<in> set (msg_ctx_queue s)" "heap s c = Some (B_ctx x)"
    and t: "heap t c = Some (B_ctx y)" "ctx_kept (brk s) x y"
      "response_msg y = 0 \<or> answered t y \<and> brk s \<le> response_msg y" "heap_ok t" "brk s \<le> brk t"
    and other: "\<And>p. p \<noteq> c \<Longrightarrow> p < brk s \<Longrightarrow> heap t p = heap s p"
  shows "delivered s t"
proof -
  have live: "p < brk s" if "heap s p \<noteq> None" for p
    using s(1) that by (auto simp: chan_ok_def heap_ok_def)
  have "\<exists>x'. heap t d = Some (B_ctx x') \<and> (response_msg x' = 0 \<or> answered t x')"
    if d: "d \<in> set (msg_ctx_queue s)" for d
  proof (cases "d = c")
    case True
    then show ?thesis using t by blast
  next
    case False
    obtain x' where x': "heap s d = Some (B_ctx x')" "response_msg x' = 0 \<or> answered s x'"
      using chan_okD [OF s(1) d] by blast
    then have "heap t d = Some (B_ctx x')" using other [OF False] live by simp
    moreover have "response_msg x' = 0 \<or> answered t x'"
      using x'(2) answered_other [OF s(1,2) _ s(3)] other live by blast
    ultimately show ?thesis by blast
  qed
  moreover have "resp t d = 0"
    if de: "d \<in> set (msg_ctx_queue s)" "e \<in> set (msg_ctx_queue s)" "d \<noteq> e" "resp t d = resp t e" for d e
  proof -
    have small: "resp s d < brk s" "resp t d = resp s d"
      if "d \<in> set (msg_ctx_queue s)" "d \<noteq> c" for d
    proof -
      obtain x' where x': "heap s d = Some (B_ctx x')" "response_msg x' = 0 \<or> answered s x'"
        using chan_okD [OF s(1)] \<open>d \<in> _\<close> by blast
      have "0 < brk s" using chan_ok_heap [OF s(1)] by (simp add: heap_ok_def)
      then have "response_msg x' < brk s"
        using x'(2) live [of "response_msg x'"] by (auto simp: answered_def)
      moreover have "heap t d = heap s d" using other [OF \<open>d \<noteq> c\<close>] live x'(1) by simp
      ultimately show "resp s d < brk s" "resp t d = resp s d"
        using x'(1) by (simp_all add: resp_def)
    qed
    have big: "resp t c = 0 \<or> brk s \<le> resp t c" using t(1,3) by (auto simp: resp_def)
    show ?thesis
    proof (cases "d = c \<or> e = c")
      case True
      then show ?thesis using small [of d] small [of e] big de by auto
    next
      case False
      then show ?thesis using small(2) [of d] small(2) [of e] de s(1) by (simp add: chan_ok_def)
    qed
  qed
  ultimately have "chan_ok t" using t(4) s(2) by (auto simp: chan_ok_def frame_def)
  moreover have "\<exists>z. heap t d = Some (B_ctx z) \<and> ctx_kept (brk s) x' z"
    if "d \<in> set (msg_ctx_queue s)" "heap s d = Some (B_ctx x')" for d x'
    using that s(4) t(1,2) other live by (cases "d = c") (auto simp: ctx_kept_def)
  moreover have "heap t p = heap s p" if "p < brk s" "p \<notin> set (msg_ctx_queue s)" for p
    using that s(3) other by metis
  ultimately show ?thesis
    using s(2) t(5) by (simp add: delivered_def)
qed

lemma heap_ok_update:
  "heap_ok s \<Longrightarrow> heap s c \<noteq> None \<Longrightarrow> heap t = (heap s)(c \<mapsto> b) \<Longrightarrow> brk t = brk s \<Longrightarrow> heap_ok t"
  by (auto simp: heap_ok_def)

lemma heap_ok_extend:
  assumes "heap_ok s" "heap s c \<noteq> None" "heap t = (heap s)(c \<mapsto> b, brk s \<mapsto> d)" "brk t = brk s + 1"
  shows "heap_ok t"
proof -
  have b: "0 < brk s" and old: "\<And>p. heap s p \<noteq> None \<Longrightarrow> 0 < p \<and> p < brk s"
    using assms(1) by (auto simp: heap_ok_def)
  have "0 < p \<and> p < brk s + 1" if "heap t p \<noteq> None" for p
  proof (cases "p = brk s")
    case True
    then show ?thesis using b by simp
  next
    case False
    then have "heap s p \<noteq> None" using that assms(2,3) by (simp split: if_splits)
    then show ?thesis using old [of p] by simp
  qed
  then show ?thesis using b assms(4) by (simp add: heap_ok_def)
qed

lemma receive_delivered:
  assumes "nlmsg_put_fits K" "chan_ok s" "skb_ok skb"
  shows "wp (teadfs_netlink_receive K skb) (\<lambda>_ t. delivered s t) s"
proof (rule wp_receiveI [OF assms])
  fix t assume "frame s t" "heap t = heap s" "brk t = brk s"
  then show "delivered s t"
    using assms(2) by (auto simp: delivered_def chan_ok_def answered_def heap_ok_def frame_def ctx_kept_def resp_def)
next
  fix t c x
  assume t: "frame s t" "c \<in> set (msg_ctx_queue s)" "heap s c = Some (B_ctx x)" "brk t = brk s"
    "heap t = (heap s)(c \<mapsto> B_ctx (x\<lparr>ctx_state := TEADFS_MSG_CTX_STATE_DONE, response_msg := 0\<rparr>))"
  show "delivered s t"
    by (rule delivered_step [OF assms(2) t(1-3),
            where y = "x\<lparr>ctx_state := TEADFS_MSG_CTX_STATE_DONE, response_msg := 0\<rparr>"])
      (use t(3-) heap_ok_update [OF chan_ok_heap [OF assms(2)] _ t(5,4)] in \<open>simp_all add: ctx_kept_def\<close>)
next
  fix t c x
  assume t: "frame s t" "c \<in> set (msg_ctx_queue s)" "heap s c = Some (B_ctx x)"
      "msg_id x = skb_msg_id skb" "brk t = brk s + 1"
    and h: "heap t = (heap s)(c \<mapsto> B_ctx (x\<lparr>ctx_state := TEADFS_MSG_CTX_STATE_DONE, response_msg := brk s,
            response_msg_size := nlmsg_payload_len skb\<rparr>), brk s \<mapsto> B_raw (response_bytes skb))"
  have ok: "heap_ok s" using assms(2) by (rule chan_ok_heap)
  have c: "c \<noteq> brk s" using heap_ok_neq_brk [OF ok t(3)] by simp
  have "brk s \<notin> set (msg_ctx_queue s)"
    using chan_okD [OF assms(2), of "brk s"] ok by auto
  then have "answered t (x\<lparr>ctx_state := TEADFS_MSG_CTX_STATE_DONE, response_msg := brk s,
      response_msg_size := nlmsg_payload_len skb\<rparr>)"
    using t(1,4) h response_bytes_ok(2,3) [OF assms(3)] response_header [OF assms(3)]
    by (simp add: answered_def frame_def)
  then show "delivered s t"
    by (intro delivered_step [OF assms(2) t(1-3),
            where y = "x\<lparr>ctx_state := TEADFS_MSG_CTX_STATE_DONE, response_msg := brk s,
              response_msg_size := nlmsg_payload_len skb\<rparr>"])
      (use t(3,5) h c heap_ok_extend [OF ok _ h t(5)] in \<open>simp_all add: ctx_kept_def\<close>)
qed

lemma receive_all_delivered:
  assumes "nlmsg_put_fits K" "chan_ok s" "list_all skb_ok msgs"
  shows "wp (receive_all K msgs) (\<lambda>_ t. delivered s t) s"
  using assms(2,3)
proof (induction msgs arbitrary: s)
  case Nil
  then show ?case by (simp add: wp_simps delivered_refl)
next
  case (Cons m ms)
  have "wp (teadfs_netlink_receive K m) (\<lambda>_ t. wp (receive_all K ms) (\<lambda>_ u. delivered s u) t) s"
  proof (rule wp_mono)
    show "wp (teadfs_netlink_receive K m) (\<lambda>_ t. delivered s t) s"
      using assms(1) Cons.prems by (intro receive_delivered) simp_all
  next
    fix t assume t: "delivered s t"
    then have "wp (receive_all K ms) (\<lambda>_ u. delivered t u) t"
      using Cons.prems by (intro Cons.IH) (simp_all add: delivered_def)
    then show "wp (receive_all K ms) (\<lambda>_ u. delivered s u) t"
      by (rule wp_mono) (rule delivered_trans [OF t])
  qed
  then show ?case by (simp add: wp_simps)
qed

subsection \<open>Lock discipline\<close>

text \<open>The locks of the message channel, none of which may be held on entry.\<close>

definition channel_free :: "lock set \<Rightarrow> bool" where
  "channel_free H \<longleftrightarrow> L_global \<notin> H \<and> L_queue \<notin> H \<and> L_user_proc \<notin> H \<and> (\<forall>c. L_ctx c \<notin> H)"

lemma holds_send_to_user [holds_intros]:
  "channel_free H \<Longrightarrow> holds H (teadfs_send_to_user K d n) H"
  unfolding teadfs_send_to_user_def
  by (rule holds_intros | simp add: channel_free_def)+

lemma holds_packet_field [holds_intros]: "holds H (packet_field p off n) H"
  unfolding packet_field_def by (rule holds_intros | simp)+

lemma holds_user_request [holds_intros]:
  "channel_free H \<Longrightarrow> holds H (teadfs_user_request_kernel K pkt) H"
  unfolding teadfs_user_request_kernel_def stack_bytes_def
  by (rule holds_intros | simp add: channel_free_def)+

lemma holds_store_response [holds_intros]:
  "L_ctx c \<notin> H \<Longrightarrow> holds H (store_response K skb c) H"
  unfolding store_response_def by (rule holds_intros | simp)+

lemma holds_deliver [holds_intros]:
  "(\<And>c. L_ctx c \<notin> H) \<Longrightarrow> holds H (deliver K skb cs) H"
  by (induction cs) (auto intro!: holds_intros)

lemma holds_receive [holds_intros]: "channel_free H \<Longrightarrow> holds H (teadfs_netlink_receive K skb) H"
  unfolding teadfs_netlink_receive_def
  by (rule holds_intros | simp add: channel_free_def)+

lemma holds_receive_all [holds_intros]: "channel_free H \<Longrightarrow> holds H (receive_all K msgs) H"
  by (induction msgs) (auto intro!: mon_ret mon_bind [OF holds_receive])

context neutral_monitor
begin

lemma mon_send_to_user [mon_intros]: "mon step H (teadfs_send_to_user K d n) (\<lambda>_. H)"
  unfolding teadfs_send_to_user_def by (rule mon_intros | simp)+

lemma mon_packet_field [mon_intros]: "mon step H (packet_field p off n) (\<lambda>_. H)"
  unfolding packet_field_def by (rule mon_intros | simp)+

lemma mon_stack_bytes [mon_intros]: "mon step H (stack_bytes K n) (\<lambda>_. H)"
  unfolding stack_bytes_def by (rule mon_intros | simp)+

lemma mon_user_request [mon_intros]: "mon step H (teadfs_user_request_kernel K pkt) (\<lambda>_. H)"
  unfolding teadfs_user_request_kernel_def by (rule mon_intros | simp)+

lemma mon_store_response [mon_intros]: "mon step H (store_response K skb c) (\<lambda>_. H)"
  unfolding store_response_def by (rule mon_intros | simp)+

lemma mon_deliver [mon_intros]: "mon step H (deliver K skb cs) (\<lambda>_. H)"
  by (induction cs) (auto intro!: mon_intros)

lemma mon_receive [mon_intros]: "mon step H (teadfs_netlink_receive K skb) (\<lambda>_. H)"
  unfolding teadfs_netlink_receive_def by (rule mon_intros | simp)+

lemma mon_receive_all [mon_intros]: "mon step H (receive_all K msgs) (\<lambda>_. H)"
  by (induction msgs) (auto intro!: mon_intros)

end

context outer_view
begin

lemma keeps_send_to_user [keeps_intros]: "keeps g (teadfs_send_to_user K d n)"
  unfolding teadfs_send_to_user_def by (rule keeps_intros | simp)+

lemma keeps_packet_field [keeps_intros]: "keeps g (packet_field p off n)"
  unfolding packet_field_def by (rule keeps_intros | simp)+

lemma keeps_stack_bytes [keeps_intros]: "keeps g (stack_bytes K n)"
  unfolding stack_bytes_def by (rule keeps_intros | simp)+

lemma keeps_user_request [keeps_intros]: "keeps g (teadfs_user_request_kernel K pkt)"
  unfolding teadfs_user_request_kernel_def by (rule keeps_intros | simp)+

lemma keeps_store_response [keeps_intros]: "keeps g (store_response K skb c)"
  unfolding store_response_def by (rule keeps_intros | simp)+

lemma keeps_deliver [keeps_intros]: "keeps g (deliver K skb cs)"
  by (induction cs) (auto intro!: keeps_intros)

lemma keeps_receive [keeps_intros]: "keeps g (teadfs_netlink_receive K skb)"
  unfolding teadfs_netlink_receive_def by (rule keeps_intros | simp)+

lemma keeps_receive_all [keeps_intros]: "keeps g (receive_all K msgs)"
  by (induction msgs) (auto intro!: keeps_intros)

end

end
