(* ===== verification/User_Com.thy ===== *)
theory User_Com
  imports Netlink
begin

text \<open>
  Requests from the kernel to the client (\<open>user_com.c\<close>): building a packet, queueing a context,
  sending, sleeping for at most 30 seconds until the answer is stored in the context, and reading
  the answer. Buffers, contexts and answers are heap blocks, so leaks and stale accesses of the
  C code are visible in the model.
\<close>

section \<open>Waiting and sending\<close>

text \<open>Completing a context without an answer.\<close>

definition finish_without_answer :: "ptr \<Rightarrow> ('w, unit) op" where
  "finish_without_answer ctx = do {
     emit (K_lock (L_ctx ctx));
     store ctx_of B_ctx (\<lambda>x. x\<lparr>ctx_state := TEADFS_MSG_CTX_STATE_DONE\<rparr>) ctx;
     store ctx_of B_ctx (\<lambda>x. x\<lparr>response_msg_size := 0\<rparr>) ctx;
     store ctx_of B_ctx (\<lambda>x. x\<lparr>response_msg := 0\<rparr>) ctx;
     emit (K_unlock (L_ctx ctx))
   }"

text \<open>
  The messages that arrive during \<open>wait_event_timeout\<close> are processed by
  \<open>teadfs_netlink_receive\<close>; the wait returns \<open>0\<close> iff the context is still not done then.
\<close>

definition teadfs_request_wait_answer :: "'w kernel \<Rightarrow> ptr \<Rightarrow> ('w, unit) op" where
  "teadfs_request_wait_answer K ctx = do {
     c0 \<leftarrow> load ctx_of zero_msg_ctx ctx;
     if TEADFS_MSG_CTX_STATE_NO_REPLY = ctx_state c0 then finish_without_answer ctx
     else do {
       w \<leftarrow> call K (K_net (K_wait_event_timeout ctx));
       receive_all K (rmsgs w);
       c1 \<leftarrow> load ctx_of zero_msg_ctx ctx;
       if ctx_state c1 \<noteq> TEADFS_MSG_CTX_STATE_DONE then finish_without_answer ctx
       else ret ()
     }
   }"

text \<open>Result: the return code, and what \<open>*response_size\<close> and \<open>*response_data\<close> are set to.\<close>

definition teadfs_request_send ::
  "'w kernel \<Rightarrow> u64 \<Rightarrow> nat \<Rightarrow> ptr \<Rightarrow> ('w, int \<times> nat \<times> ptr) op"
where
  "teadfs_request_send K mid request_size request_data = do {
     ctx \<leftarrow> teadfs_zalloc K 128 (B_ctx zero_msg_ctx);
     if ctx = 0 then ret (- ENOMEM, 0, 0)
     else do {
       store ctx_of B_ctx (\<lambda>_. \<lparr>ctx_state = TEADFS_MSG_CTX_STATE_PENDING, msg_id = mid,
         request_msg_size = request_size, request_msg = request_data,
         response_msg_size = 0, response_msg = 0\<rparr>) ctx;
       emit (K_lock L_queue);
       modify (\<lambda>s. s\<lparr>msg_ctx_queue := msg_ctx_queue s @ [ctx]\<rparr>);
       emit (K_unlock L_queue);
       data \<leftarrow> peek K request_data 0 request_size;
       teadfs_send_to_user K data request_size;
       teadfs_request_wait_answer K ctx;
       c \<leftarrow> load ctx_of zero_msg_ctx ctx;
       emit (K_lock L_queue);
       modify (\<lambda>s. s\<lparr>msg_ctx_queue := remove1 ctx (msg_ctx_queue s)\<rparr>);
       emit (K_unlock L_queue);
       teadfs_free ctx;
       ret (0, response_msg_size c, response_msg c)
     }
   }"

section \<open>Packets\<close>

definition teadfs_packet_header ::
  "ptr \<Rightarrow> nat \<Rightarrow> u8 \<Rightarrow> u8 \<Rightarrow> int \<Rightarrow> int \<Rightarrow> int \<Rightarrow> ('w, unit) op"
where
  "teadfs_packet_header packet n ty initiator pid uid gid = do {
     poke packet O_size (enc_u32 (of_nat n));
     id \<leftarrow> teadfs_get_next_msg_id;
     poke packet O_msg_id (enc_u64 id);
     poke packet O_msg_type (enc_u8 ty);
     poke packet O_initiator (enc_u8 initiator);
     poke packet O_pid (enc_int pid);
     poke packet O_uid (enc_int uid);
     poke packet O_gid (enc_int gid)
   }"

text \<open>
  The checks and the allocation every request starts with: no connected client, a request by the
  client itself, or no memory means no packet (\<open>0\<close>); otherwise a zeroed packet with its header.
\<close>

definition begin_request :: "'w kernel \<Rightarrow> nat \<Rightarrow> u8 \<Rightarrow> ('w, ptr) op" where
  "begin_request K n ty = do {
     kpid \<leftarrow> gets cur_pid;
     cp \<leftarrow> teadfs_get_client_pid;
     if kpid = cp then ret 0
     else do {
       buffer \<leftarrow> teadfs_zalloc K n (B_raw (replicate n 0));
       if buffer = 0 then ret 0
       else do {
         teadfs_packet_header buffer n ty 0 kpid 0 0;
         ret buffer
       }
     }
   }"

text \<open>\<open>packet->header.msg_id\<close> is read back from the buffer for the send.\<close>

definition send_packet :: "'w kernel \<Rightarrow> nat \<Rightarrow> ptr \<Rightarrow> ('w, int \<times> nat \<times> ptr) op" where
  "send_packet K n buffer = do {
     id \<leftarrow> peek K buffer O_msg_id 8;
     teadfs_request_send K (dec_u64 id) n buffer
   }"

definition free_if :: "ptr \<Rightarrow> ('w, unit) op" where
  "free_if p = (if p \<noteq> 0 then teadfs_free p else ret ())"

section \<open>Open and release\<close>

definition teadfs_request_open :: "'w kernel \<Rightarrow> bytes \<Rightarrow> ptr \<Rightarrow> ('w, int) op" where
  "teadfs_request_open K path file = do {
     (rc, buffer_packet, response_data) \<leftarrow> do {
       connect \<leftarrow> teadfs_get_client_connect;
       if connect = 0 then ret (- ENOMEM, 0, 0)
       else do {
         let n = sizeof_packet + length path;
         buffer_packet \<leftarrow> begin_request K n PR_MSG_OPEN;
         if buffer_packet = 0 then ret (- ENOMEM, 0, 0)
         else do {
           poke buffer_packet O_open_file_id (enc_u64 (word_of_int file));
           poke buffer_packet O_open_path_size (enc_u32 (of_nat (length path)));
           poke buffer_packet O_open_path_offset (enc_u32 (of_nat sizeof_packet));
           poke buffer_packet sizeof_packet path;
           (rc, response_size, response_data) \<leftarrow> send_packet K n buffer_packet;
           if rc \<noteq> 0 then ret (- ENOMEM, buffer_packet, response_data)
           else if response_data = 0 \<or> response_size < sizeof_packet
             then ret (- ENOMEM, buffer_packet, response_data)
           else do {
             code \<leftarrow> peek K response_data O_error_code 4;
             ret (dec_int code, buffer_packet, response_data)
           }
         }
       }
     };
     free_if response_data;
     free_if buffer_packet;
     ret rc
   }"

text \<open>
  \<open>d_path\<close> writes the path into the buffer and returns a pointer into it; the block then stands
  for the string from there on. Its error pointer is passed to \<open>strlen\<close> unchecked.
\<close>

definition path_string :: "'w kernel \<Rightarrow> ptr \<Rightarrow> ptr \<Rightarrow> ptr \<Rightarrow> ('w, ptr \<times> bytes) op" where
  "path_string K dentry mnt buf = do {
     r \<leftarrow> call K (K_io (K_d_path dentry mnt PATH_MAX));
     if IS_ERR (rv r) then do { raise_fault (Bad_pointer (rv r)); ret (rv r, []) }
     else do {
       store raw_of B_raw (\<lambda>_. rdata r) buf;
       ret (buf, rdata r)
     }
   }"

definition teadfs_request_open_file :: "'w kernel \<Rightarrow> ptr \<Rightarrow> ptr \<Rightarrow> ('w, int) op" where
  "teadfs_request_open_file K file file_info = do {
     rc \<leftarrow> do {
       buf \<leftarrow> teadfs_zalloc K PATH_MAX (B_raw (replicate PATH_MAX 0));
       store file_of B_file (\<lambda>f. f\<lparr>file_path_buf := buf\<rparr>) file_info;
       if buf = 0 then ret (- ENOMEM)
       else do {
         dentry \<leftarrow> call_rv K (K_load F_f_dentry file);
         mnt \<leftarrow> call_rv K (K_load F_f_mnt file);
         (p, path) \<leftarrow> path_string K dentry mnt buf;
         store file_of B_file (\<lambda>f. f\<lparr>file_path := p\<rparr>) file_info;
         store file_of B_file (\<lambda>f. f\<lparr>file_path_length := int (length path)\<rparr>) file_info;
         teadfs_request_open K path file
       }
     };
     if rc < 0 then ret OFR_INIT else ret rc
   }"

definition teadfs_request_open_path :: "'w kernel \<Rightarrow> ptr \<Rightarrow> ptr \<Rightarrow> ('w, int) op" where
  "teadfs_request_open_path K dentry mnt = do {
     (rc, buf) \<leftarrow> do {
       buf \<leftarrow> teadfs_zalloc K PATH_MAX (B_raw (replicate PATH_MAX 0));
       if buf = 0 then ret (- ENOMEM, 0)
       else do {
         (p, path) \<leftarrow> path_string K dentry mnt buf;
         rc \<leftarrow> teadfs_request_open K path 0;
         ret (rc, buf)
       }
     };
     free_if buf;
     ret rc
   }"

definition teadfs_request_release :: "'w kernel \<Rightarrow> ptr \<Rightarrow> nat \<Rightarrow> ptr \<Rightarrow> ('w, int) op" where
  "teadfs_request_release K path_ptr path_len file = do {
     (rc, buffer_packet, response_data) \<leftarrow> do {
       connect \<leftarrow> teadfs_get_client_connect;
       if connect = 0 then ret (- ENOMEM, 0, 0)
       else do {
         dentry \<leftarrow> (if file = 0 then ret 0 else call_rv K (K_load F_f_dentry file));
         mnt \<leftarrow> (if file = 0 \<or> dentry = 0 then ret 0 else call_rv K (K_load F_f_mnt file));
         if file = 0 \<or> dentry = 0 \<or> mnt = 0 then ret (- ENOMEM, 0, 0)
         else do {
           let n = sizeof_packet + path_len;
           buffer_packet \<leftarrow> begin_request K n PR_MSG_RELEASE;
           if buffer_packet = 0 then ret (- ENOMEM, 0, 0)
           else do {
             poke buffer_packet O_release_file_id (enc_u64 (word_of_int file));
             poke buffer_packet O_release_path_size (enc_u32 (of_nat path_len));
             poke buffer_packet O_release_path_offset (enc_u32 (of_nat sizeof_packet));
             path \<leftarrow> peek K path_ptr 0 path_len;
             poke buffer_packet sizeof_packet path;
             (rc, response_size, response_data) \<leftarrow> send_packet K n buffer_packet;
             if rc \<noteq> 0 then ret (- ENOMEM, buffer_packet, response_data)
             else if response_data = 0 \<or> response_size < sizeof_packet
               then ret (- ENOMEM, buffer_packet, response_data)
             else do {
               code \<leftarrow> peek K response_data O_error_code 4;
               ret (dec_int code, buffer_packet, response_data)
             }
           }
         }
       }
     };
     free_if response_data;
     free_if buffer_packet;
     ret rc
   }"

section \<open>Read and write\<close>

text \<open>
  \<open>memcpy\<close> of an answer into the caller's buffer, whose bytes are a value of the model: more
  bytes than the buffer has is a fault.
\<close>

definition copy_out :: "bytes \<Rightarrow> bytes \<Rightarrow> ('w, bytes) op" where
  "copy_out dst data =
     (if length data \<le> length dst then ret (put_at 0 data dst)
      else do { raise_fault (Out_of_bounds 0); ret dst })"

text \<open>
  The caller's source is \<open>src\<close> (\<open>src_size\<close> bytes), its destination buffer holds \<open>dst\<close>;
  the result is the return code and the new contents of the destination.
\<close>

definition teadfs_request_read ::
  "'w kernel \<Rightarrow> int \<Rightarrow> bytes \<Rightarrow> bytes \<Rightarrow> int \<Rightarrow> ('w, int \<times> bytes) op"
where
  "teadfs_request_read K offset src dst dst_size = do {
     (rc, dst1, response_data) \<leftarrow> do {
       connect \<leftarrow> teadfs_get_client_connect;
       if connect = 0 then ret (- ENOMEM, dst, 0)
       else do {
         let n = sizeof_packet + length src;
         buffer \<leftarrow> begin_request K n PR_MSG_READ;
         if buffer = 0 then ret (- ENOMEM, dst, 0)
         else do {
           poke buffer O_read_offset (enc_u64 (word_of_int offset));
           poke buffer O_read_code (enc_int 0);
           poke buffer O_read_data_size (enc_u32 (of_nat (length src)));
           poke buffer O_read_data_offset (enc_u32 (of_nat sizeof_packet));
           poke buffer sizeof_packet src;
           (rc, response_size, response_data) \<leftarrow> send_packet K n buffer;
           if rc \<noteq> 0 then ret (- ENOMEM, dst, response_data)
           else if response_data = 0 \<or> response_size < sizeof_packet
             then ret (- ENOMEM, dst, response_data)
           else do {
             code \<leftarrow> peek K response_data O_read_code 4;
             size0 \<leftarrow> peek K response_data O_read_data_size 4;
             wsize \<leftarrow> peek K response_data O_write_data_size 4;
             off \<leftarrow> peek K response_data O_read_data_offset 4;
             if dec_int code \<noteq> 0 then ret (- ENOMEM, dst, response_data)
             else if response_size \<noteq> sizeof_packet + unat (dec_u32 size0)
               then ret (- ENOMEM, dst, response_data)
             else if (word_of_int dst_size :: u32) < dec_u32 wsize
               then ret (- ENOMEM, dst, response_data)
             else do {
               data \<leftarrow> peek K response_data (unat (dec_u32 off)) (unat (dec_u32 size0));
               dst1 \<leftarrow> copy_out dst data;
               ret (int_of_u32 (dec_u32 size0), dst1, response_data)
             }
           }
         }
       }
     };
     free_if response_data;
     ret (rc, dst1)
   }"

definition teadfs_request_write ::
  "'w kernel \<Rightarrow> int \<Rightarrow> bytes \<Rightarrow> bytes \<Rightarrow> int \<Rightarrow> ('w, int \<times> bytes) op"
where
  "teadfs_request_write K offset src dst dst_size = do {
     connect \<leftarrow> teadfs_get_client_connect;
     if connect = 0 then ret (- ENOMEM, dst)
     else do {
       let n = sizeof_packet + length src;
       buffer \<leftarrow> begin_request K n PR_MSG_WRITE;
       if buffer = 0 then ret (- ENOMEM, dst)
       else do {
         poke buffer O_write_offset (enc_u64 (word_of_int offset));
         poke buffer O_write_code (enc_int 0);
         poke buffer O_write_data_size (enc_u32 (of_nat (length src)));
         poke buffer O_write_data_offset (enc_u32 (of_nat sizeof_packet));
         poke buffer sizeof_packet src;
         (rc, response_size, response_data) \<leftarrow> send_packet K n buffer;
         if rc \<noteq> 0 then ret (- ENOMEM, dst)
         else if response_data = 0 \<or> response_size < sizeof_packet then ret (- ENOMEM, dst)
         else do {
           code \<leftarrow> peek K response_data O_write_code 4;
           size0 \<leftarrow> peek K response_data O_write_data_size 4;
           off \<leftarrow> peek K response_data O_write_data_offset 4;
           if dec_int code \<noteq> 0 then ret (- ENOMEM, dst)
           else if response_size \<noteq> sizeof_packet + unat (dec_u32 size0) then ret (- ENOMEM, dst)
           else if (word_of_int dst_size :: u32) < dec_u32 size0 then ret (- ENOMEM, dst)
           else do {
             data \<leftarrow> peek K response_data (unat (dec_u32 off)) (unat (dec_u32 size0));
             dst1 \<leftarrow> copy_out dst data;
             free_if response_data;
             size1 \<leftarrow> peek K response_data O_write_data_size 4;
             ret (int_of_u32 (dec_u32 size1), dst1)
           }
         }
       }
     }
   }"

definition teadfs_request_delete :: "ptr \<Rightarrow> ('w, int) op" where
  "teadfs_request_delete dentry = ret 0"

section \<open>Lemmas: sending a request\<close>

text \<open>What the netlink layer may hand to a sleeping requester: well-formed messages.\<close>

definition msgs_ok :: "'w kernel \<Rightarrow> bool" where
  "msgs_ok K \<longleftrightarrow> (\<forall>c w. list_all skb_ok (rmsgs (fst (K (K_net (K_wait_event_timeout c)) w))))"

lemma wp_finish [wp_simps]:
  "heap s c = Some (B_ctx x) \<Longrightarrow> wp (finish_without_answer c) Q s =
     Q () (s\<lparr>heap := (heap s)(c \<mapsto> B_ctx (x\<lparr>ctx_state := TEADFS_MSG_CTX_STATE_DONE,
         response_msg_size := 0, response_msg := 0\<rparr>)),
       trace := trace s @ [(K_lock (L_ctx c), 0), (K_unlock (L_ctx c), 0)]\<rparr>)"
  by (simp add: finish_without_answer_def wp_simps)

lemma delivered_kept:
  "delivered s t \<Longrightarrow> c \<in> set (msg_ctx_queue s) \<Longrightarrow> heap s c = Some (B_ctx x) \<Longrightarrow>
     \<exists>y. heap t c = Some (B_ctx y) \<and> ctx_kept (brk s) x y"
  by (simp add: delivered_def)

lemma delivered_chan_ok: "delivered s t \<Longrightarrow> chan_ok t"
  by (simp add: delivered_def)

lemma chan_ok_cong:
  assumes "chan_ok s" "heap t = heap s" "brk t = brk s" "msg_ctx_queue t = msg_ctx_queue s"
  shows "chan_ok t"
  using assms by (simp add: chan_ok_def heap_ok_def answered_def resp_def)

lemma delivered_cong:
  "delivered s t \<Longrightarrow> heap u = heap s \<Longrightarrow> brk u = brk s \<Longrightarrow> frame s u \<Longrightarrow> delivered u t"
  by (simp add: delivered_def frame_def)

lemma wait_answer_delivered:
  assumes "nlmsg_put_fits K" "msgs_ok K" "chan_ok s" "c \<in> set (msg_ctx_queue s)"
  shows "wp (teadfs_request_wait_answer K c) (\<lambda>_ t. delivered s t) s"
proof -
  obtain x where x: "heap s c = Some (B_ctx x)"
    using chan_okD [OF assms(3,4)] by blast
  let ?fin = "\<lambda>t y. t\<lparr>heap := (heap t)(c \<mapsto> B_ctx (y\<lparr>ctx_state := TEADFS_MSG_CTX_STATE_DONE,
         response_msg_size := 0, response_msg := 0\<rparr>)),
       trace := trace t @ [(K_lock (L_ctx c), 0), (K_unlock (L_ctx c), 0)]\<rparr>"
  have fin: "delivered s (?fin t y)"
    if t: "delivered s t" "heap t c = Some (B_ctx y)" for t y
  proof (rule delivered_trans [OF t(1)])
    have c: "c \<in> set (msg_ctx_queue t)" using t(1) assms(4) by (simp add: delivered_def frame_def)
    have "heap_ok (?fin t y)"
      by (rule heap_ok_update [OF chan_ok_heap [OF delivered_chan_ok [OF t(1)]], of c]) (use t(2) in simp_all)
    then show "delivered t (?fin t y)"
      by (intro delivered_step [OF delivered_chan_ok [OF t(1)] _ c t(2),
            where y = "y\<lparr>ctx_state := TEADFS_MSG_CTX_STATE_DONE, response_msg_size := 0, response_msg := 0\<rparr>"])
        (use t(2) in \<open>simp_all add: frame_def ctx_kept_def\<close>)
  qed
  have "wp (call K (K_net (K_wait_event_timeout c)))
      (\<lambda>w. wp (receive_all K (rmsgs w)) (\<lambda>_ t. delivered s t)) s"
    unfolding wp_call
  proof -
    let ?r = "fst (K (K_net (K_wait_event_timeout c)) (world s))"
    let ?u = "s\<lparr>world := snd (K (K_net (K_wait_event_timeout c)) (world s)),
      trace := trace s @ [(K_net (K_wait_event_timeout c), rv ?r)]\<rparr>"
    have u: "chan_ok ?u" by (rule chan_ok_cong [OF assms(3)]) simp_all
    have "wp (receive_all K (rmsgs ?r)) (\<lambda>_ t. delivered ?u t) ?u"
      using assms(1) u assms(2) by (intro receive_all_delivered) (simp_all add: msgs_ok_def)
    then show "wp (receive_all K (rmsgs ?r)) (\<lambda>_ t. delivered s t) ?u"
      by (rule wp_mono) (erule delivered_cong, simp_all add: frame_def)
  qed
  then have "wp (call K (K_net (K_wait_event_timeout c))) (\<lambda>w. wp (receive_all K (rmsgs w))
      (\<lambda>_. wp (load ctx_of zero_msg_ctx c) (\<lambda>c1. wp (if ctx_state c1 \<noteq> TEADFS_MSG_CTX_STATE_DONE
        then finish_without_answer c else ret ()) (\<lambda>_ t. delivered s t)))) s"
  proof (rule wp_mono, elim wp_mono)
    fix t assume t: "delivered s t"
    obtain y where y: "heap t c = Some (B_ctx y)"
      using delivered_kept [OF t assms(4) x] by blast
    show "wp (load ctx_of zero_msg_ctx c) (\<lambda>c1. wp (if ctx_state c1 \<noteq> TEADFS_MSG_CTX_STATE_DONE
        then finish_without_answer c else ret ()) (\<lambda>_ t. delivered s t)) t"
      using y t fin [OF t y] by (simp add: wp_simps)
  qed
  then show ?thesis
    unfolding teadfs_request_wait_answer_def
    using x fin [OF delivered_refl [OF assms(3)] x] by (simp add: wp_simps)
qed

text \<open>
  The outcome of a completed request: the channel is as before (its own context is gone), blocks
  that existed before are untouched, and the answer, if there is one, is a fresh block that no
  other request refers to and that carries the request's message id.
\<close>

definition own_answer :: "'w st \<Rightarrow> u64 \<Rightarrow> 'w st \<Rightarrow> nat \<Rightarrow> ptr \<Rightarrow> bool" where
  "own_answer s mid t n p \<longleftrightarrow> brk s \<le> p \<and> p \<notin> set (msg_ctx_queue t) \<and>
     (\<forall>c \<in> set (msg_ctx_queue t). resp t c \<noteq> p) \<and>
     (\<exists>b. heap t p = Some (B_raw b) \<and> n \<le> length b \<and> sizeof_packet \<le> n \<and>
        h_msg_id (get_header b) = mid)"

lemma enqueue_chan_ok:
  assumes "chan_ok s" "heap t = (heap s)(brk s \<mapsto> B_ctx x)" "brk t = brk s + 1" "response_msg x = 0"
    "msg_ctx_queue t = msg_ctx_queue s @ [brk s]"
  shows "chan_ok t"
proof -
  have ok: "heap_ok s" using assms(1) by (rule chan_ok_heap)
  have q: "brk s \<notin> set (msg_ctx_queue s)"
    using chan_okD [OF assms(1), of "brk s"] ok by auto
  have "heap_ok t"
    using ok assms(2,3) unfolding heap_ok_def by (auto split: if_splits)
  moreover have "\<exists>x. heap t c = Some (B_ctx x) \<and> (response_msg x = 0 \<or> answered t x)"
    if c: "c \<in> set (msg_ctx_queue t)" for c
  proof (cases "c = brk s")
    case True
    then show ?thesis using assms(2,4) by simp
  next
    case False
    then obtain y where y: "heap s c = Some (B_ctx y)" "response_msg y = 0 \<or> answered s y"
      using chan_okD [OF assms(1), of c] c assms(5) by auto
    have "answered t y" if "answered s y"
      using that ok assms(2,5) unfolding answered_def by auto
    then show ?thesis using y False assms(2) by auto
  qed
  moreover have "resp t c = resp s c" if "c \<in> set (msg_ctx_queue s)" for c
    using that q assms(2) by (auto simp: resp_def)
  moreover have "resp t (brk s) = 0" using assms(2,4) by (simp add: resp_def)
  ultimately show ?thesis
    using assms(1,5) by (auto simp: chan_ok_def)
qed

text \<open>Taking the own context out again, after any deliveries.\<close>

lemma dequeue_delivered:
  assumes s: "chan_ok s"
    and u: "heap u = (heap s)(brk s \<mapsto> B_ctx x)" "brk u = brk s + 1" "response_msg x = 0"
      "msg_ctx_queue u = msg_ctx_queue s @ [brk s]"
    and v: "delivered u v" "heap v (brk s) = Some (B_ctx y)"
    and t: "heap t = (heap v)(brk s := None)" "brk t = brk v" "frame s t"
  shows "delivered s t"
    and "response_msg y = 0 \<or> own_answer s (msg_id x) t (response_msg_size y) (response_msg y)"
proof -
  have ok: "heap_ok s" using s by (rule chan_ok_heap)
  have q: "brk s \<notin> set (msg_ctx_queue s)" using chan_okD [OF s, of "brk s"] ok by auto
  have qv: "msg_ctx_queue v = msg_ctx_queue s @ [brk s]" and le: "brk u \<le> brk v"
    using v(1) u(4) by (auto simp: delivered_def frame_def)
  have qt: "msg_ctx_queue t = msg_ctx_queue s" using t(3) by (simp add: frame_def)
  have cv: "chan_ok v" using v(1) by (rule delivered_chan_ok)
  have same: "heap t c = heap v c" if "c \<in> set (msg_ctx_queue s)" for c
    using that q t(1) by auto
  have ans: "answered t z" if "answered v z" for z
    using that t(1) qt qv unfolding answered_def by auto
  have "heap_ok t" using chan_ok_heap [OF cv] t(1,2) by (auto simp: heap_ok_def)
  moreover have "\<exists>z. heap t c = Some (B_ctx z) \<and> (response_msg z = 0 \<or> answered t z)"
    if c: "c \<in> set (msg_ctx_queue s)" for c
    using chan_okD [OF cv, of c] c qv same [OF c] ans by auto
  moreover have rs: "resp t c = resp v c" if "c \<in> set (msg_ctx_queue s)" for c
    using same [OF that] by (simp add: resp_def)
  ultimately have ct: "chan_ok t"
    using cv qv qt unfolding chan_ok_def by simp
  have "heap t p = heap s p" if p: "p < brk s" "p \<notin> set (msg_ctx_queue s)" for p
    using v(1) p u(1,2,4) t(1) unfolding delivered_def by auto
  moreover have "\<exists>z. heap t c = Some (B_ctx z) \<and> ctx_kept (brk s) x' z"
    if c: "c \<in> set (msg_ctx_queue s)" "heap s c = Some (B_ctx x')" for c x'
  proof -
    have "heap u c = Some (B_ctx x')" using c q u(1) by auto
    then obtain z where "heap v c = Some (B_ctx z)" "ctx_kept (brk u) x' z"
      using delivered_kept [OF v(1)] c(1) u(4) by auto
    then show ?thesis using same [OF c(1)] u(2) by (auto simp: ctx_kept_def)
  qed
  ultimately show "delivered s t"
    using t(2,3) ct le u(2) by (simp add: delivered_def)
  have ux: "heap u (brk s) = Some (B_ctx x)" and qu: "brk s \<in> set (msg_ctx_queue u)"
    using u by auto
  have k: "ctx_kept (brk u) x y"
    using delivered_kept [OF v(1) qu ux] v(2) by auto
  show "response_msg y = 0 \<or> own_answer s (msg_id x) t (response_msg_size y) (response_msg y)"
  proof (cases "response_msg y = 0")
    case False
    then have a: "answered v y" using chan_okD [OF cv, of "brk s"] v(2) qv by auto
    have "resp t c \<noteq> response_msg y" if c: "c \<in> set (msg_ctx_queue s)" for c
    proof -
      have "resp v c = resp v (brk s) \<longrightarrow> resp v c = 0" using cv c qv q unfolding chan_ok_def by auto
      then show ?thesis using rs [OF c] v(2) False by (auto simp: resp_def)
    qed
    then show ?thesis
      using a k False u(2,3) qt qv t(1) unfolding answered_def own_answer_def ctx_kept_def by auto
  qed simp
qed

lemma wp_request_sendI:
  assumes "nlmsg_put_fits K" "msgs_ok K" "chan_ok s" "heap s buf = Some (B_raw pkt)" "n \<le> length pkt"
    and oom: "\<And>t. frame s t \<Longrightarrow> heap t = heap s \<Longrightarrow> brk t = brk s \<Longrightarrow> Q (- ENOMEM, 0, 0) t"
    and sent: "\<And>t m p. delivered s t \<Longrightarrow> p = 0 \<or> own_answer s mid t m p \<Longrightarrow> Q (0, m, p) t"
  shows "wp (teadfs_request_send K mid n buf) Q s"
proof -
  let ?x = "\<lparr>ctx_state = TEADFS_MSG_CTX_STATE_PENDING, msg_id = mid, request_msg_size = n,
      request_msg = buf, response_msg_size = 0, response_msg = 0\<rparr>"
  have ok: "heap_ok s" using assms(3) by (rule chan_ok_heap)
  have b: "brk s \<noteq> 0" "buf \<noteq> brk s" "brk s \<noteq> buf" using ok assms(4) by (auto simp: heap_ok_def)
  have q: "brk s \<notin> set (msg_ctx_queue s)" using chan_okD [OF assms(3), of "brk s"] ok by auto
  let ?fin = "\<lambda>_ :: unit. wp (load ctx_of zero_msg_ctx (brk s)) (\<lambda>a sa. wp (teadfs_free (brk s))
      (\<lambda>_. Q (0, response_msg_size a, response_msg a))
      (sa\<lparr>msg_ctx_queue := remove1 (brk s) (msg_ctx_queue sa),
        trace := trace sa @ [(K_lock L_queue, 0), (K_unlock L_queue, 0)]\<rparr>))"
  have rest: "wp (teadfs_send_to_user K (get_at 0 n pkt) n)
      (\<lambda>_. wp (teadfs_request_wait_answer K (brk s)) ?fin) u"
    if u: "heap u = (heap s)(brk s \<mapsto> B_ctx ?x)" "brk u = brk s + 1"
      "msg_ctx_queue u = msg_ctx_queue s @ [brk s]" "frame (s\<lparr>msg_ctx_queue := msg_ctx_queue u\<rparr>) u" for u
  proof (rule wp_send_to_userI [OF assms(1)])
    fix rc u' assume u': "frame u u'" "heap u' = heap u" "brk u' = brk u"
    have cu: "chan_ok u'"
      by (rule enqueue_chan_ok [OF assms(3), where x = ?x]) (use u u' in \<open>simp_all add: frame_def\<close>)
    have qu: "brk s \<in> set (msg_ctx_queue u')" using u u' by (simp add: frame_def)
    show "wp (teadfs_request_wait_answer K (brk s)) ?fin u'"
    proof (rule wp_mono [OF wait_answer_delivered [OF assms(1,2) cu qu]])
      fix v assume v: "delivered u' v"
      have "heap u' (brk s) = Some (B_ctx ?x)" using u u' by simp
      then obtain y where y: "heap v (brk s) = Some (B_ctx y)"
        using delivered_kept [OF v qu] by blast
      let ?t = "v\<lparr>msg_ctx_queue := msg_ctx_queue s,
        trace := trace v @ [(K_lock L_queue, 0), (K_unlock L_queue, 0), (K_mem (K_kfree (brk s)), 0)],
        heap := (heap v)(brk s := None), dead := (dead v)(brk s := heap v (brk s))\<rparr>"
      have qv: "remove1 (brk s) (msg_ctx_queue v) = msg_ctx_queue s"
        using v u u' q by (simp add: delivered_def frame_def remove1_append)
      have d: "delivered s ?t"
        "response_msg y = 0 \<or> own_answer s mid ?t (response_msg_size y) (response_msg y)"
        using dequeue_delivered [OF assms(3), of u' ?x v y ?t] u u' v y
        by (simp_all add: delivered_def frame_def)
      show "?fin () v"
        using y b qv sent [OF d] by (simp add: wp_simps)
    qed
  qed
  show ?thesis
    unfolding teadfs_request_send_def
    apply (simp only: wp_bind)
    apply (rule wp_zallocI)
     apply (simp add: wp_simps)
     apply (rule oom; simp add: frame_def)
    apply (simp add: b wp_simps assms(4,5))
    apply (rule rest; simp add: frame_def)
    done
qed

section \<open>Monitors of the requests\<close>

context neutral_monitor
begin

lemma mon_finish [mon_intros]: "mon step H (finish_without_answer c) (\<lambda>_. H)"
  unfolding finish_without_answer_def by (rule mon_intros | simp)+

lemma mon_wait_answer [mon_intros]: "mon step H (teadfs_request_wait_answer K c) (\<lambda>_. H)"
  unfolding teadfs_request_wait_answer_def by (rule mon_intros | simp)+

lemma mon_request_send [mon_intros]: "mon step H (teadfs_request_send K mid n p) (\<lambda>_. H)"
  unfolding teadfs_request_send_def by (rule mon_intros | simp)+

lemma mon_begin_request [mon_intros]: "mon step H (begin_request K n ty) (\<lambda>_. H)"
  unfolding begin_request_def teadfs_packet_header_def by (rule mon_intros | simp)+

lemma mon_send_packet [mon_intros]: "mon step H (send_packet K n p) (\<lambda>_. H)"
  unfolding send_packet_def by (rule mon_intros | simp)+

lemma mon_free_if [mon_intros]: "mon step H (free_if p) (\<lambda>_. H)"
  unfolding free_if_def by (rule mon_intros | simp)+

lemma mon_copy_out [mon_intros]: "mon step H (copy_out d x) (\<lambda>_. H)"
  unfolding copy_out_def by (rule mon_intros | simp)+

lemma mon_path_string [mon_intros]: "mon step H (path_string K d m b) (\<lambda>_. H)"
  unfolding path_string_def by (rule mon_intros | simp)+

lemma mon_request_open [mon_intros]: "mon step H (teadfs_request_open K path f) (\<lambda>_. H)"
  unfolding teadfs_request_open_def by (rule mon_intros | simp)+

lemma mon_request_open_file [mon_intros]: "mon step H (teadfs_request_open_file K f fi) (\<lambda>_. H)"
  unfolding teadfs_request_open_file_def by (rule mon_intros | simp)+

lemma mon_request_open_path [mon_intros]: "mon step H (teadfs_request_open_path K d m) (\<lambda>_. H)"
  unfolding teadfs_request_open_path_def by (rule mon_intros | simp)+

lemma mon_request_release [mon_intros]: "mon step H (teadfs_request_release K p n f) (\<lambda>_. H)"
  unfolding teadfs_request_release_def by (rule mon_intros | simp)+

lemma mon_request_read [mon_intros]: "mon step H (teadfs_request_read K off src dst n) (\<lambda>_. H)"
  unfolding teadfs_request_read_def by (rule mon_intros | simp)+

lemma mon_request_write [mon_intros]: "mon step H (teadfs_request_write K off src dst n) (\<lambda>_. H)"
  unfolding teadfs_request_write_def by (rule mon_intros | simp)+

end

subsection \<open>Lock discipline\<close>

lemma holds_finish [holds_intros]: "L_ctx c \<notin> H \<Longrightarrow> holds H (finish_without_answer c) H"
  unfolding finish_without_answer_def by (rule holds_intros | simp)+

lemma holds_wait_answer [holds_intros]: "channel_free H \<Longrightarrow> holds H (teadfs_request_wait_answer K c) H"
  unfolding teadfs_request_wait_answer_def by (rule holds_intros | simp add: channel_free_def)+

lemma holds_request_send [holds_intros]: "channel_free H \<Longrightarrow> holds H (teadfs_request_send K mid n p) H"
  unfolding teadfs_request_send_def by (rule holds_intros | simp add: channel_free_def)+

lemma holds_begin_request [holds_intros]: "channel_free H \<Longrightarrow> holds H (begin_request K n ty) H"
  unfolding begin_request_def teadfs_packet_header_def by (rule holds_intros | simp add: channel_free_def)+

lemma holds_send_packet [holds_intros]: "channel_free H \<Longrightarrow> holds H (send_packet K n p) H"
  unfolding send_packet_def by (rule holds_intros | simp)+

lemma holds_free_if [holds_intros]: "holds H (free_if p) H"
  unfolding free_if_def by (rule holds_intros | simp)+

lemma holds_copy_out [holds_intros]: "holds H (copy_out d x) H"
  unfolding copy_out_def by (rule holds_intros | simp)+

lemma holds_path_string [holds_intros]: "holds H (path_string K d m b) H"
  unfolding path_string_def by (rule holds_intros | simp)+

lemma holds_request_open [holds_intros]: "channel_free H \<Longrightarrow> holds H (teadfs_request_open K path f) H"
  unfolding teadfs_request_open_def by (rule holds_intros | simp add: channel_free_def)+

lemma holds_request_open_file [holds_intros]:
  "channel_free H \<Longrightarrow> holds H (teadfs_request_open_file K f fi) H"
  unfolding teadfs_request_open_file_def by (rule holds_intros | simp)+

lemma holds_request_open_path [holds_intros]:
  "channel_free H \<Longrightarrow> holds H (teadfs_request_open_path K d m) H"
  unfolding teadfs_request_open_path_def by (rule holds_intros | simp)+

lemma holds_request_release [holds_intros]:
  "channel_free H \<Longrightarrow> holds H (teadfs_request_release K p n f) H"
  unfolding teadfs_request_release_def by (rule holds_intros | simp add: channel_free_def)+

lemma holds_request_read [holds_intros]:
  "channel_free H \<Longrightarrow> holds H (teadfs_request_read K off src dst n) H"
  unfolding teadfs_request_read_def by (rule holds_intros | simp add: channel_free_def)+

lemma holds_request_write [holds_intros]:
  "channel_free H \<Longrightarrow> holds H (teadfs_request_write K off src dst n) H"
  unfolding teadfs_request_write_def by (rule holds_intros | simp add: channel_free_def)+

subsection \<open>Frames\<close>

context outer_view
begin

lemma keeps_sending [keeps_intros]:
  "keeps g (finish_without_answer c)"
  "keeps g (free_if p)"
  "keeps g (copy_out d x)"
  "keeps g (path_string K d' m b)"
  unfolding finish_without_answer_def free_if_def copy_out_def path_string_def
  by (rule keeps_intros | simp)+

lemma keeps_wait_answer [keeps_intros]: "keeps g (teadfs_request_wait_answer K c)"
  unfolding teadfs_request_wait_answer_def by (rule keeps_intros | simp)+

lemma keeps_request_send [keeps_intros]: "keeps g (teadfs_request_send K mid n p)"
  unfolding teadfs_request_send_def by (rule keeps_intros | simp)+

lemma keeps_begin_request [keeps_intros]: "keeps g (begin_request K n ty)"
  unfolding begin_request_def teadfs_packet_header_def by (rule keeps_intros | simp)+

lemma keeps_send_packet [keeps_intros]: "keeps g (send_packet K n p)"
  unfolding send_packet_def by (rule keeps_intros | simp)+

lemma keeps_requests [keeps_intros]:
  "keeps g (teadfs_request_open K path f)"
  "keeps g (teadfs_request_release K p n f)"
  "keeps g (teadfs_request_read K off src dst k)"
  "keeps g (teadfs_request_write K off src dst k)"
  unfolding teadfs_request_open_def teadfs_request_release_def teadfs_request_read_def
    teadfs_request_write_def
  by (rule keeps_intros | simp)+

lemma keeps_open_requests [keeps_intros]:
  "keeps g (teadfs_request_open_file K f fi)"
  "keeps g (teadfs_request_open_path K d m)"
  unfolding teadfs_request_open_file_def teadfs_request_open_path_def
  by (rule keeps_intros | simp)+

end

end
