(* ===== verification/Lower_Path.thy ===== *)
theory Lower_Path
  imports Kernel_Env
begin

text \<open>
  The accessors of \<open>teadfs_header.h\<close>: from a VFS object of the upper file system to the
  module's private structure and from there to the lower object it is stacked on. An upper
  \<open>struct inode\<close> is embedded in its \<open>teadfs_inode_info\<close>, so both have one address here.
  Arguments of the log calls are evaluated in C: the dereference of the lower dentry in the log
  line of the path accessors is part of the model.
\<close>

section \<open>Super blocks\<close>

definition teadfs_get_super_block :: "ptr \<Rightarrow> ('w, ptr) op" where
  "teadfs_get_super_block super = gets (\<lambda>s. s_fs_info s super)"

definition teadfs_set_superblock_lower :: "ptr \<Rightarrow> ptr \<Rightarrow> ('w, unit) op" where
  "teadfs_set_superblock_lower sb lower = do {
     p \<leftarrow> teadfs_get_super_block sb;
     store sb_of B_sb (\<lambda>x. x\<lparr>lower_sb := lower\<rparr>) p
   }"

definition teadfs_superblock_to_lower :: "ptr \<Rightarrow> ('w, ptr) op" where
  "teadfs_superblock_to_lower super = do {
     p \<leftarrow> teadfs_get_super_block super;
     x \<leftarrow> load sb_of zero_sb_info p;
     ret (lower_sb x)
   }"

definition teadfs_set_lower_super :: "ptr \<Rightarrow> ptr \<Rightarrow> ('w, unit) op" where
  "teadfs_set_lower_super super info = modify (\<lambda>s. s\<lparr>s_fs_info := (s_fs_info s)(super := info)\<rparr>)"

section \<open>Files\<close>

definition teadfs_set_file_private :: "ptr \<Rightarrow> ptr \<Rightarrow> ('w, unit) op" where
  "teadfs_set_file_private file info = modify (\<lambda>s. s\<lparr>private_data := (private_data s)(file := info)\<rparr>)"

definition teadfs_file_to_private :: "ptr \<Rightarrow> ('w, ptr) op" where
  "teadfs_file_to_private file = gets (\<lambda>s. private_data s file)"

definition teadfs_file_to_lower :: "ptr \<Rightarrow> ('w, ptr) op" where
  "teadfs_file_to_lower file = do {
     p \<leftarrow> teadfs_file_to_private file;
     x \<leftarrow> load file_of zero_file_info p;
     ret (lower_file x)
   }"

section \<open>Dentries and their lower paths\<close>

definition teadfs_dentry_to_private :: "ptr \<Rightarrow> ('w, ptr) op" where
  "teadfs_dentry_to_private dentry = gets (\<lambda>s. d_fsdata s dentry)"

definition teadfs_set_dentry_private :: "ptr \<Rightarrow> ptr \<Rightarrow> ('w, unit) op" where
  "teadfs_set_dentry_private dentry info = modify (\<lambda>s. s\<lparr>d_fsdata := (d_fsdata s)(dentry := info)\<rparr>)"

definition teadfs_get_lower_path :: "ptr \<Rightarrow> ('w, ptr \<times> ptr) op" where
  "teadfs_get_lower_path dent = do {
     p \<leftarrow> teadfs_dentry_to_private dent;
     emit (K_lock (L_dentry_info p));
     x \<leftarrow> load dentry_of zero_dentry_info p;
     deref (lower_path_dentry x);
     emit (K_unlock (L_dentry_info p));
     ret (lower_path_dentry x, lower_path_mnt x)
   }"

definition teadfs_put_lower_path :: "ptr \<Rightarrow> ('w, unit) op" where
  "teadfs_put_lower_path dent = do {
     p \<leftarrow> teadfs_dentry_to_private dent;
     emit (K_lock (L_dentry_info p));
     x \<leftarrow> load dentry_of zero_dentry_info p;
     deref (lower_path_dentry x);
     emit (K_unlock (L_dentry_info p))
   }"

definition teadfs_set_lower_path :: "ptr \<Rightarrow> ptr \<times> ptr \<Rightarrow> ('w, unit) op" where
  "teadfs_set_lower_path dent path = do {
     p \<leftarrow> teadfs_dentry_to_private dent;
     emit (K_lock (L_dentry_info p));
     store dentry_of B_dentry
       (\<lambda>x. x\<lparr>lower_path_dentry := fst path, lower_path_mnt := snd path\<rparr>) p;
     emit (K_unlock (L_dentry_info p));
     x \<leftarrow> load dentry_of zero_dentry_info p;
     deref (lower_path_dentry x)
   }"

definition wrapfs_put_reset_lower_path :: "'w kernel \<Rightarrow> ptr \<Rightarrow> ('w, unit) op" where
  "wrapfs_put_reset_lower_path K dent = do {
     p \<leftarrow> teadfs_dentry_to_private dent;
     emit (K_lock (L_dentry_info p));
     x \<leftarrow> load dentry_of zero_dentry_info p;
     store dentry_of B_dentry (\<lambda>x. x\<lparr>lower_path_dentry := 0, lower_path_mnt := 0\<rparr>) p;
     emit (K_unlock (L_dentry_info p));
     call K (K_ref (K_path_put (lower_path_dentry x) (lower_path_mnt x)));
     ret ()
   }"

section \<open>Inodes\<close>

definition teadfs_inode_to_lower :: "ptr \<Rightarrow> ('w, ptr) op" where
  "teadfs_inode_to_lower inode = do {
     x \<leftarrow> load inode_of zero_inode_info inode;
     ret (lower_inode x)
   }"

definition teadfs_set_inode_lower :: "ptr \<Rightarrow> ptr \<Rightarrow> ('w, unit) op" where
  "teadfs_set_inode_lower inode lower = store inode_of B_inode (\<lambda>x. x\<lparr>lower_inode := lower\<rparr>) inode"

section \<open>Sizes\<close>

definition i_size_read :: "ptr \<Rightarrow> ('w, int) op" where
  "i_size_read inode = gets (\<lambda>s. i_size s inode)"

definition i_size_write :: "ptr \<Rightarrow> int \<Rightarrow> ('w, unit) op" where
  "i_size_write inode n = modify (\<lambda>s. s\<lparr>i_size := (i_size s)(inode := n)\<rparr>)"

text \<open>\<open>fsstack_copy_inode_size\<close>: the kernel reports the lower inode's size, which is copied.\<close>

definition fsstack_copy_inode_size :: "'w kernel \<Rightarrow> ptr \<Rightarrow> ptr \<Rightarrow> ('w, unit) op" where
  "fsstack_copy_inode_size K dst src = do {
     n \<leftarrow> call_rv K (K_attr (K_copy_inode_size dst src));
     i_size_write dst n
   }"

section \<open>Lemmas\<close>

lemmas lower_path_defs = teadfs_get_super_block_def teadfs_set_superblock_lower_def
  teadfs_superblock_to_lower_def teadfs_set_lower_super_def teadfs_set_file_private_def
  teadfs_file_to_private_def teadfs_file_to_lower_def teadfs_dentry_to_private_def
  teadfs_set_dentry_private_def teadfs_get_lower_path_def teadfs_put_lower_path_def
  teadfs_set_lower_path_def wrapfs_put_reset_lower_path_def teadfs_inode_to_lower_def
  teadfs_set_inode_lower_def

text \<open>A dentry that has a lower path: its private block is live and names a lower dentry.\<close>

definition path_of :: "'w st \<Rightarrow> ptr \<Rightarrow> (ptr \<times> ptr) option" where
  "path_of s dent = (case dentry_of (heap s (d_fsdata s dent)) of
     None \<Rightarrow> None
   | Some x \<Rightarrow> if lower_path_dentry x = 0 \<or> IS_ERR (lower_path_dentry x) then None
              else Some (lower_path_dentry x, lower_path_mnt x))"

lemma path_of_upd [simp]:
  "path_of (s\<lparr>world := w\<rparr>) d = path_of s d" "path_of (s\<lparr>trace := tr\<rparr>) d = path_of s d"
  by (simp_all add: path_of_def)

abbreviation dentry_section :: "'w st \<Rightarrow> ptr \<Rightarrow> (kcall \<times> int) list" where
  "dentry_section s dent \<equiv> [(K_lock (L_dentry_info (d_fsdata s dent)), 0),
     (K_unlock (L_dentry_info (d_fsdata s dent)), 0)]"

lemma wp_get_lower_path [wp_simps]:
  "path_of s dent = Some path \<Longrightarrow>
     wp (teadfs_get_lower_path dent) Q s = Q path (s\<lparr>trace := trace s @ dentry_section s dent\<rparr>)"
  by (simp add: path_of_def lower_path_defs wp_simps split: option.splits if_splits)

lemma wp_put_lower_path [wp_simps]:
  "path_of s dent = Some path \<Longrightarrow>
     wp (teadfs_put_lower_path dent) Q s = Q () (s\<lparr>trace := trace s @ dentry_section s dent\<rparr>)"
  by (simp add: path_of_def lower_path_defs wp_simps split: option.splits if_splits)

lemma holds_get_lower_path [holds_intros]:
  "(\<And>p. L_dentry_info p \<notin> H) \<Longrightarrow> holds H (teadfs_get_lower_path d) H"
  unfolding lower_path_defs by (rule holds_intros | simp)+

lemma holds_put_lower_path [holds_intros]:
  "(\<And>p. L_dentry_info p \<notin> H) \<Longrightarrow> holds H (teadfs_put_lower_path d) H"
  unfolding lower_path_defs by (rule holds_intros | simp)+

lemma holds_set_lower_path [holds_intros]:
  "(\<And>p. L_dentry_info p \<notin> H) \<Longrightarrow> holds H (teadfs_set_lower_path d x) H"
  unfolding lower_path_defs by (rule holds_intros | simp)+

lemma holds_put_reset_lower_path [holds_intros]:
  "(\<And>p. L_dentry_info p \<notin> H) \<Longrightarrow> holds H (wrapfs_put_reset_lower_path K d) H"
  unfolding lower_path_defs by (rule holds_intros | simp)+

lemma holds_sizes [holds_intros]:
  "holds H (i_size_read a) H"
  "holds H (i_size_write a n) H"
  "holds H (fsstack_copy_inode_size K a b) H"
  unfolding i_size_read_def i_size_write_def fsstack_copy_inode_size_def
  by (rule holds_intros | simp)+

lemma holds_accessors [holds_intros]:
  "holds H (teadfs_get_super_block a) H"
  "holds H (teadfs_set_superblock_lower a b) H"
  "holds H (teadfs_superblock_to_lower a) H"
  "holds H (teadfs_set_lower_super a b) H"
  "holds H (teadfs_set_file_private a b) H"
  "holds H (teadfs_file_to_private a) H"
  "holds H (teadfs_file_to_lower a) H"
  "holds H (teadfs_dentry_to_private a) H"
  "holds H (teadfs_set_dentry_private a b) H"
  "holds H (teadfs_inode_to_lower a) H"
  "holds H (teadfs_set_inode_lower a b) H"
  unfolding lower_path_defs by (rule holds_intros | simp)+

context neutral_monitor
begin

lemma mon_lower_paths [mon_intros]:
  "mon step H (teadfs_get_lower_path d) (\<lambda>_. H)"
  "mon step H (teadfs_put_lower_path d) (\<lambda>_. H)"
  "mon step H (teadfs_set_lower_path d x) (\<lambda>_. H)"
  "mon step H (teadfs_get_super_block a) (\<lambda>_. H)"
  "mon step H (teadfs_set_superblock_lower a b) (\<lambda>_. H)"
  "mon step H (teadfs_superblock_to_lower a) (\<lambda>_. H)"
  "mon step H (teadfs_set_lower_super a b) (\<lambda>_. H)"
  "mon step H (teadfs_set_file_private a b) (\<lambda>_. H)"
  "mon step H (teadfs_file_to_private a) (\<lambda>_. H)"
  "mon step H (teadfs_file_to_lower a) (\<lambda>_. H)"
  "mon step H (teadfs_dentry_to_private a) (\<lambda>_. H)"
  "mon step H (teadfs_set_dentry_private a b) (\<lambda>_. H)"
  "mon step H (teadfs_inode_to_lower a) (\<lambda>_. H)"
  "mon step H (teadfs_set_inode_lower a b) (\<lambda>_. H)"
  "mon step H (i_size_read a) (\<lambda>_. H)"
  "mon step H (i_size_write a n) (\<lambda>_. H)"
  unfolding lower_path_defs i_size_read_def i_size_write_def by (rule mon_intros | simp)+

end

context outer_view
begin

lemma keeps_lower_paths [keeps_intros]:
  "keeps g (teadfs_get_lower_path d)"
  "keeps g (teadfs_put_lower_path d)"
  "keeps g (teadfs_set_lower_path d x)"
  "keeps g (teadfs_get_super_block a)"
  "keeps g (teadfs_set_superblock_lower a b)"
  "keeps g (teadfs_superblock_to_lower a)"
  "keeps g (teadfs_file_to_private a)"
  "keeps g (teadfs_file_to_lower a)"
  "keeps g (teadfs_dentry_to_private a)"
  "keeps g (teadfs_inode_to_lower a)"
  "keeps g (teadfs_set_inode_lower a b)"
  "keeps g (i_size_read a)"
  unfolding lower_path_defs i_size_read_def by (rule keeps_intros | simp)+

end

end
