(* ===== verification/File_Ops.thy ===== *)
theory File_Ops
  imports User_Com Lower_Path
begin

text \<open>
  The file operations of the upper file system (\<open>file.c\<close>): opening asks the client for the
  access mode and opens the lower file, releasing tells the client and drops the lower file,
  everything else is forwarded. The generic kernel routines the operations call
  (\<open>generic_file_aio_read\<close> and so on) are kernel calls; the page operations they lead back into
  are in the theory of \<open>mmap.c\<close>.
\<close>

unbundle bit_operations_syntax

definition O_WRONLY :: int where "O_WRONLY = 1"
definition O_RDWR :: int where "O_RDWR = 2"
definition O_ACCMODE :: int where "O_ACCMODE = 3"
definition O_LARGEFILE :: int where "O_LARGEFILE = 32768"
definition GFP_HIGHUSER_MOVABLE :: int where "GFP_HIGHUSER_MOVABLE = 0x200DA"

lemmas open_flag_defs = O_WRONLY_def O_RDWR_def O_ACCMODE_def O_LARGEFILE_def

definition S_IFMT :: int where "S_IFMT = 0xF000"
definition S_ISREG :: "int \<Rightarrow> bool" where "S_ISREG m \<longleftrightarrow> m AND S_IFMT = 0x8000"

section \<open>Address spaces\<close>

text \<open>Reading the \<open>struct address_space\<close> a file currently uses.\<close>

definition read_mapping :: "'w kernel \<Rightarrow> mapping \<Rightarrow> ('w, address_space) op" where
  "read_mapping K m = (case m of
     M_decrypt i \<Rightarrow> do { x \<leftarrow> load inode_of zero_inode_info i; ret (i_decrypt x) }
   | M_data p \<Rightarrow> do {
       ops \<leftarrow> call_rv K (K_load F_a_ops p);
       h \<leftarrow> call_rv K (K_load F_as_host p);
       fl \<leftarrow> call_rv K (K_load F_as_flags p);
       bdi \<leftarrow> call_rv K (K_load F_as_bdi p);
       wb \<leftarrow> call_rv K (K_load F_as_writeback_index p);
       ret \<lparr>a_ops = ops, host = h, as_flags = fl, gfp_mask = 0, as_private_data = 0,
         backing_dev_info = bdi, writeback_index = wb\<rparr>
     })"

definition teadfs_replace_copy_address_space :: "'w kernel \<Rightarrow> ptr \<Rightarrow> mapping \<Rightarrow> ('w, unit) op" where
  "teadfs_replace_copy_address_space K dst src_m = do {
     src \<leftarrow> read_mapping K src_m;
     store inode_of B_inode (\<lambda>x. x\<lparr>i_decrypt := (i_decrypt x)\<lparr>a_ops := a_ops src, host := host src,
       as_flags := as_flags src, gfp_mask := GFP_HIGHUSER_MOVABLE, as_private_data := 0,
       backing_dev_info := backing_dev_info src, writeback_index := writeback_index src\<rparr>\<rparr>) dst
   }"

section \<open>Opening and closing the lower file\<close>

definition teadfs_get_lower_file :: "'w kernel \<Rightarrow> ptr \<Rightarrow> ptr \<Rightarrow> int \<Rightarrow> ('w, ptr) op" where
  "teadfs_get_lower_file K dentry inode flags = do {
     lower_path \<leftarrow> teadfs_get_lower_path dentry;
     kpid0 \<leftarrow> gets cur_pid;
     cp \<leftarrow> teadfs_get_client_pid;
     let kpid = (if kpid0 = cp then 0 else kpid0);
     file \<leftarrow> (if kpid \<noteq> 0 \<and> inode \<noteq> 0 then do {
         emit (K_lock (L_lower_file inode));
         store inode_of B_inode (\<lambda>x. x\<lparr>lower_file_count := lower_file_count x + 1\<rparr>) inode;
         x \<leftarrow> load inode_of zero_inode_info inode;
         file \<leftarrow> (if lower_file_count x < 1 then ret (- EINVAL)
           else do {
             f \<leftarrow> call_rv K (K_io (K_dentry_open (fst lower_path) (snd lower_path) flags));
             (if IS_ERR f then store inode_of B_inode (\<lambda>x. x\<lparr>lower_file_count := 0\<rparr>) inode
              else ret ());
             ret f
           });
         emit (K_unlock (L_lower_file inode));
         ret file
       }
       else call_rv K (K_io (K_dentry_open (fst lower_path) (snd lower_path) flags)));
     teadfs_put_lower_path dentry;
     ret file
   }"

text \<open>
  \<open>atomic_dec_and_mutex_lock\<close>: decrement, and take the mutex iff the count reached zero.
\<close>

definition atomic_dec_and_mutex_lock :: "ptr \<Rightarrow> ('w, bool) op" where
  "atomic_dec_and_mutex_lock inode = do {
     x \<leftarrow> load inode_of zero_inode_info inode;
     if lower_file_count x = 1 then do {
       emit (K_lock (L_lower_file inode));
       store inode_of B_inode (\<lambda>x. x\<lparr>lower_file_count := 0\<rparr>) inode;
       ret True
     }
     else do {
       store inode_of B_inode (\<lambda>x. x\<lparr>lower_file_count := lower_file_count x - 1\<rparr>) inode;
       ret False
     }
   }"

definition filemap_write_and_wait :: "'w kernel \<Rightarrow> ptr \<Rightarrow> ('w, int) op" where
  "filemap_write_and_wait K file = do {
     m \<leftarrow> gets (\<lambda>s. f_mapping s file);
     call_rv K (K_io (K_filemap_write_and_wait m))
   }"

definition teadfs_put_lower_file :: "'w kernel \<Rightarrow> ptr \<Rightarrow> ptr \<Rightarrow> ('w, unit) op" where
  "teadfs_put_lower_file K inode file = do {
     lower_file \<leftarrow> teadfs_file_to_lower file;
     kpid0 \<leftarrow> gets cur_pid;
     cp \<leftarrow> teadfs_get_client_pid;
     let kpid = (if kpid0 = cp then 0 else kpid0);
     if kpid \<noteq> 0 \<and> inode \<noteq> 0 then do {
       dentry \<leftarrow> f_dentry K file;
       lower_path \<leftarrow> teadfs_get_lower_path dentry;
       last \<leftarrow> atomic_dec_and_mutex_lock inode;
       (if last then do {
          (if fst lower_path = 0 \<or> snd lower_path = 0 then do {
             filemap_write_and_wait K file;
             call K (K_ref (K_path_get lower_file));
             call K (K_ref (K_fput lower_file));
             call K (K_ref (K_path_put lower_file 0));
             ret ()
           }
           else ret ());
          mode \<leftarrow> call_rv K (K_load F_i_mode inode);
          (if S_ISREG mode then do {
             p \<leftarrow> teadfs_file_to_private file;
             fi \<leftarrow> load file_of zero_file_info p;
             teadfs_request_release K (file_path fi) (nat (file_path_length fi)) file;
             ret ()
           }
           else ret ());
          emit (K_unlock (L_lower_file inode))
        }
        else ret ());
       teadfs_put_lower_path dentry
     }
     else do {
       (if inode \<noteq> 0 then do { filemap_write_and_wait K file; ret () } else ret ());
       call K (K_ref (K_fput lower_file));
       ret ()
     }
   }"

section \<open>Reading and writing\<close>

text \<open>The generic routines; a request queued by the kernel is waited for.\<close>

definition teadfs_aio_read_update_atime :: "'w kernel \<Rightarrow> ptr \<Rightarrow> nat \<Rightarrow> int \<Rightarrow> ('w, int) op" where
  "teadfs_aio_read_update_atime K file count pos = do {
     p \<leftarrow> teadfs_file_to_private file;
     dentry \<leftarrow> f_dentry K file;
     lower_path \<leftarrow> teadfs_get_lower_path dentry;
     rc0 \<leftarrow> call_rv K (K_io (K_generic_file_aio_read file count pos));
     rc \<leftarrow> (if - EIOCBQUEUED = rc0 then call_rv K (K_io (K_wait_on_sync_kiocb file)) else ret rc0);
     (if rc \<ge> 0 then do {
        call K (K_io (K_touch_atime (fst lower_path) (snd lower_path)));
        ret ()
      }
      else ret ());
     fi \<leftarrow> load file_of zero_file_info p;
     let rc' = (if OFR_DECRYPT = access fi then rc - ENCRYPT_FILE_HEADER_SIZE else rc);
     teadfs_put_lower_path dentry;
     ret rc'
   }"

definition teadfs_aio_write :: "'w kernel \<Rightarrow> ptr \<Rightarrow> bytes \<Rightarrow> int \<Rightarrow> ('w, int) op" where
  "teadfs_aio_write K file data pos = do {
     p \<leftarrow> teadfs_file_to_private file;
     rc0 \<leftarrow> call_rv K (K_io (K_generic_file_aio_write file data pos));
     rc \<leftarrow> (if - EIOCBQUEUED = rc0 then call_rv K (K_io (K_wait_on_sync_kiocb file)) else ret rc0);
     fi \<leftarrow> load file_of zero_file_info p;
     (if OFR_DECRYPT = access fi then do {
        lower_inode \<leftarrow> call_rv K (K_load F_f_inode (lower_file fi));
        call K (K_io (K_invalidate_remote_inode lower_inode));
        inode \<leftarrow> f_inode K file;
        call K (K_io (K_invalidate_remote_inode inode));
        ret ()
      }
      else ret ());
     ret rc
   }"

section \<open>Directories\<close>

text \<open>
  The callback counts the entries it saw and those the caller's \<open>filldir\<close> took. The kernel
  calls it once per entry; \<open>rdata\<close> of the call lists the results of the caller's \<open>filldir\<close>.
\<close>

record teadfs_getdents_callback =
  filldir_called :: nat
  entries_written :: nat

definition teadfs_filldir :: "int \<Rightarrow> teadfs_getdents_callback \<Rightarrow> teadfs_getdents_callback" where
  "teadfs_filldir rc buf =
     (let buf = buf\<lparr>filldir_called := filldir_called buf + 1\<rparr>
      in if rc \<ge> 0 then buf\<lparr>entries_written := entries_written buf + 1\<rparr> else buf)"

definition teadfs_readdir :: "'w kernel \<Rightarrow> ptr \<Rightarrow> ('w, int) op" where
  "teadfs_readdir K file = do {
     lower_file \<leftarrow> teadfs_file_to_lower file;
     pos \<leftarrow> call_rv K (K_load F_f_pos file);
     call K (K_io (K_set_f_pos lower_file pos));
     inode \<leftarrow> f_inode K file;
     r \<leftarrow> call K (K_io (K_readdir lower_file pos));
     let rc = rv r;
     let buf = fold (\<lambda>b. teadfs_filldir (sint b)) (rdata r)
       \<lparr>filldir_called = 0, entries_written = 0\<rparr>;
     pos' \<leftarrow> call_rv K (K_load F_f_pos lower_file);
     call K (K_io (K_set_f_pos file pos'));
     if rc < 0 then ret rc
     else if filldir_called buf \<noteq> 0 \<and> entries_written buf = 0 then ret rc
     else do {
       lower_inode \<leftarrow> call_rv K (K_load F_f_inode lower_file);
       call K (K_attr (K_copy_attr_atime inode lower_inode));
       ret rc
     }
   }"

section \<open>Open\<close>

definition teadfs_open :: "'w kernel \<Rightarrow> ptr \<Rightarrow> ptr \<Rightarrow> ('w, int) op" where
  "teadfs_open K inode file = do {
     dentry \<leftarrow> f_dentry K file;
     rc \<leftarrow> do {
       file_info \<leftarrow> teadfs_zalloc K 40 (B_file zero_file_info);
       teadfs_set_file_private file file_info;
       if file_info = 0 then ret (- ENOMEM)
       else do {
         store file_of B_file (\<lambda>_. \<lparr>lower_file = 0, access = OFR_INIT, file_path = 0,
           file_path_length = 0, file_path_buf = 0\<rparr>) file_info;
         emit (K_lock (L_lower_file inode));
         store inode_of B_inode (\<lambda>x. x\<lparr>file_decrypt :=
           (if OFR_ENCRYPT = OFR_INIT then 1 else if OFR_DECRYPT = OFR_INIT then 1 else 0)\<rparr>) inode;
         emit (K_unlock (L_lower_file inode));
         mode \<leftarrow> call_rv K (K_load F_i_mode inode);
         access' \<leftarrow> (if S_ISREG mode then teadfs_request_open_file K file file_info else ret OFR_INIT);
         if S_ISREG mode \<and> OFR_PROHIBIT = access' then ret (- EACCES)
         else do {
           f_flags \<leftarrow> call_rv K (K_load F_f_flags file);
           let flags = O_LARGEFILE OR f_flags;
           let flags = (if flags AND O_ACCMODE = O_WRONLY then (flags XOR O_WRONLY) OR O_RDWR else flags);
           lf \<leftarrow> teadfs_get_lower_file K dentry inode flags;
           store file_of B_file (\<lambda>x. x\<lparr>lower_file := lf\<rparr>) file_info;
           if IS_ERR lf then ret lf
           else do {
             store file_of B_file (\<lambda>x. x\<lparr>access := access'\<rparr>) file_info;
             (if OFR_DECRYPT = access' then do {
                m \<leftarrow> gets (\<lambda>s. f_mapping s file);
                teadfs_replace_copy_address_space K inode m;
                modify (\<lambda>s. s\<lparr>f_mapping := (f_mapping s)(file := M_decrypt inode)\<rparr>)
              }
              else ret ());
             ret 0
           }
         }
       }
     };
     (if rc \<noteq> 0 then do {
        p \<leftarrow> teadfs_file_to_private file;
        teadfs_free p;
        teadfs_set_file_private file 0
      }
      else ret ());
     ret rc
   }"

section \<open>The rest of the file operations\<close>

definition teadfs_flush :: "'w kernel \<Rightarrow> ptr \<Rightarrow> ptr \<Rightarrow> ('w, int) op" where
  "teadfs_flush K file td = do {
     lower_file \<leftarrow> teadfs_file_to_lower file;
     has_flush \<leftarrow> call_rv K (K_load F_op_flush lower_file);
     if has_flush \<noteq> 0 then do {
       filemap_write_and_wait K file;
       call_rv K (K_io (K_flush lower_file td))
     }
     else ret 0
   }"

definition teadfs_release :: "'w kernel \<Rightarrow> ptr \<Rightarrow> ptr \<Rightarrow> ('w, int) op" where
  "teadfs_release K inode file = do {
     file_info \<leftarrow> teadfs_file_to_private file;
     (if file_info \<noteq> 0 then do {
        teadfs_put_lower_file K inode file;
        fi \<leftarrow> load file_of zero_file_info file_info;
        (if file_path_buf fi \<noteq> 0 then do {
           teadfs_free (file_path_buf fi);
           store file_of B_file (\<lambda>x. x\<lparr>file_path_buf := 0\<rparr>) file_info
         }
         else ret ());
        teadfs_set_file_private file 0;
        teadfs_free file_info
      }
      else ret ());
     ret 0
   }"

definition teadfs_file_llseek :: "'w kernel \<Rightarrow> ptr \<Rightarrow> int \<Rightarrow> int \<Rightarrow> ('w, int) op" where
  "teadfs_file_llseek K file offset whence = call_rv K (K_io (K_llseek file offset whence))"

definition teadfs_fsync :: "'w kernel \<Rightarrow> ptr \<Rightarrow> int \<Rightarrow> ('w, int) op" where
  "teadfs_fsync K file datasync = do {
     dentry \<leftarrow> f_dentry K file;
     lower_path \<leftarrow> teadfs_get_lower_path dentry;
     rc0 \<leftarrow> filemap_write_and_wait K file;
     rc \<leftarrow> (if rc0 \<noteq> 0 then ret rc0
       else do {
         lower_file \<leftarrow> teadfs_file_to_lower file;
         call_rv K (K_io (K_vfs_fsync lower_file datasync))
       });
     teadfs_put_lower_path dentry;
     ret rc
   }"

definition teadfs_fasync :: "'w kernel \<Rightarrow> int \<Rightarrow> ptr \<Rightarrow> int \<Rightarrow> ('w, int) op" where
  "teadfs_fasync K fd file flag = do {
     lower_file \<leftarrow> teadfs_file_to_lower file;
     has \<leftarrow> call_rv K (K_load F_op_fasync lower_file);
     if has \<noteq> 0 then call_rv K (K_io (K_fasync fd lower_file flag)) else ret 0
   }"

text \<open>The lower file of the two ioctls: none when the file has no private data.\<close>

definition ioctl_lower :: "ptr \<Rightarrow> ('w, ptr) op" where
  "ioctl_lower file = do {
     p \<leftarrow> teadfs_file_to_private file;
     if p \<noteq> 0 then teadfs_file_to_lower file else ret 0
   }"

definition teadfs_unlocked_ioctl :: "'w kernel \<Rightarrow> ptr \<Rightarrow> int \<Rightarrow> int \<Rightarrow> ('w, int) op" where
  "teadfs_unlocked_ioctl K file cmd arg = do {
     lower_file \<leftarrow> ioctl_lower file;
     has \<leftarrow> (if lower_file \<noteq> 0 then call_rv K (K_load F_op_ioctl lower_file) else ret 0);
     if has \<noteq> 0 then call_rv K (K_io (K_ioctl lower_file cmd arg)) else ret (- ENOTTY)
   }"

definition teadfs_compat_ioctl :: "'w kernel \<Rightarrow> ptr \<Rightarrow> int \<Rightarrow> int \<Rightarrow> ('w, int) op" where
  "teadfs_compat_ioctl K file cmd arg = do {
     lower_file \<leftarrow> ioctl_lower file;
     has \<leftarrow> (if lower_file \<noteq> 0 then call_rv K (K_load F_op_compat_ioctl lower_file) else ret 0);
     if has \<noteq> 0 then call_rv K (K_io (K_compat_ioctl lower_file cmd arg)) else ret (- ENOIOCTLCMD)
   }"

section \<open>Lemmas\<close>

context outer_view
begin

lemma keeps_lower_file [keeps_intros]:
  "keeps g (teadfs_get_lower_file K d i fl)"
  "keeps g (atomic_dec_and_mutex_lock i)"
  "keeps g (filemap_write_and_wait K f)"
  unfolding teadfs_get_lower_file_def atomic_dec_and_mutex_lock_def filemap_write_and_wait_def
  by (rule keeps_intros | simp)+

lemma keeps_put_lower_file [keeps_intros]: "keeps g (teadfs_put_lower_file K i f)"
  unfolding teadfs_put_lower_file_def by (rule keeps_intros | simp)+

end

context neutral_monitor
begin

lemma mon_atomic_dec [mon_intros]: "mon step H (atomic_dec_and_mutex_lock i) (\<lambda>_. H)"
  unfolding atomic_dec_and_mutex_lock_def by (rule mon_intros | simp)+

end

end
