(* ===== verification/Mmap_Ops.thy ===== *)
theory Mmap_Ops
  imports File_Ops
begin

text \<open>
  The data path (\<open>mmap.c\<close>): reading and writing the lower file with the client in between,
  the page-cache operations built on that, and truncation. Pages are records of index, flag and
  contents; \<open>i_size\<close> is the size field of the upper inode.
\<close>

section \<open>The lower file\<close>

text \<open>
  \<open>data\<close> is the caller's buffer; the result is the return code and the buffer's new contents.
\<close>

definition teadfs_read_lower :: "'w kernel \<Rightarrow> bytes \<Rightarrow> int \<Rightarrow> nat \<Rightarrow> ptr \<Rightarrow> ('w, int \<times> bytes) op" where
  "teadfs_read_lower K data offset n file = do {
     p \<leftarrow> teadfs_file_to_private file;
     file_info \<leftarrow> load file_of zero_file_info p;
     if lower_file file_info = 0 then ret (- EIO, data)
     else do {
       let offset = (if OFR_DECRYPT = access file_info then offset + ENCRYPT_FILE_HEADER_SIZE else offset);
       r \<leftarrow> call K (K_io (K_kernel_read (lower_file file_info) offset n));
       let rc = rv r;
       let data = put_at 0 (take n (rdata r)) data;
       if rc < 0 then ret (rc, data)
       else if OFR_DECRYPT = access file_info then do {
         (encrypt_len, data') \<leftarrow> teadfs_request_read K offset (take (nat rc) data) data (int n);
         if encrypt_len \<le> 0 then ret (rc, data') else ret (encrypt_len, data')
       }
       else ret (rc, data)
     }
   }"

text \<open>
  What is written and where: under \<open>OFR_DECRYPT\<close> the client's bytes behind the header, otherwise
  the data as they are. A negative code means that nothing is written.
\<close>

definition write_payload :: "'w kernel \<Rightarrow> int \<Rightarrow> bytes \<Rightarrow> int \<Rightarrow> ptr \<Rightarrow> ('w, int \<times> bytes \<times> int) op" where
  "write_payload K acc data offset buf =
     (if OFR_DECRYPT = acc then do {
        (encrypt_len, out) \<leftarrow> teadfs_request_write K offset data (replicate (length data) 0) (int (length data));
        poke buf 0 out;
        if encrypt_len < 0 then ret (- EIO, data, offset)
        else do {
          d \<leftarrow> peek K buf 0 (nat encrypt_len);
          ret (0, d, offset + ENCRYPT_FILE_HEADER_SIZE)
        }
      }
      else ret (0, data, offset))"

definition teadfs_write_lower :: "'w kernel \<Rightarrow> ptr \<Rightarrow> bytes \<Rightarrow> int \<Rightarrow> ('w, int) op" where
  "teadfs_write_lower K file data offset = do {
     p \<leftarrow> teadfs_file_to_private file;
     file_info \<leftarrow> load file_of zero_file_info p;
     (rc, buf) \<leftarrow> (if lower_file file_info = 0 then ret (- EIO, 0)
       else do {
         let n = length data;
         buf \<leftarrow> teadfs_zalloc K n (B_raw (replicate n 0));
         if buf = 0 then ret (- EIO, buf)
         else if OFR_ENCRYPT = access file_info then ret (- EIO, buf)
         else do {
           (rc0, data', offset') \<leftarrow> write_payload K (access file_info) data offset buf;
           if rc0 < 0 then ret (rc0, buf)
           else do {
             rc \<leftarrow> call_rv K (K_io (K_kernel_write (lower_file file_info) data' offset'));
             if rc < 0 then ret (rc, buf)
             else do {
               inode \<leftarrow> f_inode K file;
               call K (K_attr (K_mark_inode_dirty_sync inode));
               ret (rc, buf)
             }
           }
         }
       });
     free_if buf;
     ret rc
   }"

section \<open>Pages\<close>

definition set_page :: "ptr \<Rightarrow> (page \<Rightarrow> page) \<Rightarrow> ('w, unit) op" where
  "set_page p f = modify (\<lambda>s. s\<lparr>pages := (pages s)(p := f (pages s p))\<rparr>)"

definition page_call :: "'w kernel \<Rightarrow> page_call \<Rightarrow> ('w, unit) op" where
  "page_call K c = do { call K (K_page c); ret () }"

text \<open>Filling a page from the lower file, as \<open>readpage\<close> and \<open>write_begin\<close> both do.\<close>

definition fill_page :: "'w kernel \<Rightarrow> ptr \<Rightarrow> ptr \<Rightarrow> int \<Rightarrow> ('w, int) op" where
  "fill_page K file page offset = do {
     virt \<leftarrow> gets (\<lambda>s. pg_data (pages s page));
     (rc0, virt') \<leftarrow> teadfs_read_lower K virt offset PAGE_CACHE_SIZE file;
     set_page page (\<lambda>g. g\<lparr>pg_data := virt'\<rparr>);
     let rc = (if rc0 > 0 then 0 else rc0);
     page_call K (K_flush_dcache_page page);
     (if rc \<noteq> 0 then set_page page (\<lambda>g. g\<lparr>pg_uptodate := False\<rparr>)
      else set_page page (\<lambda>g. g\<lparr>pg_uptodate := True\<rparr>));
     ret rc
   }"

definition teadfs_readpage :: "'w kernel \<Rightarrow> ptr \<Rightarrow> ptr \<Rightarrow> ('w, int) op" where
  "teadfs_readpage K file page = do {
     index \<leftarrow> gets (\<lambda>s. pg_index (pages s page));
     rc \<leftarrow> fill_page K file page (int (index * 2 ^ PAGE_CACHE_SHIFT));
     page_call K (K_unlock_page page);
     ret rc
   }"

definition teadfs_get_locked_page :: "'w kernel \<Rightarrow> ptr \<Rightarrow> int \<Rightarrow> ('w, ptr) op" where
  "teadfs_get_locked_page K inode index = do {
     page \<leftarrow> call_rv K (K_page (K_read_mapping_page inode index));
     (if \<not> IS_ERR page then page_call K (K_lock_page page) else ret ());
     ret page
   }"

section \<open>Truncation\<close>

definition teadfs_write :: "'w kernel \<Rightarrow> ptr \<Rightarrow> ptr \<Rightarrow> bytes \<Rightarrow> int \<Rightarrow> ('w, int) op" where
  "teadfs_write K dentry ecryptfs_inode data offset = do {
     ecryptfs_file_size \<leftarrow> i_size_read ecryptfs_inode;
     file_info \<leftarrow> push_local (B_file zero_file_info);
     file \<leftarrow> push_local (B_vfile dentry ecryptfs_inode);
     lower_path \<leftarrow> teadfs_get_lower_path dentry;
     teadfs_set_file_private file file_info;
     let pos = (if offset > ecryptfs_file_size then ecryptfs_file_size else offset);
     acc \<leftarrow> teadfs_request_open_path K (fst lower_path) (snd lower_path);
     store file_of B_file (\<lambda>x. x\<lparr>access := acc\<rparr>) file_info;
     lf \<leftarrow> teadfs_get_lower_file K dentry 0 O_RDWR;
     store file_of B_file (\<lambda>x. x\<lparr>lower_file := lf\<rparr>) file_info;
     rc \<leftarrow> (if IS_ERR lf then ret lf
       else do {
         rc \<leftarrow> teadfs_write_lower K file data pos;
         if rc < 0 then ret rc
         else do {
           teadfs_put_lower_file K 0 file;
           let pos' = pos + int (length data);
           (if pos' > ecryptfs_file_size then i_size_write ecryptfs_inode pos' else ret ());
           ret 0
         }
       });
     teadfs_put_lower_path dentry;
     pop_local file;
     pop_local file_info;
     ret rc
   }"

record iattr =
  ia_valid :: int
  ia_size :: int
  ia_file :: ptr

definition ATTR_SIZE :: int where "ATTR_SIZE = 8"

text \<open>The loop that writes zeros, a page at a time.\<close>

function truncate_loop :: "'w kernel \<Rightarrow> ptr \<Rightarrow> ptr \<Rightarrow> ptr \<Rightarrow> int \<Rightarrow> int \<Rightarrow> int \<Rightarrow> int \<Rightarrow> ('w, int) op" where
  "truncate_loop K dentry inode buf new_size total_size truncate_pos rc =
     (if truncate_pos < total_size then do {
        let rest = total_size - truncate_pos;
        let current_write_len = (if rest > int PAGE_CACHE_SIZE then int PAGE_CACHE_SIZE else rest);
        data \<leftarrow> peek K buf 0 (nat current_write_len);
        rc' \<leftarrow> teadfs_write K dentry inode data (new_size + truncate_pos);
        if rc' < 0 then ret rc'
        else truncate_loop K dentry inode buf new_size total_size (truncate_pos + int PAGE_CACHE_SIZE) rc'
      }
      else ret rc)"
  by auto
termination
  by (relation "measure (\<lambda>(K, dentry, inode, buf, new_size, total_size, pos, rc). nat (total_size - pos))")
    (auto simp: PAGE_CACHE_SIZE_def)

declare truncate_loop.simps [simp del]

definition truncate_upper :: "'w kernel \<Rightarrow> ptr \<Rightarrow> iattr \<Rightarrow> iattr \<Rightarrow> ('w, int \<times> iattr) op" where
  "truncate_upper K dentry ia lower_ia = do {
     inode \<leftarrow> call_rv K (K_load F_d_inode dentry);
     i_size \<leftarrow> i_size_read inode;
     if ia_size ia = i_size then ret (0, lower_ia\<lparr>ia_valid := ia_valid lower_ia AND NOT ATTR_SIZE\<rparr>)
     else if ia_size ia > i_size then do {
       let lower_ia = lower_ia\<lparr>ia_valid := ia_valid lower_ia AND NOT ATTR_SIZE\<rparr>;
       let total_truncate_size = ia_size ia - i_size;
       buf \<leftarrow> teadfs_zalloc K PAGE_CACHE_SIZE (B_raw (replicate PAGE_CACHE_SIZE 0));
       if buf = 0 then ret (- ENOMEM, lower_ia)
       else do {
         rc \<leftarrow> truncate_loop K dentry inode buf (ia_size ia) total_truncate_size 0 0;
         teadfs_free buf;
         ret (rc, lower_ia)
       }
     }
     else do {
       page_call K (K_truncate_setsize inode (ia_size ia));
       i_size_write inode (ia_size ia);
       ret (0, lower_ia\<lparr>ia_size := ia_size ia, ia_valid := ia_valid lower_ia OR ATTR_SIZE\<rparr>)
     }
   }"

definition teadfs_truncate :: "'w kernel \<Rightarrow> ptr \<Rightarrow> int \<Rightarrow> ('w, int) op" where
  "teadfs_truncate K dentry new_length = do {
     lower_path \<leftarrow> teadfs_get_lower_path dentry;
     (rc, lower_ia) \<leftarrow> truncate_upper K dentry \<lparr>ia_valid = ATTR_SIZE, ia_size = new_length, ia_file = 0\<rparr>
       \<lparr>ia_valid = 0, ia_size = 0, ia_file = 0\<rparr>;
     rc' \<leftarrow> (if rc = 0 \<and> ia_valid lower_ia AND ATTR_SIZE \<noteq> 0 then do {
         emit (K_lock (L_i_mutex (fst lower_path)));
         rc' \<leftarrow> call_rv K (K_vfs (K_notify_change (fst lower_path) (ia_valid lower_ia) (ia_size lower_ia)));
         emit (K_unlock (L_i_mutex (fst lower_path)));
         ret rc'
       }
       else ret rc);
     teadfs_put_lower_path dentry;
     ret rc'
   }"

section \<open>Address-space operations\<close>

text \<open>
  \<open>host_inode\<close> is the inode of the mapping; \<open>pagep\<close> is the old value of the output pointer, which
  the code leaves alone when no page can be had.
\<close>

definition treadfs_write_begin ::
  "'w kernel \<Rightarrow> ptr \<Rightarrow> ptr \<Rightarrow> nat \<Rightarrow> int \<Rightarrow> ptr \<Rightarrow> ('w, int \<times> ptr) op"
where
  "treadfs_write_begin K file host_inode pos flags pagep = do {
     let index = pos div 2 ^ PAGE_CACHE_SHIFT;
     page \<leftarrow> call_rv K (K_page (K_grab_cache_page_write_begin host_inode index flags));
     if page = 0 then ret (- ENOMEM, pagep)
     else do {
       let prev_page_end_size = int (index * 2 ^ PAGE_CACHE_SHIFT);
       up \<leftarrow> gets (\<lambda>s. pg_uptodate (pages s page));
       rc0 \<leftarrow> (if \<not> up then fill_page K file page (int (index * 2 ^ PAGE_CACHE_SHIFT)) else ret 0);
       rc \<leftarrow> (if rc0 \<noteq> 0 then ret rc0
         else do {
           sz \<leftarrow> i_size_read host_inode;
           rc1 \<leftarrow> (if index \<noteq> 0 \<and> prev_page_end_size > sz then do {
               dentry \<leftarrow> f_dentry K file;
               teadfs_truncate K dentry prev_page_end_size
             }
             else ret 0);
           if rc1 \<noteq> 0 then ret rc1
           else do {
             sz' \<leftarrow> i_size_read host_inode;
             (if sz' = prev_page_end_size \<and> pos \<noteq> 0
              then set_page page (\<lambda>g. g\<lparr>pg_data := replicate PAGE_CACHE_SIZE 0\<rparr>) else ret ());
             ret 0
           }
         });
       if rc \<noteq> 0 then do {
         page_call K (K_unlock_page page);
         page_call K (K_page_cache_release page);
         ret (rc, 0)
       }
       else ret (rc, page)
     }
   }"

definition page_bytes :: "ptr \<Rightarrow> nat \<Rightarrow> nat \<Rightarrow> ('w, bytes) op" where
  "page_bytes page start n = do {
     virt \<leftarrow> gets (\<lambda>s. pg_data (pages s page));
     if start + n \<le> length virt then ret (get_at start n virt)
     else do { raise_fault (Out_of_bounds page); ret (replicate n 0) }
   }"

definition teadfs_write_end ::
  "'w kernel \<Rightarrow> ptr \<Rightarrow> ptr \<Rightarrow> nat \<Rightarrow> nat \<Rightarrow> nat \<Rightarrow> ptr \<Rightarrow> ('w, int) op"
where
  "teadfs_write_end K file host_inode pos len copied0 page = do {
     let start = pos mod PAGE_CACHE_SIZE;
     up \<leftarrow> gets (\<lambda>s. pg_uptodate (pages s page));
     let copied = (if copied0 < len \<and> \<not> up then 0 else copied0);
     data \<leftarrow> page_bytes page start copied;
     rc0 \<leftarrow> teadfs_write_lower K file data (int pos);
     let rc1 = (if rc0 > 0 then 0 else rc0);
     rc \<leftarrow> (if rc1 = 0 then do {
         lower \<leftarrow> teadfs_inode_to_lower host_inode;
         fsstack_copy_inode_size K host_inode lower;
         ret (int copied)
       }
       else ret rc1);
     page_call K (K_unlock_page page);
     page_call K (K_page_cache_release page);
     ret rc
   }"

text \<open>The return value is a local variable that is never written.\<close>

definition teadfs_writepage :: "'w kernel \<Rightarrow> ptr \<Rightarrow> ('w, int) op" where
  "teadfs_writepage K page = do {
     rc \<leftarrow> stack_bytes K 4;
     set_page page (\<lambda>g. g\<lparr>pg_uptodate := True\<rparr>);
     page_call K (K_unlock_page page);
     ret (dec_int rc)
   }"

definition teadfs_bmap :: "'w kernel \<Rightarrow> ptr \<Rightarrow> int \<Rightarrow> ('w, int) op" where
  "teadfs_bmap K host_inode block = do {
     lower_inode \<leftarrow> teadfs_inode_to_lower host_inode;
     has \<leftarrow> call_rv K (K_load F_op_bmap lower_inode);
     if has \<noteq> 0 then call_rv K (K_page (K_bmap lower_inode block)) else ret 0
   }"

section \<open>Lemmas\<close>

context outer_view
begin

lemma keeps_lower_io [keeps_intros]:
  "keeps g (teadfs_read_lower K data off n f)"
  "keeps g (teadfs_write_lower K f data off)"
  "keeps g (page_call K c)"
  unfolding teadfs_read_lower_def teadfs_write_lower_def write_payload_def page_call_def
  by (rule keeps_intros | simp)+

end

end
