(* ===== verification/Request_Safety.thy ===== *)
theory Request_Safety
  imports User_Com
begin

text \<open>
  Memory safety of whole requests: opening, releasing, reading and writing through the client
  leave the channel of the other requests intact, for every behaviour of the kernel and every
  well-formed message that arrives meanwhile. Also the exact effect of the requests on the heap:
  what they free and what they leave behind.
\<close>

section \<open>Lemmas: whole requests\<close>

text \<open>
  What a request may do to the rest of the module: draw a message id, and otherwise nothing but
  what received messages do. In particular it adds no fault and changes no older block.
\<close>

definition req_ok :: "'w st \<Rightarrow> 'w st \<Rightarrow> bool" where
  "req_ok s t \<longleftrightarrow> delivered s (t\<lparr>unique_id := unique_id s\<rparr>)"

lemma resp_uid [simp]: "resp (t\<lparr>unique_id := i\<rparr>) = resp t"
  by (simp add: resp_def fun_eq_iff)

lemma chan_ok_uid [simp]: "chan_ok (t\<lparr>unique_id := i\<rparr>) = chan_ok t"
  by (simp add: chan_ok_def heap_ok_def answered_def)

lemma req_ok_refl: "chan_ok s \<Longrightarrow> req_ok s s"
  by (simp add: req_ok_def delivered_refl)

lemma delivered_req_ok: "delivered s t \<Longrightarrow> req_ok s t"
  by (auto simp: req_ok_def delivered_def frame_def)

lemma req_ok_chan_ok: "req_ok s t \<Longrightarrow> chan_ok t"
  by (auto simp: req_ok_def delivered_def)

lemma req_ok_queue: "req_ok s t \<Longrightarrow> msg_ctx_queue t = msg_ctx_queue s"
  by (simp add: req_ok_def delivered_def frame_def)

lemma req_ok_brk: "req_ok s t \<Longrightarrow> brk s \<le> brk t"
  by (simp add: req_ok_def delivered_def)

lemma req_ok_faults: "req_ok s t \<Longrightarrow> faults t = faults s"
  by (simp add: req_ok_def delivered_def frame_def)

lemma delivered_uid:
  "delivered s t \<Longrightarrow> delivered (s\<lparr>unique_id := i\<rparr>) (t\<lparr>unique_id := i\<rparr>)"
  by (simp add: delivered_def frame_def)

lemma req_ok_trans: "req_ok s t \<Longrightarrow> req_ok t u \<Longrightarrow> req_ok s u"
  unfolding req_ok_def
  using delivered_uid [of t "u\<lparr>unique_id := unique_id t\<rparr>" "unique_id s"] delivered_trans by fastforce

lemma delivered_cong2:
  assumes "chan_ok t" "frame t u" "heap u = heap t" "brk u = brk t"
  shows "delivered t u"
proof -
  have "msg_ctx_queue u = msg_ctx_queue t" using assms(2) by (simp add: frame_def)
  then have "chan_ok u" using assms chan_ok_cong by blast
  then show ?thesis using assms by (auto simp: delivered_def ctx_kept_def)
qed

lemma req_ok_cong:
  "req_ok s t \<Longrightarrow> frame t u \<Longrightarrow> heap u = heap t \<Longrightarrow> brk u = brk t \<Longrightarrow> req_ok s u"
  using req_ok_trans [OF _ delivered_req_ok [OF delivered_cong2]] req_ok_chan_ok by blast

lemma heap_ok_new:
  "heap_ok s \<Longrightarrow> heap t = (heap s)(brk s \<mapsto> d) \<Longrightarrow> brk t = brk s + 1 \<Longrightarrow> heap_ok t"
  unfolding heap_ok_def by (fastforce split: if_splits)

lemma req_ok_alloc:
  assumes "chan_ok s" "frame s (t\<lparr>unique_id := unique_id s\<rparr>)" "brk t = brk s + 1"
    "heap t = (heap s)(brk s \<mapsto> B_raw b)"
  shows "req_ok s t"
    and "c \<in> set (msg_ctx_queue t) \<Longrightarrow> resp t c \<noteq> brk s"
proof -
  have ok: "heap_ok s" using assms(1) by (rule chan_ok_heap)
  have q: "c \<noteq> brk s" if "c \<in> set (msg_ctx_queue s)" for c
    using chan_okD [OF assms(1) that] ok by auto
  have qt: "msg_ctx_queue t = msg_ctx_queue s" using assms(2) by (simp add: frame_def)
  have ans: "answered t x" if a: "answered s x" for x
  proof -
    obtain b' where "heap s (response_msg x) = Some (B_raw b')" "response_msg_size x \<le> length b'"
        "sizeof_packet \<le> response_msg_size x" "h_msg_id (get_header b') = msg_id x"
      and r: "response_msg x \<notin> set (msg_ctx_queue s)"
      using a by (auto simp: answered_def)
    moreover from this have "response_msg x \<noteq> brk s" using ok by auto
    ultimately show ?thesis using assms(4) qt by (simp add: answered_def)
  qed
  have "heap_ok t" using heap_ok_new [OF ok assms(4,3)] .
  moreover have rs: "resp t c = resp s c" if "c \<in> set (msg_ctx_queue s)" for c
    using q [OF that] assms(4) by (simp add: resp_def)
  moreover have "\<exists>x. heap t c = Some (B_ctx x) \<and> (response_msg x = 0 \<or> answered t x)"
    if c: "c \<in> set (msg_ctx_queue s)" for c
    using chan_okD [OF assms(1) c] q [OF c] ans assms(4) by auto
  ultimately have ct: "chan_ok t"
    using assms(1) qt by (simp add: chan_ok_def)
  have "\<exists>y. heap t c = Some (B_ctx y) \<and> ctx_kept (brk s) x y"
    if "c \<in> set (msg_ctx_queue s)" "heap s c = Some (B_ctx x)" for c x
    using that q [of c] assms(4) by (auto simp: ctx_kept_def)
  then show "req_ok s t"
    using ct assms(2-4) by (auto simp: req_ok_def delivered_def)
  show "resp t c \<noteq> brk s" if c: "c \<in> set (msg_ctx_queue t)"
  proof -
    obtain x where "heap s c = Some (B_ctx x)" "response_msg x = 0 \<or> answered s x"
      using chan_okD [OF assms(1)] c qt by metis
    then have "resp s c = 0 \<or> heap s (resp s c) \<noteq> None"
      by (auto simp: resp_def answered_def)
    then have "resp s c \<noteq> brk s" using ok unfolding heap_ok_def by fastforce
    then show ?thesis using rs c qt by simp
  qed
qed

lemma resp_kept:
  assumes "chan_ok u" "req_ok u t" "c \<in> set (msg_ctx_queue u)" "p < brk u" "p \<noteq> 0" "resp u c \<noteq> p"
  shows "resp t c \<noteq> p"
proof -
  obtain x where x: "heap u c = Some (B_ctx x)" using chan_okD [OF assms(1,3)] by blast
  then obtain y where "heap t c = Some (B_ctx y)" "ctx_kept (brk u) x y"
    using delivered_kept [OF assms(2) [unfolded req_ok_def] assms(3) x] by auto
  then show ?thesis using x assms(4-6) by (auto simp: resp_def ctx_kept_def)
qed

lemma req_ok_change:
  assumes "req_ok s t" "brk s \<le> p" "p \<notin> set (msg_ctx_queue t)" "heap t p \<noteq> None"
    "\<And>c. c \<in> set (msg_ctx_queue t) \<Longrightarrow> resp t c \<noteq> p"
    "frame t u" "brk u = brk t" "heap u = (heap t)(p := v)"
  shows "req_ok s u"
proof -
  have q: "msg_ctx_queue u = msg_ctx_queue t" using assms(6) by (simp add: frame_def)
  have ct: "chan_ok t" using assms(1) by (rule req_ok_chan_ok)
  have "heap_ok u" using chan_ok_heap [OF ct] assms(4,7,8) by (auto simp: heap_ok_def)
  moreover have "\<exists>x. heap u c = Some (B_ctx x) \<and> (response_msg x = 0 \<or> answered u x)"
    if c: "c \<in> set (msg_ctx_queue t)" for c
  proof -
    obtain x where x: "heap t c = Some (B_ctx x)" "response_msg x = 0 \<or> answered t x"
      using chan_okD [OF ct c] by blast
    have "response_msg x \<noteq> p" using assms(5) [OF c] x(1) by (simp add: resp_def)
    then have "answered t x \<Longrightarrow> answered u x" using assms(8) q by (simp add: answered_def)
    then show ?thesis using x c assms(3,8) by auto
  qed
  moreover have "resp u c = resp t c" if "c \<in> set (msg_ctx_queue t)" for c
    using that assms(3,8) by (auto simp: resp_def)
  ultimately have cu: "chan_ok u" using ct q by (simp add: chan_ok_def)
  have "heap u c = heap t c" if "c \<in> set (msg_ctx_queue t)" for c
    using that assms(3,8) by auto
  then show ?thesis
    using assms(1,2,6-8) cu q unfolding req_ok_def delivered_def frame_def by auto
qed

text \<open>
  A buffer that a request owns: allocated since it began, of at least \<open>n\<close> bytes, and referred to
  by no pending request.
\<close>

definition own :: "'w st \<Rightarrow> ptr \<Rightarrow> nat \<Rightarrow> 'w st \<Rightarrow> bool" where
  "own s p n t \<longleftrightarrow> req_ok s t \<and> brk s \<le> p \<and> p \<notin> set (msg_ctx_queue t) \<and>
     (\<forall>c \<in> set (msg_ctx_queue t). resp t c \<noteq> p) \<and>
     (\<exists>b. heap t p = Some (B_raw b) \<and> n \<le> length b)"

lemma own_req_ok: "own s p n t \<Longrightarrow> req_ok s t"
  by (simp add: own_def)

lemma own_pos: "own s p n t \<Longrightarrow> 0 < p \<and> p < brk t"
  by (auto simp: own_def heap_ok_def dest!: req_ok_chan_ok chan_ok_heap)

lemma own_change:
  assumes "own s p n t" "frame t u" "brk u = brk t" "heap u = (heap t)(p := v)"
  shows "req_ok s u"
    and "v = Some (B_raw b) \<Longrightarrow> n \<le> length b \<Longrightarrow> own s p n u"
    and "own s r m t \<Longrightarrow> r \<noteq> p \<Longrightarrow> own s r m u"
proof -
  have q: "msg_ctx_queue u = msg_ctx_queue t" using assms(2) by (simp add: frame_def)
  show ok: "req_ok s u"
    using assms by (intro req_ok_change [of s t p u v]) (auto simp: own_def)
  have r: "resp u c = resp t c" if "c \<in> set (msg_ctx_queue t)" for c
    using that assms(1,4) by (auto simp: resp_def own_def)
  show "own s p n u" if "v = Some (B_raw b)" "n \<le> length b"
    using assms(1,4) that ok q r by (simp add: own_def)
  show "own s r m u" if "own s r m t" "r \<noteq> p"
    using that assms(4) ok q r by (simp add: own_def)
qed

lemma wp_own_poke:
  assumes "own s p n t" "off + length bs \<le> n"
    and "\<And>u. own s p n u \<Longrightarrow> frame t u \<Longrightarrow> (\<And>r m. own s r m t \<Longrightarrow> r \<noteq> p \<Longrightarrow> own s r m u) \<Longrightarrow> Q () u"
  shows "wp (poke p off bs) Q t"
proof -
  obtain b where b: "heap t p = Some (B_raw b)" "n \<le> length b"
    using assms(1) by (auto simp: own_def)
  let ?u = "t\<lparr>heap := (heap t)(p \<mapsto> B_raw (put_at off bs b))\<rparr>"
  have f: "frame t ?u" by (simp add: frame_def)
  have "Q () ?u"
    by (rule assms(3) [OF own_change(2) [OF assms(1) f, where b = "put_at off bs b"] f
            own_change(3) [OF assms(1) f]])
      (use assms(2) b in auto)
  then show ?thesis using b assms(2) by (simp add: wp_simps)
qed

lemma wp_own_peek:
  assumes "own s p n t" "off + k \<le> n" "\<And>d. length d = k \<Longrightarrow> Q d t"
  shows "wp (peek K p off k) Q t"
proof -
  obtain b where b: "heap t p = Some (B_raw b)" "n \<le> length b"
    using assms(1) by (auto simp: own_def)
  then show ?thesis using assms(2,3) by (simp add: wp_simps)
qed

lemma wp_own_free:
  assumes "own s p n t"
    and "\<And>u. req_ok s u \<Longrightarrow> (\<And>r m. own s r m t \<Longrightarrow> r \<noteq> p \<Longrightarrow> own s r m u) \<Longrightarrow> Q () u"
  shows "wp (free_if p) Q t"
proof -
  obtain b where b: "heap t p = Some (B_raw b)" using assms(1) by (auto simp: own_def)
  have p: "p \<noteq> 0" using own_pos [OF assms(1)] by simp
  let ?u = "t\<lparr>trace := trace t @ [(K_mem (K_kfree p), 0)], heap := (heap t)(p := None),
    dead := (dead t)(p := heap t p)\<rparr>"
  have f: "frame t ?u" by (simp add: frame_def)
  have "Q () ?u"
    by (rule assms(2) [OF own_change(1) [OF assms(1) f] own_change(3) [OF assms(1) f]]) simp_all
  then show ?thesis unfolding free_if_def using p b by (simp add: wp_simps)
qed

lemma own_delivered:
  assumes "own s p n t" "delivered t u"
  shows "own s p n u"
proof -
  have q: "msg_ctx_queue u = msg_ctx_queue t" using assms(2) by (simp add: delivered_def frame_def)
  have p: "0 < p" "p < brk t" using own_pos [OF assms(1)] by simp_all
  have "resp u c \<noteq> p" if "c \<in> set (msg_ctx_queue t)" for c
    using that assms p req_ok_chan_ok [OF own_req_ok [OF assms(1)]]
    by (intro resp_kept [of t u c p]) (auto simp: own_def intro: delivered_req_ok)
  moreover have "heap u p = heap t p" using assms p by (simp add: own_def delivered_def)
  moreover have "req_ok s u"
    using req_ok_trans [OF own_req_ok [OF assms(1)] delivered_req_ok [OF assms(2)]] .
  ultimately show ?thesis using assms(1) q by (simp add: own_def)
qed

lemma wp_own_zalloc:
  assumes "chan_ok s"
    and "\<And>t. req_ok s t \<Longrightarrow> frame s t \<Longrightarrow> heap t = heap s \<Longrightarrow> Q 0 t"
    and "\<And>t p. own s p n t \<Longrightarrow> frame s t \<Longrightarrow> p \<noteq> 0 \<Longrightarrow> Q p t"
  shows "wp (teadfs_zalloc K n (B_raw (replicate n 0))) Q s"
proof (rule wp_zallocI)
  fix w
  show "Q 0 (s\<lparr>world := w, trace := trace s @ [(K_mem (K_kzalloc n), 0)]\<rparr>)"
    by (rule assms(2) [OF req_ok_cong [OF req_ok_refl [OF assms(1)]]]) (simp_all add: frame_def)
next
  fix r :: int and w assume "r \<noteq> 0"
  let ?t = "s\<lparr>world := w, trace := trace s @ [(K_mem (K_kzalloc n), r)],
            brk := brk s + 1, heap := (heap s)(brk s \<mapsto> B_raw (replicate n 0))\<rparr>"
  have f: "frame s (?t\<lparr>unique_id := unique_id s\<rparr>)" "frame s ?t" by (simp_all add: frame_def)
  note a = req_ok_alloc [OF assms(1) f(1), of "replicate n 0"]
  have "brk s \<noteq> 0" "brk s \<notin> set (msg_ctx_queue s)"
    using chan_ok_heap [OF assms(1)] chan_okD [OF assms(1), of "brk s"] by (auto simp: heap_ok_def)
  then show "Q (brk s) ?t"
    using a f(2) by (intro assms(3)) (auto simp: own_def)
qed

lemma own_cong:
  "own s p n t \<Longrightarrow> frame t (u\<lparr>unique_id := unique_id t\<rparr>) \<Longrightarrow> heap u = heap t \<Longrightarrow> brk u = brk t \<Longrightarrow>
     own s p n u"
proof -
  assume a: "own s p n t" "frame t (u\<lparr>unique_id := unique_id t\<rparr>)" "heap u = heap t" "brk u = brk t"
  have "req_ok s (u\<lparr>unique_id := unique_id t\<rparr>)"
    using a by (intro req_ok_cong [OF own_req_ok]) simp_all
  then have "req_ok s u" by (simp add: req_ok_def)
  then show ?thesis using a by (simp add: own_def frame_def resp_def)
qed

lemma own_next_id:
  "own s p n t \<Longrightarrow> own s p n (t\<lparr>unique_id := i, trace := tr\<rparr>)"
  by (erule own_cong) (simp_all add: frame_def)

lemma wp_own_packet_header:
  assumes "own s p n t" "sizeof_packet \<le> n" "\<And>u. own s p n u \<Longrightarrow> client_connect u = client_connect t \<Longrightarrow> Q () u"
  shows "wp (teadfs_packet_header p m ty ini pid uid gid) Q t"
  unfolding teadfs_packet_header_def wp_simps
  apply (rule wp_own_poke [OF assms(1)], use assms(2) in \<open>simp add: layout_defs\<close>)
  apply (rule wp_own_poke [OF own_next_id])
    apply assumption
   apply (use assms(2) in \<open>simp add: layout_defs\<close>)
  apply (rule wp_own_poke, assumption, use assms(2) in \<open>simp add: layout_defs\<close>)+
  apply (rule assms(3), assumption, simp add: frame_def)
  done

lemma wp_begin_requestI:
  assumes "chan_ok s" "sizeof_packet \<le> n"
    and "\<And>t. req_ok s t \<Longrightarrow> heap t = heap s \<Longrightarrow> Q 0 t"
    and "\<And>t p. own s p n t \<Longrightarrow> p \<noteq> 0 \<Longrightarrow> Q p t"
  shows "wp (begin_request K n ty) Q s"
proof -
  let ?s = "s\<lparr>trace := trace s @ global_section\<rparr>"
  have s: "req_ok s ?s" by (rule req_ok_cong [OF req_ok_refl [OF assms(1)]]) (simp_all add: frame_def)
  have c: "chan_ok ?s" using s by (rule req_ok_chan_ok)
  have lift: "own s p n t" if "own ?s p n t" for p t
    using that req_ok_trans [OF s] by (simp add: own_def)
  have "wp (teadfs_zalloc K n (B_raw (replicate n 0)))
     (\<lambda>b. wp (if b = 0 then ret 0 else do { teadfs_packet_header b n ty 0 (cur_pid s) 0 0; ret b }) Q) ?s"
  proof (rule wp_own_zalloc [OF c])
    fix t assume "req_ok ?s t" "heap t = heap ?s"
    then show "wp (if (0::ptr) = 0 then ret 0
        else do { teadfs_packet_header 0 n ty 0 (cur_pid s) 0 0; ret 0 }) Q t"
      using assms(3) req_ok_trans [OF s] by (simp add: wp_simps)
  next
    fix t p assume "own ?s p n t" "p \<noteq> 0"
    then show "wp (if p = 0 then ret 0
        else do { teadfs_packet_header p n ty 0 (cur_pid s) 0 0; ret p }) Q t"
      using assms(2,4) by (auto simp: wp_simps intro!: wp_own_packet_header [OF lift])
  qed
  moreover have "Q 0 ?s" by (rule assms(3) [OF s]) simp
  ultimately show ?thesis
    unfolding begin_request_def by (simp add: wp_simps cong: if_cong)
qed

lemma wp_send_packetI:
  assumes "nlmsg_put_fits K" "msgs_ok K" "own s p n t" "sizeof_packet \<le> n"
    and "\<And>u. own s p n u \<Longrightarrow> Q (- ENOMEM, 0, 0) u"
    and "\<And>u m. own s p n u \<Longrightarrow> Q (0, m, 0) u"
    and "\<And>u m r. own s p n u \<Longrightarrow> own s r m u \<Longrightarrow> sizeof_packet \<le> m \<Longrightarrow> r \<noteq> p \<Longrightarrow> r \<noteq> 0 \<Longrightarrow> Q (0, m, r) u"
  shows "wp (send_packet K n p) Q t"
proof -
  obtain b where b: "heap t p = Some (B_raw b)" "n \<le> length b" using assms(3) by (auto simp: own_def)
  have ok: "chan_ok t" using req_ok_chan_ok [OF own_req_ok [OF assms(3)]] .
  let ?mid = "dec_u64 (get_at O_msg_id 8 b)"
  have "wp (teadfs_request_send K ?mid n p) Q t"
  proof (rule wp_request_sendI [OF assms(1,2) ok b])
    fix u assume "frame t u" "heap u = heap t" "brk u = brk t"
    then show "Q (- ENOMEM, 0, 0) u"
      by (intro assms(5) own_cong [OF assms(3)]) (simp_all add: frame_def)
  next
    fix u m r assume u: "delivered t u" "r = 0 \<or> own_answer t ?mid u m r"
    note o = own_delivered [OF assms(3) u(1)]
    show "Q (0, m, r) u"
    proof (cases "r = 0")
      case True
      then show ?thesis using assms(6) [OF o] by simp
    next
      case False
      then have a: "own_answer t ?mid u m r" using u(2) by simp
      have "p < brk t" "brk s \<le> brk t" using own_pos [OF assms(3)] req_ok_brk [OF own_req_ok [OF assms(3)]] by auto
      then show ?thesis
        using a False own_req_ok [OF o] by (intro assms(7) [OF o]) (auto simp: own_def own_answer_def)
    qed
  qed
  then show ?thesis
    unfolding send_packet_def using b assms(4) by (simp add: wp_simps layout_defs)
qed

section \<open>Open and release are safe\<close>

text \<open>What open and release do once the packet is filled: send, read the code, free both buffers.\<close>

definition ask_code :: "'w kernel \<Rightarrow> nat \<Rightarrow> ptr \<Rightarrow> ('w, int \<times> ptr \<times> ptr) op" where
  "ask_code K n buffer_packet = do {
     (rc, response_size, response_data) \<leftarrow> send_packet K n buffer_packet;
     if rc \<noteq> 0 then ret (- ENOMEM, buffer_packet, response_data)
     else if response_data = 0 \<or> response_size < sizeof_packet
       then ret (- ENOMEM, buffer_packet, response_data)
     else do {
       code \<leftarrow> peek K response_data O_error_code 4;
       ret (dec_int code, buffer_packet, response_data)
     }
   }"

definition free_both :: "int \<times> ptr \<times> ptr \<Rightarrow> ('w, int) op" where
  "free_both = (\<lambda>(rc, buffer_packet, response_data). do {
     free_if response_data;
     free_if buffer_packet;
     ret rc
   })"

lemma wp_ask_code_free:
  assumes "nlmsg_put_fits K" "msgs_ok K" "own s p n t" "sizeof_packet \<le> n"
    and "\<And>rc u. req_ok s u \<Longrightarrow> Q rc u"
  shows "wp (ask_code K n p) (\<lambda>x. wp (free_both x) Q) t"
proof -
  have one: "wp (free_both (rc, p, 0)) Q u" if "own s p n u" for rc u
    using that assms(5) by (auto simp: free_both_def free_if_def [of 0] wp_simps intro!: wp_own_free)
  have two: "wp (free_both (rc, p, r)) Q u" if "own s p n u" "own s r m u" "r \<noteq> p" for rc u r m
    unfolding free_both_def prod.case wp_simps
    by (rule wp_own_free [OF that(2)], rule wp_own_free [of s p n]) (use that assms(5) in auto)
  show ?thesis
    unfolding ask_code_def wp_simps
    apply (rule wp_send_packetI [OF assms(1-4)])
      apply (simp add: wp_simps ENOMEM_def one)
     apply (simp add: wp_simps one)
    subgoal for u m r
      by (auto simp: wp_simps layout_defs intro!: wp_own_peek [of s r m u] two [of u r m])
    done
qed

lemma wp_get_connectI:
  assumes "chan_ok s" "\<And>t. req_ok s t \<Longrightarrow> frame s t \<Longrightarrow> heap t = heap s \<Longrightarrow> Q (client_connect s) t"
  shows "wp teadfs_get_client_connect Q s"
  unfolding wp_simps
  by (rule assms(2) [OF req_ok_cong [OF req_ok_refl [OF assms(1)]]]) (simp_all add: frame_def)

lemma own_trans: "req_ok s t \<Longrightarrow> own t p n u \<Longrightarrow> own s p n u"
  using req_ok_trans req_ok_brk unfolding own_def by fastforce

text \<open>The common course of open and release, up to the point where the packet is filled.\<close>

lemma wp_requestI:
  assumes "req_ok s t" "sizeof_packet \<le> n"
    and "\<And>p u. own s p n u \<Longrightarrow> wp (fill p) (\<lambda>x. wp (free_both x) (\<lambda>_ v. req_ok s v)) u"
  shows "wp (begin_request K n ty) (\<lambda>b. wp (if b = 0 then ret (- ENOMEM, 0, 0) else fill b)
    (\<lambda>x. wp (free_both x) (\<lambda>_ v. req_ok s v))) t"
proof (rule wp_begin_requestI [OF req_ok_chan_ok [OF assms(1)] assms(2)])
  fix u assume "req_ok t u"
  then have "req_ok s u" using req_ok_trans [OF assms(1)] by blast
  then show "wp (if (0::ptr) = 0 then ret (- ENOMEM, 0, 0) else fill 0)
    (\<lambda>x. wp (free_both x) (\<lambda>_ v. req_ok s v)) u"
    by (simp add: free_both_def free_if_def wp_simps)
next
  fix u p assume "own t p n u" "p \<noteq> 0"
  then show "wp (if p = 0 then ret (- ENOMEM, 0, 0) else fill p)
    (\<lambda>x. wp (free_both x) (\<lambda>_ v. req_ok s v)) u"
    using assms(3) [OF own_trans [OF assms(1)]] by (simp add: wp_simps)
qed

lemma request_open_safe:
  assumes "nlmsg_put_fits K" "msgs_ok K" "chan_ok s"
  shows "wp (teadfs_request_open K path file) (\<lambda>_ t. req_ok s t) s"
proof -
  let ?fill = "\<lambda>b. do {
           poke b O_open_file_id (enc_u64 (word_of_int file));
           poke b O_open_path_size (enc_u32 (of_nat (length path)));
           poke b O_open_path_offset (enc_u32 (of_nat sizeof_packet));
           poke b sizeof_packet path;
           ask_code K (sizeof_packet + length path) b }"
  have fill: "wp (?fill p) (\<lambda>x. wp (free_both x) (\<lambda>_ t. req_ok s t)) t"
    if "own s p (sizeof_packet + length path) t" for p t
    unfolding wp_simps
    apply (rule wp_own_poke [OF that], simp add: layout_defs)
    apply (rule wp_own_poke, assumption, simp add: layout_defs)+
    apply (rule wp_ask_code_free [OF assms(1,2)], assumption)
    apply simp_all
    done
  have "wp teadfs_get_client_connect (\<lambda>connect. wp (if connect = 0 then ret (- ENOMEM, 0, 0)
       else do { b \<leftarrow> begin_request K (sizeof_packet + length path) PR_MSG_OPEN;
         if b = 0 then ret (- ENOMEM, 0, 0) else ?fill b }) (\<lambda>x. wp (free_both x) (\<lambda>_ t. req_ok s t))) s"
  proof (rule wp_get_connectI [OF assms(3)])
    fix t assume t: "req_ok s t"
    show "wp (if client_connect s = 0 then ret (- ENOMEM, 0, 0)
       else do { b \<leftarrow> begin_request K (sizeof_packet + length path) PR_MSG_OPEN;
         if b = 0 then ret (- ENOMEM, 0, 0) else ?fill b }) (\<lambda>x. wp (free_both x) (\<lambda>_ t. req_ok s t)) t"
      using wp_requestI [OF t, of "sizeof_packet + length path" ?fill, OF _ fill] t
      by (simp add: wp_bind wp_ret free_both_def free_if_def)
  qed
  then show ?thesis
    unfolding teadfs_request_open_def free_both_def ask_code_def Let_def
    by (simp only: wp_bind)
qed

text \<open>A block that existed before the request began and that is raw bytes stays as it is.\<close>

lemma req_ok_raw:
  assumes "req_ok s t" "chan_ok s" "heap s p = Some (B_raw b)"
  shows "heap t p = Some (B_raw b)"
proof -
  have "p < brk s" using chan_ok_heap [OF assms(2)] assms(3) by (auto simp: heap_ok_def)
  moreover have "p \<notin> set (msg_ctx_queue s)" using chan_okD [OF assms(2)] assms(3) by fastforce
  ultimately show ?thesis using assms(1,3) by (simp add: req_ok_def delivered_def)
qed

lemma wp_call_rv_reqI:
  assumes "req_ok s t" "\<And>r u. req_ok s u \<Longrightarrow> frame t u \<Longrightarrow> heap u = heap t \<Longrightarrow> brk u = brk t \<Longrightarrow> Q r u"
  shows "wp (call_rv K c) Q t"
  by (rule wp_call_rvI, rule assms(2) [OF req_ok_cong [OF assms(1)]]) (simp_all add: frame_def)

lemma request_release_safe:
  assumes "nlmsg_put_fits K" "msgs_ok K" "chan_ok s"
    and path: "path_len = 0 \<or> heap s path_ptr = Some (B_raw b) \<and> path_len \<le> length b"
  shows "wp (teadfs_request_release K path_ptr path_len file) (\<lambda>_ t. req_ok s t) s"
proof -
  let ?n = "sizeof_packet + path_len"
  let ?R = "\<lambda>_ t. req_ok s t"
  let ?fill = "\<lambda>b. do {
           poke b O_release_file_id (enc_u64 (word_of_int file));
           poke b O_release_path_size (enc_u32 (of_nat path_len));
           poke b O_release_path_offset (enc_u32 (of_nat sizeof_packet));
           path \<leftarrow> peek K path_ptr 0 path_len;
           poke b sizeof_packet path;
           ask_code K ?n b }"
  have old: "wp (peek K path_ptr 0 path_len) Q t"
    if "req_ok s t" "\<And>d. length d = path_len \<Longrightarrow> Q d t" for Q :: "bytes \<Rightarrow> 'a st \<Rightarrow> bool" and t
  proof (cases "path_len = 0")
    case True
    then show ?thesis using that(2) by (simp add: peek_def wp_simps)
  next
    case False
    then have "heap t path_ptr = Some (B_raw b)" "path_len \<le> length b"
      using path req_ok_raw [OF that(1) assms(3)] by auto
    then show ?thesis using that(2) by (simp add: wp_simps)
  qed
  have fill: "wp (?fill p) (\<lambda>x. wp (free_both x) ?R) t" if "own s p ?n t" for p t
    unfolding wp_simps
    apply (rule wp_own_poke [OF that], simp add: layout_defs)
    apply (rule wp_own_poke, assumption, simp add: layout_defs)+
    apply (rule old, erule own_req_ok)
    apply (rule wp_own_poke, assumption, simp)
    apply (rule wp_ask_code_free [OF assms(1,2)], assumption)
    apply simp_all
    done
  have no: "wp (free_both (rc, 0, 0)) ?R t" if "req_ok s t" for rc t
    using that by (simp add: free_both_def free_if_def wp_simps)
  define go where "go = do {
       b \<leftarrow> begin_request K ?n PR_MSG_RELEASE;
       if b = 0 then ret (- ENOMEM, 0, 0) else ?fill b }"
  have go: "wp go (\<lambda>x. wp (free_both x) ?R) t" if "req_ok s t" for t
    unfolding go_def wp_bind by (rule wp_requestI [OF that]) (use fill in \<open>simp_all add: wp_bind\<close>)
  have "wp teadfs_get_client_connect (\<lambda>connect. wp (if connect = 0 then ret (- ENOMEM, 0, 0)
       else do {
         dentry \<leftarrow> (if file = 0 then ret 0 else call_rv K (K_load F_f_dentry file));
         mnt \<leftarrow> (if file = 0 \<or> dentry = 0 then ret 0 else call_rv K (K_load F_f_mnt file));
         if file = 0 \<or> dentry = 0 \<or> mnt = 0 then ret (- ENOMEM, 0, 0) else go })
       (\<lambda>x. wp (free_both x) ?R)) s"
    by (rule wp_get_connectI [OF assms(3)])
      (auto intro!: no wp_call_rv_reqI [of s] go simp: wp_simps)
  then show ?thesis
    unfolding teadfs_request_release_def free_both_def ask_code_def Let_def go_def
    by (simp only: wp_bind)
qed

end
