(* ===== verification/Client_Channel.thy ===== *)
theory Client_Channel
  imports Request_Safety
begin

text \<open>
  The channel to a client that answers. The interface is the locale \<open>client_channel\<close>: the kernel
  has memory, delivers a sent packet to the client and returns the client's reply while the
  requester sleeps. Inside it, the exact outcome of a request: which bytes come back, what the
  heap holds afterwards, and that the rest of the state is as before.
\<close>

section \<open>The interface\<close>

text \<open>
  \<open>carries m p\<close>: the netlink message \<open>m\<close> is long enough and its payload is the packet \<open>p\<close>.
\<close>

definition carries :: "bytes \<Rightarrow> bytes \<Rightarrow> bool" where
  "carries m p \<longleftrightarrow> unat (nlmsg_len_field m) = NLMSG_HDRLEN + length p \<and> nlmsg_data m = p \<and>
     length m = NLMSG_HDRLEN + length p"

text \<open>The receive buffer of the client (\<open>netlink.cpp\<close>): longer packets are cut off.\<close>

definition MAX_MSG_SIZE :: nat where "MAX_MSG_SIZE = 8 * 1024"

text \<open>
  What a step of the channel leaves alone: everything but the heap, the trace and the parts of the
  world that \<open>obs\<close> does not see.
\<close>

definition quiet_for :: "('w \<Rightarrow> 'o) \<Rightarrow> 'w st \<Rightarrow> 'w st \<Rightarrow> bool" where
  "quiet_for obs s t \<longleftrightarrow> frame s t \<and> client_pid t = client_pid s \<and> obs (world t) = obs (world s)"

lemma heap_ok_above: "heap_ok s \<Longrightarrow> brk s \<le> p \<Longrightarrow> heap s p = None"
  unfolding heap_ok_def by (metis leD)

text \<open>No pending request has the message id \<open>mid\<close>.\<close>

definition id_free :: "'w st \<Rightarrow> u64 \<Rightarrow> bool" where
  "id_free s mid \<longleftrightarrow> heap_ok s \<and>
     (\<forall>d \<in> set (msg_ctx_queue s). \<exists>y. heap s d = Some (B_ctx y) \<and> msg_id y \<noteq> mid)"

text \<open>A reply that fits its request: a whole packet with the same id, not initiated by the client.\<close>

definition fits :: "bytes \<Rightarrow> bytes \<Rightarrow> bool" where
  "fits p r \<longleftrightarrow> sizeof_packet \<le> length r \<and> length r < 2 ^ 16 \<and>
     h_msg_id (get_header r) = h_msg_id (get_header p) \<and> h_initiator (get_header r) \<noteq> 1"

text \<open>The packets of read and write requests, and a reply that carries data.\<close>

definition packet_of :: "u8 \<Rightarrow> nat \<Rightarrow> u64 \<Rightarrow> int \<Rightarrow> bytes" where
  "packet_of ty n mid pid = put_header \<lparr>h_size = of_nat n, h_msg_id = mid, h_msg_type = ty,
     h_initiator = 0, h_pid = word_of_int pid, h_uid = 0, h_gid = 0\<rparr> (replicate n 0)"

definition io_packet :: "u8 \<Rightarrow> u64 \<Rightarrow> int \<Rightarrow> int \<Rightarrow> bytes \<Rightarrow> bytes" where
  "io_packet ty mid pid off src =
     put_at sizeof_packet src (put_at O_read_data_offset (enc_u32 (of_nat sizeof_packet))
       (put_at O_read_data_size (enc_u32 (of_nat (length src))) (put_at O_read_code (enc_int 0)
         (put_at O_read_offset (enc_u64 (word_of_int off))
           (packet_of ty (sizeof_packet + length src) mid pid)))))"

definition path_packet :: "u8 \<Rightarrow> u64 \<Rightarrow> int \<Rightarrow> ptr \<Rightarrow> bytes \<Rightarrow> bytes" where
  "path_packet ty mid pid file path =
     put_at sizeof_packet path (put_at O_open_path_offset (enc_u32 (of_nat sizeof_packet))
       (put_at O_open_path_size (enc_u32 (of_nat (length path)))
         (put_at O_open_file_id (enc_u64 (word_of_int file))
           (packet_of ty (sizeof_packet + length path) mid pid))))"

definition data_reply :: "bytes \<Rightarrow> bytes \<Rightarrow> bool" where
  "data_reply r d \<longleftrightarrow> length r = sizeof_packet + length d \<and> dec_int (get_at O_read_code 4 r) = 0 \<and>
     unat (dec_u32 (get_at O_read_data_size 4 r)) = length d \<and>
     unat (dec_u32 (get_at O_read_data_offset 4 r)) = sizeof_packet \<and> drop sizeof_packet r = d"

lemma write_offsets: "O_write_offset = O_read_offset" "O_write_code = O_read_code"
  "O_write_data_size = O_read_data_size" "O_write_data_offset = O_read_data_offset"
  by (simp_all add: layout_defs)

lemma length_packet_of [simp]: "sizeof_packet \<le> n \<Longrightarrow> length (packet_of ty n mid pid) = n"
  by (simp add: packet_of_def)

lemma io_packet_length [simp]: "length (io_packet ty mid pid off src) = sizeof_packet + length src"
  by (simp add: io_packet_def layout_defs)

lemma io_packet_header:
  "get_header (io_packet ty mid pid off src) = \<lparr>h_size = of_nat (sizeof_packet + length src), h_msg_id = mid,
     h_msg_type = ty, h_initiator = 0, h_pid = word_of_int pid, h_uid = 0, h_gid = 0\<rparr>"
proof -
  have "get_header (packet_of ty (sizeof_packet + length src) mid pid) =
      \<lparr>h_size = of_nat (sizeof_packet + length src), h_msg_id = mid, h_msg_type = ty,
     h_initiator = 0, h_pid = word_of_int pid, h_uid = 0, h_gid = 0\<rparr>"
    unfolding packet_of_def by (rule get_put_header) simp
  moreover have "get_header (io_packet ty mid pid off src) =
      get_header (packet_of ty (sizeof_packet + length src) mid pid)"
    by (simp add: io_packet_def get_header_def layout_defs buf_simps)
  ultimately show ?thesis by simp
qed

lemma path_packet_length [simp]:
  "length (path_packet ty mid pid file path) = sizeof_packet + length path"
  by (simp add: path_packet_def layout_defs)

lemma path_packet_header:
  "get_header (path_packet ty mid pid file path) = \<lparr>h_size = of_nat (sizeof_packet + length path),
     h_msg_id = mid, h_msg_type = ty, h_initiator = 0, h_pid = word_of_int pid, h_uid = 0, h_gid = 0\<rparr>"
proof -
  have "get_header (packet_of ty (sizeof_packet + length path) mid pid) =
      \<lparr>h_size = of_nat (sizeof_packet + length path), h_msg_id = mid, h_msg_type = ty,
     h_initiator = 0, h_pid = word_of_int pid, h_uid = 0, h_gid = 0\<rparr>"
    unfolding packet_of_def by (rule get_put_header) simp
  moreover have "get_header (path_packet ty mid pid file path) =
      get_header (packet_of ty (sizeof_packet + length path) mid pid)"
    by (simp add: path_packet_def get_header_def layout_defs buf_simps)
  ultimately show ?thesis by simp
qed

lemma path_packet_fields:
  "get_at O_open_file_id 8 (path_packet ty mid pid file path) = enc_u64 (word_of_int file)"
  "get_at O_open_path_size 4 (path_packet ty mid pid file path) = enc_u32 (of_nat (length path))"
  "get_at O_open_path_offset 4 (path_packet ty mid pid file path) = enc_u32 (of_nat sizeof_packet)"
  "get_at sizeof_packet (length path) (path_packet ty mid pid file path) = path"
  by (simp_all add: path_packet_def layout_defs buf_simps)

lemma io_packet_fields:
  "get_at O_read_offset 8 (io_packet ty mid pid off src) = enc_u64 (word_of_int off)"
  "get_at O_read_data_size 4 (io_packet ty mid pid off src) = enc_u32 (of_nat (length src))"
  "get_at O_read_data_offset 4 (io_packet ty mid pid off src) = enc_u32 (of_nat sizeof_packet)"
  "get_at sizeof_packet (length src) (io_packet ty mid pid off src) = src"
  by (simp_all add: io_packet_def layout_defs buf_simps)

text \<open>
  A kernel in which a freed block still reads as before. Nothing below relies on it; some results
  say what happens in this case.
\<close>

definition stale_keeps :: "'w kernel \<Rightarrow> bool" where
  "stale_keeps K \<longleftrightarrow> (\<forall>q w. rv (fst (K (K_mem (K_stale_read q)) w)) = 0)"

text \<open>\<open>obs\<close> is what the rest of the system can observe of the world, such as file contents.\<close>

locale client_channel =
  fixes K :: "'w kernel"
    and reply :: "bytes \<Rightarrow> bytes"
    and obs :: "'w \<Rightarrow> 'o"
  assumes zalloc_ok: "rv (fst (K (K_mem (K_kzalloc n)) w)) \<noteq> 0"
    and nl_new_ok: "rv (fst (K (K_net (K_nlmsg_new n)) w)) \<noteq> 0"
    and nl_put_ok: "rv (fst (K (K_net (K_nlmsg_put skb n)) w)) \<noteq> 0"
    and answers: "sizeof_packet \<le> length p \<Longrightarrow> length p < 2 ^ 16 \<Longrightarrow> fits p (reply p) \<Longrightarrow> length h = NLMSG_HDRLEN \<Longrightarrow>
      \<exists>m. rmsgs (fst (K (K_net (K_wait_event_timeout c))
        (snd (K (K_net (K_netlink_unicast skb pid (h @ p))) w)))) = [m] \<and> carries m (reply p)"
    and obs_mem: "obs (snd (K (K_mem c') w)) = obs w"
    and obs_net: "obs (snd (K (K_net c'') w)) = obs w"
begin

abbreviation quiet where "quiet \<equiv> quiet_for obs"

lemmas quiet_def = quiet_for_def

lemma quiet_refl [simp]: "quiet s s"
  by (simp add: quiet_def)

lemma quiet_trans: "quiet s t \<Longrightarrow> quiet t u \<Longrightarrow> quiet s u"
  by (auto simp: quiet_def intro: frame_trans)

lemma wp_zalloc_okI:
  assumes "\<And>t. quiet s t \<Longrightarrow> heap t = (heap s)(brk s \<mapsto> blk) \<Longrightarrow> brk t = brk s + 1 \<Longrightarrow> dead t = dead s \<Longrightarrow>
    Q (brk s) t"
  shows "wp (teadfs_zalloc K n blk) Q s"
  unfolding teadfs_zalloc_def call_rv_def
  by (simp add: wp_simps wp_call zalloc_ok) (rule assms, simp_all add: quiet_def frame_def obs_mem)

lemma wp_send_okI:
  assumes "n = length data"
    and "\<And>t rc. quiet s t \<Longrightarrow> heap t = heap s \<Longrightarrow> brk t = brk s \<Longrightarrow> dead t = dead s \<Longrightarrow>
    (\<exists>skb pid w. world t = snd (K (K_net (K_netlink_unicast skb pid
       (nlmsghdr_bytes (NLMSG_HDRLEN + n) (client_pid s) @ data))) w)) \<Longrightarrow> Q rc t"
  shows "wp (teadfs_send_to_user K data n) Q s"
  unfolding teadfs_send_to_user_def call_rv_def
  apply (simp add: wp_simps wp_call nl_new_ok nl_put_ok assms(1))
  apply (rule assms(2))
      apply (simp_all add: quiet_def frame_def obs_net assms(1))
  apply blast
  done

lemma carries_skb_ok:
  "carries m p \<Longrightarrow> sizeof_packet \<le> length p \<Longrightarrow> skb_ok m \<and> nlmsg_payload_len m = length p \<and> nlmsg_data m = p"
  using nlmsg_payload_len_ok by (auto simp: carries_def skb_ok_def)

text \<open>The reply is stored in the own context, whatever else is queued before it.\<close>

lemma wp_store_okI:
  assumes s: "heap_ok s" "heap s c = Some (B_ctx x)" "carries m p" "sizeof_packet \<le> length p"
    and got: "\<And>t. quiet s t \<Longrightarrow> brk t = brk s + 1 \<Longrightarrow> dead t = dead s \<Longrightarrow>
        heap t = (heap s)(c \<mapsto> B_ctx (x\<lparr>ctx_state := TEADFS_MSG_CTX_STATE_DONE, response_msg := brk s,
            response_msg_size := length p\<rparr>), brk s \<mapsto> B_raw (p @ replicate NLMSG_HDRLEN 0)) \<Longrightarrow> Q () t"
  shows "wp (store_response K m c) Q s"
proof -
  have c: "c \<noteq> brk s" "brk s \<noteq> c" "c \<noteq> 0" "brk s \<noteq> 0"
    using s(1,2) heap_ok_neq_brk by (auto simp: heap_ok_def)
  have m: "nlmsg_payload_len m = length p" "nlmsg_data m = p"
    "unat (nlmsg_len_field m) = NLMSG_HDRLEN + length p"
    using carries_skb_ok [OF s(3,4)] s(3) by (auto simp: carries_def)
  have b: "put_at 0 (get_at 0 (length p) p) (replicate (NLMSG_HDRLEN + length p) (0 :: byte)) =
      p @ replicate NLMSG_HDRLEN 0"
    by (simp add: put_at_def get_at_def)
  show ?thesis
    unfolding store_response_def wp_simps
    apply (simp add: s(2) wp_simps m)
    apply (rule wp_zalloc_okI)
    apply (simp add: wp_simps c m b)
    apply (simp add: wp_call)
    apply (rule got)
       apply (use c in \<open>simp_all add: quiet_def frame_def obs_net fun_eq_iff\<close>)
    done
qed

lemma wp_deliver_own:
  assumes "\<forall>d \<in> set cs. \<exists>y. heap s d = Some (B_ctx y) \<and> msg_id y \<noteq> msg_id x"
    "heap s c = Some (B_ctx x)" "carries m p" "sizeof_packet \<le> length p"
    "h_msg_id (get_header p) = msg_id x"
  shows "wp (deliver K m (cs @ [c])) Q s = wp (store_response K m c) Q s"
proof -
  have m: "nlmsg_data m = p" "O_msg_id + 8 \<le> length p" "dec_u64 (get_at O_msg_id 8 p) = msg_id x"
    using assms(3-5) by (simp_all add: carries_def layout_defs get_header_def)
  show ?thesis
    using assms(1,2)
  proof (induction cs)
    case Nil
    then show ?case using m by (simp add: wp_simps)
  next
    case (Cons d cs)
    then obtain y where "heap s d = Some (B_ctx y)" "msg_id y \<noteq> msg_id x" by auto
    then show ?case using Cons m by (simp add: wp_simps)
  qed
qed

lemma wp_receive_own:
  assumes "msg_ctx_queue s = cs @ [c]"
    "\<forall>d \<in> set cs. \<exists>y. heap s d = Some (B_ctx y) \<and> msg_id y \<noteq> msg_id x"
    "heap s c = Some (B_ctx x)" "carries m p" "sizeof_packet \<le> length p"
    "h_msg_id (get_header p) = msg_id x" "h_initiator (get_header p) \<noteq> 1"
  shows "wp (teadfs_netlink_receive K m) Q s =
    wp (store_response K m c) (\<lambda>_ t. Q () (t\<lparr>trace := trace t @ [(K_unlock L_queue, 0)]\<rparr>))
      (s\<lparr>trace := trace s @ [(K_lock L_queue, 0)]\<rparr>)"
proof -
  have m: "nlmsg_data m = p" "O_initiator + 1 \<le> length p" "dec_u8 (get_at O_initiator 1 p) \<noteq> 1"
    using assms(4,5,7) by (simp_all add: carries_def layout_defs get_header_def)
  have "wp (deliver K m (cs @ [c])) Q' (s\<lparr>trace := trace s @ [(K_lock L_queue, 0)]\<rparr>) =
      wp (store_response K m c) Q' (s\<lparr>trace := trace s @ [(K_lock L_queue, 0)]\<rparr>)" for Q'
    by (rule wp_deliver_own) (use assms in simp_all)
  then show ?thesis
    unfolding teadfs_netlink_receive_def using m assms(1) by (simp add: wp_simps)
qed

lemma wp_wait_okI:
  assumes s: "heap_ok s" "msg_ctx_queue s = cs @ [c]"
      "\<forall>d \<in> set cs. \<exists>y. heap s d = Some (B_ctx y) \<and> msg_id y \<noteq> msg_id x"
      "heap s c = Some (B_ctx x)" "ctx_state x = TEADFS_MSG_CTX_STATE_PENDING"
    and w: "world s = snd (K (K_net (K_netlink_unicast skb pid (h @ p))) w')" "length h = NLMSG_HDRLEN"
      "length p < 2 ^ 16" "fits p (reply p)" "h_msg_id (get_header p) = msg_id x" "sizeof_packet \<le> length p"
    and got: "\<And>t. quiet s t \<Longrightarrow> brk t = brk s + 1 \<Longrightarrow> dead t = dead s \<Longrightarrow>
        heap t = (heap s)(c \<mapsto> B_ctx (x\<lparr>ctx_state := TEADFS_MSG_CTX_STATE_DONE, response_msg := brk s,
            response_msg_size := length (reply p)\<rparr>),
          brk s \<mapsto> B_raw (reply p @ replicate NLMSG_HDRLEN 0)) \<Longrightarrow> Q () t"
  shows "wp (teadfs_request_wait_answer K c) Q s"
proof -
  obtain m where m: "rmsgs (fst (K (K_net (K_wait_event_timeout c)) (world s))) = [m]" "carries m (reply p)"
    using answers [OF w(6,3,4,2)] w(1) by metis
  have r: "sizeof_packet \<le> length (reply p)" "h_msg_id (get_header (reply p)) = msg_id x"
    "h_initiator (get_header (reply p)) \<noteq> 1"
    using w(4,5) by (simp_all add: fits_def)
  have c: "c \<noteq> brk s" using heap_ok_neq_brk [OF s(1,4)] by simp
  show ?thesis
    unfolding teadfs_request_wait_answer_def
    apply (simp add: wp_simps s(4,5) ctx_state_defs wp_call m(1))
    apply (subst wp_receive_own [where cs = cs and c = c and x = x, OF _ _ _ m(2) r])
       apply (simp_all add: s)
    apply (rule wp_store_okI [OF _ _ m(2) r(1), where x = x])
      apply (use s in \<open>simp_all add: heap_ok_def\<close>)
    apply (subst wp_load [where x = "x\<lparr>ctx_state := TEADFS_MSG_CTX_STATE_DONE, response_msg := brk s,
            response_msg_size := length (reply p)\<rparr>"])
     apply (use c in \<open>simp add: fun_upd_def\<close>)
    apply (simp add: wp_simps ctx_state_defs)
    apply (rule got)
       apply (simp_all add: quiet_def frame_def obs_net ctx_state_defs)
    done
qed

lemma wp_request_send_ok:
  assumes s: "id_free s mid" "heap s buf = Some (B_raw p)" "length p < 2 ^ 16" "fits p (reply p)"
      "h_msg_id (get_header p) = mid" "n = length p" "sizeof_packet \<le> n"
    and got: "\<And>t. quiet s t \<Longrightarrow> brk t = brk s + 2 \<Longrightarrow>
      heap t = (heap s)(brk s + 1 \<mapsto> B_raw (reply p @ replicate NLMSG_HDRLEN 0)) \<Longrightarrow>
      Q (0, length (reply p), brk s + 1) t"
  shows "wp (teadfs_request_send K mid n buf) Q s"
proof -
  have ok: "heap_ok s" using s(1) by (simp add: id_free_def)
  let ?x = "\<lparr>ctx_state = TEADFS_MSG_CTX_STATE_PENDING, msg_id = mid, request_msg_size = length p,
      request_msg = buf, response_msg_size = 0, response_msg = 0\<rparr>"
  have b: "brk s \<noteq> 0" "buf \<noteq> brk s" "brk s \<noteq> buf" using ok s(2) by (auto simp: heap_ok_def)
  have q: "brk s \<notin> set (msg_ctx_queue s)" using s(1) ok by (auto simp: id_free_def)
  have none: "heap s (brk s) = None" "heap s (brk s + 1) = None" by (simp_all add: heap_ok_above [OF ok])
  have g: "get_at 0 (length p) p = p" by (simp add: get_at_def)
  have h: "length (nlmsghdr_bytes k pid) = NLMSG_HDRLEN" for k pid
    by (simp add: nlmsghdr_bytes_def NLMSG_HDRLEN_def)
  show ?thesis
    unfolding teadfs_request_send_def
    apply (simp only: wp_bind s(6))
    apply (rule wp_zalloc_okI)
    apply (simp add: b wp_simps s(2) g)
    apply (rule wp_send_okI [OF refl])
    apply (elim exE)
    apply (rule wp_wait_okI [where cs = "msg_ctx_queue s" and x = ?x and p = p,
          OF _ _ _ _ _ _ h s(3,4)])
           prefer 6
           apply assumption
    subgoal for t u rc skb pid w
      using heap_ok_new [OF ok, of t] by (simp add: heap_ok_def)
    subgoal by (simp add: quiet_def frame_def)
    subgoal for t u rc skb pid w
      using s(1) q unfolding id_free_def by auto
    subgoal by simp
    subgoal by simp
    subgoal by (simp add: s(5))
    subgoal using s(6,7) by simp
    subgoal for t u rc skb pid w v
      using b q none
      by (auto simp: wp_simps quiet_def frame_def remove1_append fun_upd_def intro!: got)
    done
qed

lemma wp_begin_request_ok:
  assumes s: "heap_ok s" "cur_pid s \<noteq> client_pid s" "sizeof_packet \<le> n"
    and got: "\<And>t. quiet (s\<lparr>unique_id := next_id (unique_id s)\<rparr>) t \<Longrightarrow> brk t = brk s + 1 \<Longrightarrow>
      heap t = (heap s)(brk s \<mapsto> B_raw (packet_of ty n (next_id (unique_id s)) (cur_pid s))) \<Longrightarrow> Q (brk s) t"
  shows "wp (begin_request K n ty) Q s"
proof -
  have b: "brk s \<noteq> 0" using s(1) by (simp add: heap_ok_def)
  show ?thesis
    unfolding begin_request_def teadfs_packet_header_def
    apply (simp add: wp_simps s(2))
    apply (rule wp_zalloc_okI)
    apply (use b s(3) in \<open>simp add: wp_simps layout_defs\<close>)
    apply (rule got)
      apply (simp_all add: quiet_def frame_def packet_of_def put_header_def enc_int_def layout_defs)
    done
qed

text \<open>Sending a filled data packet.\<close>

lemma wp_send_packet_ok:
  assumes s: "id_free s mid" "heap s buf = Some (B_raw p)" "length p < 2 ^ 16" "fits p (reply p)"
      "h_msg_id (get_header p) = mid" "n = length p" "sizeof_packet \<le> n"
    and got: "\<And>t. quiet s t \<Longrightarrow> brk t = brk s + 2 \<Longrightarrow>
      heap t = (heap s)(brk s + 1 \<mapsto> B_raw (reply p @ replicate NLMSG_HDRLEN 0)) \<Longrightarrow>
      Q (0, length (reply p), brk s + 1) t"
  shows "wp (send_packet K n buf) Q s"
proof -
  have "dec_u64 (get_at O_msg_id 8 p) = mid" using s(5) by (simp add: get_header_def)
  moreover have "O_msg_id + 8 \<le> length p" using s(6,7) by (simp add: layout_defs)
  moreover have "wp (teadfs_request_send K mid n buf) Q s"
    by (rule wp_request_send_ok [OF s]) (fact got)
  ultimately show ?thesis
    unfolding send_packet_def using s(2) by (simp add: wp_simps)
qed

lemma id_free_alloc:
  assumes "id_free s mid" "heap t = (heap s)(brk s \<mapsto> B_raw b)" "brk t = brk s + 1"
    "msg_ctx_queue t = msg_ctx_queue s"
  shows "id_free t mid"
proof -
  have ok: "heap_ok s" using assms(1) by (simp add: id_free_def)
  have "heap_ok t" using heap_ok_new [OF ok assms(2,3)] .
  moreover have "d \<noteq> brk s" if "heap s d \<noteq> None" for d using that ok by auto
  ultimately show ?thesis using assms(1,2,4) unfolding id_free_def by fastforce
qed

text \<open>A reply with data, read from the block that holds it.\<close>

lemma data_replyD:
  assumes "data_reply r d"
  shows "get_at O_read_code 4 (r @ zs) = get_at O_read_code 4 r"
    and "get_at O_read_data_size 4 (r @ zs) = get_at O_read_data_size 4 r"
    and "get_at O_read_data_offset 4 (r @ zs) = get_at O_read_data_offset 4 r"
    and "get_at sizeof_packet (length d) (r @ zs) = d"
  using assms by (auto simp: data_reply_def get_at_def layout_defs)

lemma wp_fill_io:
  assumes "heap t b = Some (B_raw (packet_of ty (sizeof_packet + length src) mid pid))"
  shows "wp (poke b O_read_offset (enc_u64 (word_of_int off)))
      (\<lambda>_. wp (poke b O_read_code (enc_int 0))
      (\<lambda>_. wp (poke b O_read_data_size (enc_u32 (of_nat (length src))))
      (\<lambda>_. wp (poke b O_read_data_offset (enc_u32 (of_nat sizeof_packet)))
      (\<lambda>_. wp (poke b sizeof_packet src) Q)))) t =
    Q () (t\<lparr>heap := (heap t)(b \<mapsto> B_raw (io_packet ty mid pid off src))\<rparr>)"
  using assms by (simp add: wp_simps layout_defs io_packet_def)

lemma wp_peek_reply:
  assumes "data_reply r d" "heap s q = Some (B_raw (r @ zs))"
  shows "wp (peek K q O_read_code 4) Q s = Q (get_at O_read_code 4 r) s"
    and "wp (peek K q O_read_data_size 4) Q s = Q (get_at O_read_data_size 4 r) s"
    and "wp (peek K q O_read_data_offset 4) Q s = Q (get_at O_read_data_offset 4 r) s"
    and "wp (peek K q sizeof_packet (length d)) Q s = Q d s"
proof -
  have l: "length r = sizeof_packet + length d" using assms(1) by (simp add: data_reply_def)
  show "wp (peek K q O_read_code 4) Q s = Q (get_at O_read_code 4 r) s"
    and "wp (peek K q O_read_data_size 4) Q s = Q (get_at O_read_data_size 4 r) s"
    and "wp (peek K q O_read_data_offset 4) Q s = Q (get_at O_read_data_offset 4 r) s"
    and "wp (peek K q sizeof_packet (length d)) Q s = Q d s"
    by (subst wp_peek [OF assms(2)]; use l data_replyD [OF assms(1)] in \<open>simp add: layout_defs\<close>)+
qed

text \<open>The checks that both data requests make on a reply succeed.\<close>

lemma data_reply_checks:
  assumes "fits p r" "data_reply r d" "int (length d) \<le> dst_size" "dst_size < 2 ^ 32"
  shows "dec_int (get_at O_read_code 4 r) = 0"
    and "unat (dec_u32 (get_at O_read_data_size 4 r)) = length d"
    and "unat (dec_u32 (get_at O_read_data_offset 4 r)) = sizeof_packet"
    and "length r = sizeof_packet + length d"
    and "int_of_u32 (dec_u32 (get_at O_read_data_size 4 r)) = int (length d)"
    and "\<not> (word_of_int dst_size :: u32) < dec_u32 (get_at O_read_data_size 4 r)"
proof -
  show r: "dec_int (get_at O_read_code 4 r) = 0"
      "unat (dec_u32 (get_at O_read_data_size 4 r)) = length d"
      "unat (dec_u32 (get_at O_read_data_offset 4 r)) = sizeof_packet"
      "length r = sizeof_packet + length d"
    using assms(2) by (auto simp: data_reply_def)
  have "length d < 2 ^ 16" using assms(1) r(4) by (simp add: fits_def)
  then show "int_of_u32 (dec_u32 (get_at O_read_data_size 4 r)) = int (length d)"
    by (subst int_of_u32_small) (simp_all add: r(2))
  show "\<not> (word_of_int dst_size :: u32) < dec_u32 (get_at O_read_data_size 4 r)"
    using assms(3,4) by (simp add: word_less_nat_alt r(2) unsigned_of_int take_bit_int_eq_self)
qed

lemma wp_request_read_ok:
  fixes s src off
  defines "p \<equiv> io_packet PR_MSG_READ (next_id (unique_id s)) (cur_pid s) off src"
  assumes s: "id_free s (next_id (unique_id s))" "cur_pid s \<noteq> client_pid s" "client_connect s \<noteq> 0"
      "sizeof_packet + length src < 2 ^ 16"
    and r: "fits p (reply p)" "data_reply (reply p) d" "length d \<le> length dst"
      "int (length d) \<le> dst_size" "dst_size < 2 ^ 32"
    and got: "\<And>t. quiet (s\<lparr>unique_id := next_id (unique_id s)\<rparr>) t \<Longrightarrow> brk t = brk s + 3 \<Longrightarrow>
      heap t = (heap s)(brk s \<mapsto> B_raw p) \<Longrightarrow> Q (int (length d), put_at 0 d dst) t"
  shows "wp (teadfs_request_read K off src dst dst_size) Q s"
proof -
  have ok: "heap_ok s" using s(1) by (simp add: id_free_def)
  have b: "brk s \<noteq> 0" "0 < brk s" using ok by (simp_all add: heap_ok_def)
  have mid: "h_msg_id (get_header p) = next_id (unique_id s)"
    unfolding p_def by (simp add: io_packet_header)
  have lp: "length p = sizeof_packet + length src" unfolding p_def by simp
  note c = data_reply_checks [OF r(1,2,4,5)]
  show ?thesis
    unfolding teadfs_request_read_def write_offsets
    apply (simp add: wp_simps s(3))
    apply (rule wp_begin_request_ok)
       apply (use ok s(2) in \<open>simp_all add: heap_ok_def\<close>) [3]
    apply (use b in \<open>simp add: wp_bind wp_if\<close>)
    apply (subst wp_fill_io, simp)
    apply (fold p_def)
    apply (rule wp_send_packet_ok [where p = p and mid = "next_id (unique_id s)"])
           apply (rule id_free_alloc [OF s(1)]; simp add: quiet_def frame_def)
          apply simp
         apply (use s(4) lp in simp)
        apply (rule r(1))
       apply (rule mid)
      apply (use lp in simp)
     apply simp
    subgoal for t u
      using b c r(3)
      apply (simp add: wp_simps wp_peek_reply [OF r(2)] data_replyD [OF r(2)] copy_out_def free_if_def)
      apply (rule got)
      apply (auto simp: quiet_def frame_def fun_upd_def heap_ok_above [OF ok])
      done
    done
qed

lemma wp_peek_stale:
  assumes "heap s q = None" "dead s q = Some (B_raw b)" "off + n \<le> length b" "n \<noteq> 0"
    and "\<And>x t. quiet (s\<lparr>faults := faults s @ [Bad_access q]\<rparr>) t \<Longrightarrow> heap t = heap s \<Longrightarrow> brk t = brk s \<Longrightarrow>
      (stale_keeps K \<Longrightarrow> x = get_at off n b) \<Longrightarrow> Q x t"
  shows "wp (peek K q off n) Q s"
  using assms(1-4) unfolding peek_def stale_peek_def
  by (auto simp: wp_simps wp_call quiet_def frame_def obs_mem stale_keeps_def intro!: assms(5))

text \<open>
  A write request copies the client's data, but it reads the size of the answer once more after
  freeing it: a fault, whatever the client answers, and the size returned may be anything.
\<close>

lemma wp_request_write_ok:
  fixes s src off
  defines "p \<equiv> io_packet PR_MSG_WRITE (next_id (unique_id s)) (cur_pid s) off src"
  assumes s: "id_free s (next_id (unique_id s))" "cur_pid s \<noteq> client_pid s" "client_connect s \<noteq> 0"
      "sizeof_packet + length src < 2 ^ 16"
    and r: "fits p (reply p)" "data_reply (reply p) d" "length d \<le> length dst"
      "int (length d) \<le> dst_size" "dst_size < 2 ^ 32"
    and got: "\<And>t v. quiet (s\<lparr>unique_id := next_id (unique_id s), faults := faults s @ [Bad_access (brk s + 2)]\<rparr>) t \<Longrightarrow>
      brk t = brk s + 3 \<Longrightarrow> heap t = (heap s)(brk s \<mapsto> B_raw p) \<Longrightarrow> (stale_keeps K \<Longrightarrow> v = int (length d)) \<Longrightarrow>
      Q (v, put_at 0 d dst) t"
  shows "wp (teadfs_request_write K off src dst dst_size) Q s"
proof -
  have ok: "heap_ok s" using s(1) by (simp add: id_free_def)
  have b: "brk s \<noteq> 0" "0 < brk s" using ok by (simp_all add: heap_ok_def)
  have mid: "h_msg_id (get_header p) = next_id (unique_id s)"
    unfolding p_def by (simp add: io_packet_header)
  have lp: "length p = sizeof_packet + length src" unfolding p_def by simp
  note c = data_reply_checks [OF r(1,2,4,5)]
  have sz: "O_read_data_size + 4 \<le> length (reply p)" using c(4) by (simp add: layout_defs)
  then have app: "get_at O_read_data_size 4 (reply p @ zs) = get_at O_read_data_size 4 (reply p)" for zs
    by (simp add: get_at_def)
  show ?thesis
    unfolding teadfs_request_write_def write_offsets
    apply (simp add: wp_simps s(3))
    apply (rule wp_begin_request_ok)
       apply (use ok s(2) in \<open>simp_all add: heap_ok_def\<close>) [3]
    apply (use b in \<open>simp add: wp_bind wp_if\<close>)
    apply (subst wp_fill_io, simp)
    apply (fold p_def)
    apply (rule wp_send_packet_ok [where p = p and mid = "next_id (unique_id s)"])
           apply (rule id_free_alloc [OF s(1)]; simp add: quiet_def frame_def)
          apply simp
         apply (use s(4) lp in simp)
        apply (rule r(1))
       apply (rule mid)
      apply (use lp in simp)
     apply simp
    subgoal for t u
      using b c r(3) sz
      apply (simp add: wp_simps wp_peek_reply [OF r(2)] data_replyD [OF r(2)] copy_out_def free_if_def)
      apply (rule wp_peek_stale)
          apply simp_all [4]
      apply (simp add: wp_simps)
      apply (rule got)
         apply (auto simp: quiet_def frame_def fun_upd_def heap_ok_above [OF ok] app)
      done
    done
qed

text \<open>An open request returns the client's code and leaves nothing behind.\<close>

lemma wp_fill_path:
  assumes "heap t b = Some (B_raw (packet_of ty (sizeof_packet + length path) mid pid))"
  shows "wp (poke b O_open_file_id (enc_u64 (word_of_int file)))
      (\<lambda>_. wp (poke b O_open_path_size (enc_u32 (of_nat (length path))))
      (\<lambda>_. wp (poke b O_open_path_offset (enc_u32 (of_nat sizeof_packet)))
      (\<lambda>_. wp (poke b sizeof_packet path) Q))) t =
    Q () (t\<lparr>heap := (heap t)(b \<mapsto> B_raw (path_packet ty mid pid file path))\<rparr>)"
  using assms by (simp add: wp_simps layout_defs path_packet_def)

lemma wp_request_open_ok:
  fixes s path fid
  defines "p \<equiv> path_packet PR_MSG_OPEN (next_id (unique_id s)) (cur_pid s) fid path"
  assumes s: "id_free s (next_id (unique_id s))" "cur_pid s \<noteq> client_pid s" "client_connect s \<noteq> 0"
      "sizeof_packet + length path < 2 ^ 16" "fits p (reply p)"
    and got: "\<And>t. quiet (s\<lparr>unique_id := next_id (unique_id s)\<rparr>) t \<Longrightarrow> brk t = brk s + 3 \<Longrightarrow>
      heap t = heap s \<Longrightarrow> Q (dec_int (get_at O_error_code 4 (reply p))) t"
  shows "wp (teadfs_request_open K path fid) Q s"
proof -
  have ok: "heap_ok s" using s(1) by (simp add: id_free_def)
  have b: "brk s \<noteq> 0" "0 < brk s" using ok by (simp_all add: heap_ok_def)
  have mid: "h_msg_id (get_header p) = next_id (unique_id s)"
    unfolding p_def by (simp add: path_packet_header)
  have lp: "length p = sizeof_packet + length path" unfolding p_def by simp
  have c: "sizeof_packet \<le> length (reply p)" using s(5) by (simp add: fits_def)
  then have code: "O_error_code + 4 \<le> length (reply p)"
      "get_at O_error_code 4 (reply p @ zs) = get_at O_error_code 4 (reply p)" for zs
    by (simp_all add: layout_defs get_at_def)
  have h: "(heap s)(brk s := None, 2 + brk s := None) = heap s"
    by (simp add: fun_eq_iff heap_ok_above [OF ok])
  show ?thesis
    unfolding teadfs_request_open_def
    apply (simp add: wp_simps s(3))
    apply (rule wp_begin_request_ok)
       apply (use ok s(2) in \<open>simp_all add: heap_ok_def\<close>) [3]
    apply (use b in \<open>simp add: wp_bind wp_if\<close>)
    apply (subst wp_fill_path, simp)
    apply (fold p_def)
    apply (rule wp_send_packet_ok [where p = p and mid = "next_id (unique_id s)"])
           apply (rule id_free_alloc [OF s(1)]; simp add: quiet_def frame_def)
          apply simp
         apply (use s(4) lp in simp)
        apply (rule s(5))
       apply (rule mid)
      apply (use lp in simp)
     apply simp
    subgoal for t u
      using b c code
      apply (simp add: wp_simps free_if_def wp_peek)
      apply (rule got)
        apply (simp_all add: quiet_def frame_def h)
      apply (auto simp: fun_eq_iff heap_ok_above [OF ok])
      done
    done
qed

end

end
