(* ===== verification/Data_Path.thy ===== *)
theory Data_Path
  imports Mmap_Ops Client_Channel
begin

text \<open>
  The data path above an answering client and a lower file system that stores what it is given:
  the locale \<open>lower_store\<close> extends \<open>client_channel\<close> by the laws of \<open>kernel_read\<close> and
  \<open>kernel_write\<close> and by what the client's replies carry. Inside it, what \<open>teadfs_read_lower\<close>
  and \<open>teadfs_write_lower\<close> do to the lower file, and that reading returns what was written.
\<close>

section \<open>The interface\<close>

text \<open>Writing into a file: a gap before the offset is filled with zeros. Writing no bytes does nothing.\<close>

definition write_at :: "nat \<Rightarrow> bytes \<Rightarrow> bytes \<Rightarrow> bytes" where
  "write_at off bs c = (if bs = [] then c
     else take off (c @ replicate (off - length c) 0) @ bs @ drop (off + length bs) c)"

lemma get_write_at: "get_at off (length bs) (write_at off bs c) = bs"
  by (simp add: get_at_def write_at_def)

lemma write_at_prefix: "n \<le> off \<Longrightarrow> n \<le> length c \<Longrightarrow> take n (write_at off bs c) = take n c"
  by (simp add: write_at_def min_def)

lemma length_write_at: "bs \<noteq> [] \<Longrightarrow> length (write_at off bs c) = max (off + length bs) (length c)"
  by (simp add: write_at_def)

lemma write_at_nothing [simp]: "write_at off [] c = c"
  by (simp add: write_at_def)

locale lower_store = client_channel K reply content
  for K :: "'w kernel" and reply :: "bytes \<Rightarrow> bytes" and content :: "'w \<Rightarrow> ptr \<Rightarrow> bytes" +
  fixes enc :: "int \<Rightarrow> bytes \<Rightarrow> bytes"
    and dec :: "int \<Rightarrow> bytes \<Rightarrow> bytes"
  assumes read_data: "0 \<le> off \<Longrightarrow> rdata (fst (K (K_io (K_kernel_read f off n)) w)) = get_at (nat off) n (content w f)"
    and read_rv: "0 \<le> off \<Longrightarrow> rv (fst (K (K_io (K_kernel_read f off n)) w)) = int (length (get_at (nat off) n (content w f)))"
    and read_keeps: "content (snd (K (K_io (K_kernel_read f off n)) w)) = content w"
    and write_rv: "0 \<le> off \<Longrightarrow> rv (fst (K (K_io (K_kernel_write f d off)) w)) = int (length d)"
    and write_data: "0 \<le> off \<Longrightarrow>
      content (snd (K (K_io (K_kernel_write f d off)) w)) = (content w)(f := write_at (nat off) d (content w f))"
    and attr_keeps: "content (snd (K (K_attr a) w)) = content w"
    and load_keeps: "content (snd (K (K_load fld q) w)) = content w"
    and client_enc: "sizeof_packet + length d \<le> MAX_MSG_SIZE \<Longrightarrow> p = io_packet PR_MSG_WRITE mid pid off d \<Longrightarrow>
      fits p (reply p) \<and> data_reply (reply p) (enc off d)"
    and client_dec: "sizeof_packet + length d \<le> MAX_MSG_SIZE \<Longrightarrow> p = io_packet PR_MSG_READ mid pid off d \<Longrightarrow>
      fits p (reply p) \<and> data_reply (reply p) (dec off d)"
    and length_enc: "length (enc off d) = length d"
    and length_dec: "length (dec off d) = length d"
begin

text \<open>A file of the upper file system that is open on the lower file \<open>lf\<close>.\<close>

lemma put_at_put_at: "length d = length c \<Longrightarrow> put_at 0 d (put_at 0 c buf) = put_at 0 d buf"
  by (simp add: put_at_def)

end

text \<open>
  \<open>ready s file lf acc\<close>: a request can be made in state \<open>s\<close> and \<open>file\<close> is open on the lower file
  \<open>lf\<close> with access \<open>acc\<close>.
\<close>

definition open_on :: "'w st \<Rightarrow> ptr \<Rightarrow> ptr \<Rightarrow> int \<Rightarrow> bool" where
  "open_on s f lf acc \<longleftrightarrow> (\<exists>fi. heap s (private_data s f) = Some (B_file fi) \<and>
     lower_file fi = lf \<and> access fi = acc) \<and> lf \<noteq> 0"

definition can_request :: "'w st \<Rightarrow> bool" where
  "can_request s \<longleftrightarrow> id_free s (next_id (unique_id s)) \<and> cur_pid s \<noteq> client_pid s \<and> client_connect s \<noteq> 0"

text \<open>
  What a write leaves that passed the bytes \<open>d\<close> on: the new contents, one leaked packet, and the
  faults of reading the answer after freeing it and, perhaps, of reading past the buffer.
\<close>

definition written_on :: "('w \<Rightarrow> ptr \<Rightarrow> bytes) \<Rightarrow> 'w st \<Rightarrow> ptr \<Rightarrow> int \<Rightarrow> bytes \<Rightarrow> fault list \<Rightarrow> 'w st \<Rightarrow> bool" where
  "written_on content s lf off d oob t \<longleftrightarrow>
     frame (s\<lparr>unique_id := next_id (unique_id s), faults := faults s @ Bad_access (brk s + 3) # oob\<rparr>) t \<and>
     client_pid t = client_pid s \<and>
     content (world t) = (content (world s))(lf := write_at (nat off) d (content (world s) lf)) \<and>
     brk t = brk s + 4 \<and> (\<exists>p. heap t = (heap s)(brk s + 1 \<mapsto> B_raw p))"

text \<open>
  The code, the bytes and the faults of a write whose encrypted bytes are \<open>ed\<close>. They depend on the
  size that was read from the freed answer: a negative one ends the write, a small one cuts it, and a
  large one makes it go past the buffer.
\<close>

definition passed_on :: "'w kernel \<Rightarrow> bytes \<Rightarrow> ptr \<Rightarrow> int \<Rightarrow> bytes \<Rightarrow> fault list \<Rightarrow> bool" where
  "passed_on K ed b rc d oob \<longleftrightarrow>
     rc = - EIO \<and> d = [] \<and> oob = [] \<and> \<not> stale_keeps K \<or>
     rc = int (length d) \<and> length d \<le> length ed \<and> d = take (length d) ed \<and> oob = [] \<and> (stale_keeps K \<longrightarrow> d = ed) \<or>
     rc = int (length d) \<and> length ed < length d \<and> oob = [Out_of_bounds b] \<and> \<not> stale_keeps K"

context lower_store
begin

abbreviation written where "written \<equiv> written_on content"

lemmas written_def = written_on_def

lemma read_lower_ok:
  assumes s: "open_on s f lf OFR_DECRYPT" "can_request s" "0 \<le> off" "sizeof_packet + n \<le> MAX_MSG_SIZE" "n \<le> length buf"
    and c: "c = get_at (nat off + 256) n (content (world s) lf)"
    and got: "\<And>t p. quiet (s\<lparr>unique_id := next_id (unique_id s)\<rparr>) t \<Longrightarrow> brk t = brk s + 3 \<Longrightarrow>
      heap t = (heap s)(brk s \<mapsto> B_raw p) \<Longrightarrow>
      Q (int (length c), put_at 0 (dec (off + 256) c) buf) t"
  shows "wp (teadfs_read_lower K buf off n f) Q s"
proof -
  obtain fi where fi: "heap s (private_data s f) = Some (B_file fi)" "lower_file fi = lf"
      "access fi = OFR_DECRYPT" "lf \<noteq> 0"
    using s(1) by (auto simp: open_on_def)
  have nat: "nat (off + 256) = nat off + 256" using s(3) by simp
  have lc: "length c \<le> n" by (simp add: c get_at_def)
  then have src: "take (length c) (put_at 0 c buf) = c" "take n c = c"
    using s(5) by (simp_all add: put_at_def)
  let ?w = "snd (K (K_io (K_kernel_read lf (off + 256) n)) (world s))"
  let ?s = "s\<lparr>world := ?w, trace := trace s @ [(K_io (K_kernel_read lf (off + 256) n), int (length c))]\<rparr>"
  have d: "fits (io_packet PR_MSG_READ (next_id (unique_id ?s)) (cur_pid ?s) (off + 256) c)
      (reply (io_packet PR_MSG_READ (next_id (unique_id ?s)) (cur_pid ?s) (off + 256) c))"
    "data_reply (reply (io_packet PR_MSG_READ (next_id (unique_id ?s)) (cur_pid ?s) (off + 256) c)) (dec (off + 256) c)"
    using client_dec [of c] lc s(4) by simp_all
  have "wp (teadfs_request_read K (off + 256) c (put_at 0 c buf) (int n))
     (\<lambda>(el, dd). Q (if el \<le> 0 then int (length c) else el, dd)) ?s"
  proof (rule wp_request_read_ok [OF _ _ _ _ d])
    show "id_free ?s (next_id (unique_id ?s))" "cur_pid ?s \<noteq> client_pid ?s" "client_connect ?s \<noteq> 0"
      using s(2) by (simp_all add: can_request_def id_free_def heap_ok_def)
    show "sizeof_packet + length c < 2 ^ 16" "length (dec (off + 256) c) \<le> length (put_at 0 c buf)"
      "int (length (dec (off + 256) c)) \<le> int n" "int n < 2 ^ 32"
      using lc s(4,5) by (simp_all add: length_dec MAX_MSG_SIZE_def)
    fix t
    assume t: "quiet (?s\<lparr>unique_id := next_id (unique_id ?s)\<rparr>) t" "brk t = brk ?s + 3"
      "heap t = (heap ?s)(brk ?s \<mapsto> B_raw (io_packet PR_MSG_READ (next_id (unique_id ?s)) (cur_pid ?s) (off + 256) c))"
    have "Q (int (length c), put_at 0 (dec (off + 256) c) buf) t"
      by (rule got) (use t in \<open>simp_all add: quiet_def frame_def read_keeps\<close>)
    then show "(case (int (length (dec (off + 256) c)), put_at 0 (dec (off + 256) c) (put_at 0 c buf)) of
        (el, dd) \<Rightarrow> Q (if el \<le> 0 then int (length c) else el, dd)) t"
      by (simp add: length_dec put_at_put_at)
  qed
  then show ?thesis
    unfolding teadfs_read_lower_def teadfs_file_to_private_def
    using fi s(3) nat src
    by (simp add: wp_simps wp_call read_data read_rv ENCRYPT_FILE_HEADER_SIZE_def flip: c)
      (auto elim!: wp_mono simp: wp_simps split: if_splits)
qed

lemma wp_f_inode_okI:
  assumes "\<And>i t. quiet s t \<Longrightarrow> heap t = heap s \<Longrightarrow> brk t = brk s \<Longrightarrow> set (trace s) \<subseteq> set (trace t) \<Longrightarrow> Q i t"
  shows "wp (f_inode K f) Q s"
proof -
  have "wp (call_rv K (K_load F_f_inode f)) Q s"
    unfolding call_rv_def wp_simps wp_call
    by (rule assms) (auto simp: quiet_def frame_def load_keeps)
  moreover have "Q i s" for i by (rule assms) simp_all
  ultimately show ?thesis
    unfolding f_inode_def by (simp add: wp_simps split: option.splits block.splits)
qed

lemma wp_write_tail:
  assumes u: "heap u b = Some (B_raw e)" "b \<noteq> 0" "0 \<le> off"
    and got: "\<And>t. frame u t \<Longrightarrow> client_pid t = client_pid u \<Longrightarrow>
      content (world t) = (content (world u))(lf := write_at (nat off) d (content (world u) lf)) \<Longrightarrow>
      brk t = brk u \<Longrightarrow> heap t = (heap u)(b := None) \<Longrightarrow>
      (\<exists>r. (K_io (K_kernel_write lf d off), r) \<in> set (trace t)) \<Longrightarrow> Q (int (length d)) t"
  shows "wp (do {
             rc \<leftarrow> call_rv K (K_io (K_kernel_write lf d off));
             if rc < 0 then ret (rc, b)
             else do {
               inode \<leftarrow> f_inode K f;
               call K (K_attr (K_mark_inode_dirty_sync inode));
               ret (rc, b)
             }
           }) (\<lambda>(rc, buf). wp (free_if buf) (\<lambda>_. Q rc)) u"
  unfolding call_rv_def
  apply (simp add: wp_simps wp_call write_rv u(3))
  apply (rule wp_f_inode_okI)
  apply (simp add: wp_simps wp_call free_if_def u)
  apply (rule got)
       apply (simp_all add: quiet_def frame_def write_data u(3) attr_keeps)
  apply blast
  done

text \<open>The client encrypts the payload into the buffer \<open>b\<close>.\<close>

lemma write_payload_ok:
  assumes u: "can_request u" "heap u b = Some (B_raw (replicate (length data) 0))" "sizeof_packet + length data \<le> MAX_MSG_SIZE"
    and got: "\<And>v p rc d oob. quiet (u\<lparr>unique_id := next_id (unique_id u), faults := faults u @ Bad_access (brk u + 2) # oob\<rparr>) v \<Longrightarrow>
      brk v = brk u + 3 \<Longrightarrow> heap v = (heap u)(brk u \<mapsto> B_raw p, b \<mapsto> B_raw (enc off data)) \<Longrightarrow>
      passed_on K (enc off data) b rc d oob \<Longrightarrow>
      Q (if rc < 0 then (- EIO, data, off) else (0, d, off + 256)) v"
  shows "wp (write_payload K OFR_DECRYPT data off b) Q u"
proof -
  let ?n = "length data" and ?p = "io_packet PR_MSG_WRITE (next_id (unique_id u)) (cur_pid u) off data"
  let ?rest = "\<lambda>el. if el < 0 then ret (- EIO, data, off) else do { d \<leftarrow> peek K b 0 (nat el); ret (0, d, off + 256) }"
  have d: "fits ?p (reply ?p)" "data_reply (reply ?p) (enc off data)" using client_enc [OF u(3)] by blast+
  have b: "b \<noteq> brk u" using u(1,2) by (auto simp: can_request_def id_free_def heap_ok_def)
  have "wp (teadfs_request_write K off data (replicate ?n 0) (int ?n))
      (\<lambda>(el, out). wp (poke b 0 out) (\<lambda>_. wp (?rest el) Q)) u"
  proof (rule wp_request_write_ok [OF _ _ _ _ d])
    show "id_free u (next_id (unique_id u))" "cur_pid u \<noteq> client_pid u" "client_connect u \<noteq> 0"
      using u(1) by (simp_all add: can_request_def)
    fix v el
    assume v: "quiet (u\<lparr>unique_id := next_id (unique_id u), faults := faults u @ [Bad_access (brk u + 2)]\<rparr>) v"
      "brk v = brk u + 3" "heap v = (heap u)(brk u \<mapsto> B_raw ?p)" "stale_keeps K \<Longrightarrow> el = int (length (enc off data))"
    let ?v = "v\<lparr>heap := (heap v)(b \<mapsto> B_raw (enc off data))\<rparr>"
    have "wp (?rest el) Q ?v"
    proof (cases "el < 0")
      case True
      have "Q (if - EIO < 0 then (- EIO, data, off) else (0, [], off + 256)) ?v"
        by (rule got [where oob = "[]"]) (use v True in \<open>auto simp: quiet_def frame_def passed_on_def\<close>)
      then show ?thesis using True by (simp add: wp_simps EIO_def)
    next
      case False
      show ?thesis
      proof (cases "nat el \<le> length (enc off data)")
        case True
        have "Q (if el < 0 then (- EIO, data, off) else (0, take (nat el) (enc off data), off + 256)) ?v"
          by (rule got [where oob = "[]"]) (use v True False in \<open>auto simp: quiet_def frame_def passed_on_def\<close>)
        then show ?thesis using True False by (auto simp: wp_simps peek_def get_at_def)
      next
        case big: False
        have "Q (if el < 0 then (- EIO, data, off) else (0, replicate (nat el) 0, off + 256))
            (?v\<lparr>faults := faults ?v @ [Out_of_bounds b]\<rparr>)"
          by (rule got [where oob = "[Out_of_bounds b]"])
            (use v big False in \<open>auto simp: quiet_def frame_def passed_on_def\<close>)
        then show ?thesis using big False by (auto simp: wp_simps peek_def raise_fault_def)
      qed
    qed
    moreover have "heap v b = Some (B_raw (replicate ?n 0))" using v(3) b u(2) by simp
    ultimately show "(case (el, put_at 0 (enc off data) (replicate ?n 0)) of
        (el, out) \<Rightarrow> wp (poke b 0 out) (\<lambda>_. wp (?rest el) Q)) v"
      by (simp add: wp_poke length_enc put_at_def)
  qed (use u(3) in \<open>simp_all add: length_enc MAX_MSG_SIZE_def\<close>)
  then show ?thesis
    unfolding write_payload_def by (simp add: wp_bind ENCRYPT_FILE_HEADER_SIZE_def split_def cong: if_cong)
qed

lemma write_lower_ok:
  assumes s: "open_on s f lf OFR_DECRYPT" "can_request s" "0 \<le> off" "sizeof_packet + length data \<le> MAX_MSG_SIZE"
    and got: "\<And>t rc d oob. written s lf (off + 256) d oob t \<Longrightarrow> passed_on K (enc off data) (brk s) rc d oob \<Longrightarrow>
      (0 \<le> rc \<Longrightarrow> \<exists>r. (K_io (K_kernel_write lf d (off + 256)), r) \<in> set (trace t)) \<Longrightarrow> Q rc t"
  shows "wp (teadfs_write_lower K f data off) Q s"
proof -
  obtain fi where fi: "heap s (private_data s f) = Some (B_file fi)" "lower_file fi = lf" "access fi = OFR_DECRYPT" "lf \<noteq> 0"
    using s(1) by (auto simp: open_on_def)
  have ok: "heap_ok s" using s(2) by (simp add: can_request_def id_free_def)
  have b: "brk s \<noteq> 0" using ok by (simp add: heap_ok_def)
  have tail: "wp (do {
         (rc0, data', offset') \<leftarrow> write_payload K OFR_DECRYPT data off (brk s);
         if rc0 < 0 then ret (rc0, brk s)
         else do {
           rc \<leftarrow> call_rv K (K_io (K_kernel_write lf data' offset'));
           if rc < 0 then ret (rc, brk s)
           else do { inode \<leftarrow> f_inode K f; call K (K_attr (K_mark_inode_dirty_sync inode)); ret (rc, brk s) }
         } }) (\<lambda>(rc, buf). wp (free_if buf) (\<lambda>_. Q rc)) u"
    if u: "quiet s u" "heap u = (heap s)(brk s \<mapsto> B_raw (replicate (length data) 0))" "brk u = brk s + 1" for u
  proof (subst wp_bind, rule write_payload_ok)
    show "can_request u"
      using s(2) id_free_alloc [OF _ u(2,3)] u(1) by (simp add: can_request_def quiet_def frame_def)
    fix v p rc d oob
    assume v: "quiet (u\<lparr>unique_id := next_id (unique_id u), faults := faults u @ Bad_access (brk u + 2) # oob\<rparr>) v"
      "brk v = brk u + 3" "heap v = (heap u)(brk u \<mapsto> B_raw p, brk s \<mapsto> B_raw (enc off data))"
      "passed_on K (enc off data) (brk s) rc d oob"
    have Q: "Q rc t" if t: "frame v t" "client_pid t = client_pid v" "brk t = brk v"
        "content (world t) = (content (world v))(lf := write_at (nat (off + 256)) d (content (world v) lf))"
        "heap t = (heap v)(brk s := None)" "0 \<le> rc \<Longrightarrow> \<exists>r. (K_io (K_kernel_write lf d (off + 256)), r) \<in> set (trace t)" for t
    proof -
      have "heap t = (heap s)(brk s + 1 \<mapsto> B_raw p)"
        using t(5) v(3) u(2,3) by (simp add: fun_eq_iff heap_ok_above [OF ok])
      then have "written s lf (off + 256) d oob t"
        unfolding written_def using t(1-4) v(1,2) u(1,3) by (auto simp: quiet_def frame_def)
      then show ?thesis using got v(4) t(6) by blast
    qed
    have h: "heap v (brk s) = Some (B_raw (enc off data))" using v(3) by simp
    show "wp (case if rc < 0 then (- EIO, data, off) else (0, d, off + 256) of (rc0, data', offset') \<Rightarrow>
         if rc0 < 0 then ret (rc0, brk s)
         else do {
           rc \<leftarrow> call_rv K (K_io (K_kernel_write lf data' offset'));
           if rc < 0 then ret (rc, brk s)
           else do { inode \<leftarrow> f_inode K f; call K (K_attr (K_mark_inode_dirty_sync inode)); ret (rc, brk s) }
         }) (\<lambda>(rc, buf). wp (free_if buf) (\<lambda>_. Q rc)) v"
    proof (cases "rc < 0")
      case True
      then have rc: "rc = - EIO" "d = []" using v(4) by (auto simp: passed_on_def)
      have "Q rc (v\<lparr>trace := trace v @ [(K_mem (K_kfree (brk s)), 0)], heap := (heap v)(brk s := None),
          dead := (dead v)(brk s \<mapsto> B_raw (enc off data))\<rparr>)"
        by (rule Q) (simp_all add: frame_def rc EIO_def)
      then show ?thesis using True b h rc by (simp add: wp_simps free_if_def)
    next
      case False
      then have "rc = int (length d)" using v(4) by (auto simp: passed_on_def EIO_def)
      then show ?thesis using False b s(3) h Q by (simp, intro wp_write_tail [OF h]) simp_all
    qed
  qed (use u s(4) in simp_all)
  show ?thesis
    unfolding teadfs_write_lower_def teadfs_file_to_private_def
    using fi b
    apply (simp add: wp_simps ofr_defs)
    apply (rule wp_zalloc_okI)
    using tail apply (simp add: wp_simps ofr_defs split_def cong: if_cong)
    done
qed

text \<open>Writing a range and reading it back.\<close>

lemma written_can_request:
  assumes "written s lf off d oob t" "can_request s" "id_free s (next_id (next_id (unique_id s)))"
  shows "can_request t"
proof -
  obtain p where h: "heap t = (heap s)(brk s + 1 \<mapsto> B_raw p)" using assms(1) by (auto simp: written_def)
  have f: "msg_ctx_queue t = msg_ctx_queue s" "unique_id t = next_id (unique_id s)" "brk t = brk s + 4"
    "cur_pid t = cur_pid s" "client_pid t = client_pid s" "client_connect t = client_connect s"
    using assms(1) by (auto simp: written_def frame_def)
  have ok: "heap_ok s" using assms(3) by (simp add: id_free_def)
  then have "heap s (brk s + 1) = None" by (simp add: heap_ok_above)
  then have "\<exists>y. heap t d = Some (B_ctx y) \<and> msg_id y \<noteq> next_id (unique_id t)"
    if "d \<in> set (msg_ctx_queue s)" for d
    using that assms(3) h f(2) by (auto simp: id_free_def)
  moreover have "heap_ok t"
    using ok h f(3) unfolding heap_ok_def by (fastforce split: if_splits)
  ultimately show ?thesis using assms(2) f by (simp add: can_request_def id_free_def)
qed

lemma written_open_on:
  assumes "written s lf off d oob t" "open_on s f lf acc" "heap_ok s"
  shows "open_on t f lf acc"
proof -
  obtain p where h: "heap t = (heap s)(brk s + 1 \<mapsto> B_raw p)" "private_data t = private_data s"
    using assms(1) by (auto simp: written_def frame_def)
  then show ?thesis using assms(2) heap_ok_above [OF assms(3), of "brk s + 1"]
    by (auto simp: open_on_def)
qed

lemma write_read_ok:
  assumes s: "open_on s f lf OFR_DECRYPT" "can_request s" "id_free s (next_id (next_id (unique_id s)))"
      "0 \<le> off" "sizeof_packet + length data \<le> MAX_MSG_SIZE" "length data \<le> length buf"
    and inv: "\<And>k. dec (off + 256) (take k (enc off data)) = take k data"
  shows "wp (teadfs_write_lower K f data off) (\<lambda>w t. 0 \<le> w \<longrightarrow> w \<le> int (length data) \<longrightarrow>
    wp (teadfs_read_lower K buf off (nat w) f) (\<lambda>a _. a = (w, put_at 0 (take (nat w) data) buf)) t) s"
proof (rule write_lower_ok [OF s(1,2,4,5)], intro impI)
  fix t w d oob
  assume t: "written s lf (off + 256) d oob t" and p: "passed_on K (enc off data) (brk s) w d oob"
    and w: "0 \<le> w" "w \<le> int (length data)"
  have d: "w = int (length d)" "d = take (length d) (enc off data)" "length d \<le> length data"
    using p w by (auto simp: passed_on_def length_enc EIO_def)
  have ok: "heap_ok s" using s(3) by (simp add: id_free_def)
  have "content (world t) lf = write_at (nat off + 256) d (content (world s) lf)"
    using t s(4) by (simp add: written_def nat_add_distrib)
  then have c: "get_at (nat off + 256) (length d) (content (world t) lf) = d"
    using get_write_at [of "nat off + 256" d] by simp
  show "wp (teadfs_read_lower K buf off (nat w) f) (\<lambda>a _. a = (w, put_at 0 (take (nat w) data) buf)) t"
  proof (rule read_lower_ok [where c = d, OF written_open_on [OF t s(1) ok] written_can_request [OF t s(2,3)] s(4)])
    have "dec (off + 256) d = take (length d) data" using inv [of "length d"] d(2) by metis
    then show "(int (length d), put_at 0 (dec (off + 256) d) buf) = (w, put_at 0 (take (nat w) data) buf)"
      using d(1) by simp
  qed (use s(5,6) d(1,3) c in simp_all)
qed

end

end
