(* ===== verification/Client_Daemon.thy ===== *)
theory Client_Daemon
  imports Data_Path "HOL-Library.Sublist"
begin

text \<open>
  The user-mode client (\<open>TEADFS-utils\<close>): receiving a message, dispatching it, building the
  response from the callbacks the application registered, sending it back; and the example
  application of \<open>test.cpp\<close>. The last section closes the loop: a host whose netlink layer runs
  this client and whose lower file system stores bytes is an instance of the data path's interface.
\<close>

section \<open>Dispatch (main.cpp)\<close>

text \<open>
  The callbacks of \<open>TEAFS_DEAL_CB\<close>. A data callback maps the offset and the source bytes to the
  bytes it leaves in the destination buffer.
\<close>

record TEAFS_DEAL_CB =
  cb_open :: "(u64 \<Rightarrow> u32 \<Rightarrow> bytes \<Rightarrow> int) option"
  cb_release :: "(u64 \<Rightarrow> u32 \<Rightarrow> bytes \<Rightarrow> int) option"
  cb_read :: "(u64 \<Rightarrow> bytes \<Rightarrow> bytes) option"
  cb_write :: "(u64 \<Rightarrow> bytes \<Rightarrow> bytes) option"
  cb_cleanup :: "(u64 \<Rightarrow> int) option"

definition DATA_EXTENSION_SIZE :: nat where "DATA_EXTENSION_SIZE = 32"

text \<open>The run of bytes that a size and an offset field of a packet describe.\<close>

definition packet_run :: "bytes \<Rightarrow> nat \<Rightarrow> nat \<Rightarrow> bytes" where
  "packet_run pkt szf offf =
     get_at (unat (dec_u32 (get_at offf 4 pkt))) (unat (dec_u32 (get_at szf 4 pkt))) pkt"

text \<open>A \<open>char *\<close> argument ends at its first zero byte.\<close>

definition c_string :: "bytes \<Rightarrow> bytes" where
  "c_string bs = takeWhile (\<lambda>b. b \<noteq> 0) bs"

text \<open>\<open>response->header = request->header; response->data.code.error_code = nCode\<close>\<close>

definition code_response :: "bytes \<Rightarrow> int \<Rightarrow> bytes" where
  "code_response pkt nCode =
     put_at O_error_code (enc_int nCode) (put_at 0 (get_at 0 32 pkt) (replicate sizeof_packet 0))"

definition data_response :: "bytes \<Rightarrow> bytes \<Rightarrow> bytes" where
  "data_response pkt dst =
     put_at sizeof_packet dst
       (put_at O_read_data_offset (enc_u32 (of_nat sizeof_packet))
         (put_at O_read_data_size (enc_u32 (of_nat (length dst)))
           (put_at O_read_code (enc_int 0)
             (put_at 0 (get_at 0 32 pkt) (replicate (sizeof_packet + length dst) 0)))))"

text \<open>
  \<open>nCode\<close> is the value of the local variable that is left unset without a callback. A cleanup
  message and a message of unknown type are answered by an empty one.
\<close>

definition deal_teadfs_msg :: "TEAFS_DEAL_CB \<Rightarrow> int \<Rightarrow> bytes \<Rightarrow> bytes" where
  "deal_teadfs_msg cb nCode pkt =
     (let ty = h_msg_type (get_header pkt); pid = h_pid (get_header pkt) in
      if ty = PR_MSG_OPEN then
        code_response pkt (case cb_open cb of None \<Rightarrow> nCode
          | Some f \<Rightarrow> f (dec_u64 (get_at O_open_file_id 8 pkt)) pid
              (c_string (packet_run pkt O_open_path_size O_open_path_offset)))
      else if ty = PR_MSG_RELEASE then
        code_response pkt (case cb_release cb of None \<Rightarrow> nCode
          | Some f \<Rightarrow> f (dec_u64 (get_at O_release_file_id 8 pkt)) pid
              (c_string (packet_run pkt O_open_path_size O_open_path_offset)))
      else if ty = PR_MSG_READ then
        data_response pkt (case cb_read cb of
            None \<Rightarrow> replicate (unat (dec_u32 (get_at O_write_data_size 4 pkt)) + DATA_EXTENSION_SIZE) 0
          | Some f \<Rightarrow> f (dec_u64 (get_at O_read_offset 8 pkt))
              (packet_run pkt O_read_data_size O_read_data_offset))
      else if ty = PR_MSG_WRITE then
        data_response pkt (case cb_write cb of
            None \<Rightarrow> replicate (unat (dec_u32 (get_at O_write_data_size 4 pkt)) + DATA_EXTENSION_SIZE) 0
          | Some f \<Rightarrow> f (dec_u64 (get_at O_write_offset 8 pkt))
              (packet_run pkt O_write_data_size O_write_data_offset))
      else [])"

section \<open>Netlink (netlink.cpp)\<close>

text \<open>\<open>SendMsg\<close>: \<open>junk\<close> are the type and sequence fields of the header that are never set.\<close>

definition SendMsg :: "bytes \<times> bytes \<Rightarrow> bytes \<Rightarrow> bytes" where
  "SendMsg junk pData =
     enc_u32 (of_nat (NLMSG_HDRLEN + length pData)) @ fst junk @ [0, 0] @ snd junk @ enc_u32 0 @ pData"

text \<open>
  \<open>ThreadRcv\<close> copies as many bytes from the start of the payload as the whole message had: the
  packet is followed by \<open>tail\<close>, whatever the buffer held. Messages longer than the buffer are cut.
\<close>

definition ThreadRcv :: "bytes \<Rightarrow> bytes \<Rightarrow> bytes" where
  "ThreadRcv tail msg = take MAX_MSG_SIZE (drop NLMSG_HDRLEN msg) @ tail"

text \<open>\<open>thread_pool_cb_func\<close>: the messages sent back to the kernel for one received message.\<close>

definition thread_pool_cb_func :: "TEAFS_DEAL_CB \<Rightarrow> int \<Rightarrow> bytes \<times> bytes \<Rightarrow> bytes \<Rightarrow> bytes list" where
  "thread_pool_cb_func cb nCode junk pkt =
     (if h_initiator (get_header pkt) = 1 then []
      else [SendMsg junk (deal_teadfs_msg cb nCode pkt)])"

section \<open>The example application (test.cpp)\<close>

definition xor_byte :: "byte \<Rightarrow> byte" where "xor_byte b = b XOR 0x13"

definition test_read :: "u64 \<Rightarrow> bytes \<Rightarrow> bytes" where "test_read offset src = map xor_byte src"
definition test_write :: "u64 \<Rightarrow> bytes \<Rightarrow> bytes" where "test_write offset src = map xor_byte src"

definition ENCRYPT_FILE_FLAG :: u32 where "ENCRYPT_FILE_FLAG = 0x44414554"

text \<open>
  \<open>GetProcPath\<close> reads the link \<open>/proc/<pid>/exe\<close>; \<open>readlink\<close> gives the target of a link. When it
  fails, the result is whatever the buffer held (\<open>junk\<close>). The process id is printed as a signed
  number.
\<close>

definition exe_link :: "u32 \<Rightarrow> bytes" where
  "exe_link pid = map of_char ''/proc/'' @ (if sint pid < 0 then [45] else []) @ decimal (nat \<bar>sint pid\<bar>) @
     map of_char ''/exe''"

definition GetProcPath :: "(bytes \<Rightarrow> bytes option) \<Rightarrow> bytes \<Rightarrow> u32 \<Rightarrow> bytes" where
  "GetProcPath readlink junk pid = c_string (case readlink (exe_link pid) of
     None \<Rightarrow> junk
   | Some target \<Rightarrow> take (PATH_MAX - 1) target @ [0])"

text \<open>The part of a path from its last slash on. \<open>release\<close> computes it and does not use it.\<close>

definition GetFileName :: "bytes \<Rightarrow> bytes" where
  "GetFileName strPath = (if 47 \<in> set strPath then 47 # rev (takeWhile (\<lambda>c. c \<noteq> 47) (rev strPath)) else strPath)"

text \<open>
  The decision of \<open>open\<close> from the path of the calling program and the contents of the file
  (\<open>None\<close>: it cannot be opened).
\<close>

definition test_open :: "bytes \<Rightarrow> bytes option \<Rightarrow> int" where
  "test_open strProcPath file = (case file of
     None \<Rightarrow> OFR_INIT
   | Some c \<Rightarrow>
       if length c < 256 then OFR_INIT
       else if dec_u32 (take 4 c) = ENCRYPT_FILE_FLAG
       then (if sublist (map of_char ''cat'') strProcPath then OFR_ENCRYPT else OFR_DECRYPT)
       else OFR_INIT)"

text \<open>
  The system calls of \<open>release\<close>: whether a file can be opened or created, how many bytes a read or a
  write at a position transfers of those it asks for (a read fails with \<open>None\<close>), and whether the
  rename succeeds.
\<close>

record user_io =
  may_read :: "bytes \<Rightarrow> bool"
  may_create :: "bytes \<Rightarrow> bool"
  read_some :: "nat \<Rightarrow> nat \<Rightarrow> nat option"
  write_some :: "nat \<Rightarrow> nat \<Rightarrow> nat"
  renames :: bool

text \<open>The bytes that a read delivers; there are none at the end of the file and after an error.\<close>

definition sys_read :: "user_io \<Rightarrow> bytes \<Rightarrow> nat \<Rightarrow> nat \<Rightarrow> bytes" where
  "sys_read io c pos n = (case read_some io pos n of None \<Rightarrow> [] | Some k \<Rightarrow> take (min k n) (drop pos c))"

text \<open>The file after a write at a position, and the number of bytes written.\<close>

definition sys_write :: "user_io \<Rightarrow> nat \<Rightarrow> bytes \<Rightarrow> bytes \<Rightarrow> bytes \<times> nat" where
  "sys_write io pos bs c = (let k = min (write_some io pos (length bs)) (length bs) in (write_at pos (take k bs) c, k))"

text \<open>
  The loop of \<open>release\<close>, with the contents of the source, the positions in both files and the
  contents of the destination. The result of a write is not looked at: what it did not write is lost.
\<close>

function copy_loop :: "user_io \<Rightarrow> bytes \<Rightarrow> nat \<Rightarrow> nat \<Rightarrow> bytes \<Rightarrow> bytes" where
  "copy_loop io c pos dpos dst =
     (let chBuf = sys_read io c pos 1024 in
      if chBuf = [] then dst
      else let (dst', n) = sys_write io dpos (map xor_byte chBuf) dst
        in copy_loop io c (pos + length chBuf) (dpos + n) dst')"
  by auto
termination
  by (relation "measure (\<lambda>(io, c, pos, dpos, dst). length c - pos)")
    (auto simp: sys_read_def split: option.splits)

text \<open>
  What \<open>release\<close> does to the files of user space; its return value is always \<open>TRFR_NORMAL\<close>. A file
  whose path does not contain \<open>.txt\<close>, one that cannot be opened, one that has the label, and one whose
  temporary file cannot be created stay as they are. Otherwise the header with the flag and the
  encrypted bytes are written over what the temporary file holds: it is opened without \<open>O_TRUNC\<close>.
  \<open>pread\<close> did not move the position of the source; behind the flag the header keeps the bytes that
  \<open>pread\<close> left in it. Then the temporary file is renamed. Modes, owners and times are left out.
\<close>

definition test_release :: "user_io \<Rightarrow> (bytes \<Rightarrow> bytes option) \<Rightarrow> bytes \<Rightarrow> (bytes \<Rightarrow> bytes option)" where
  "test_release io fs strFilePath =
     (if \<not> sublist (map of_char ''.txt'') strFilePath then fs
      else case fs strFilePath of
        None \<Rightarrow> fs
      | Some c \<Rightarrow>
          if \<not> may_read io strFilePath then fs
          else
            let chHeader = sys_read io c 0 256 in
            if 256 \<le> length chHeader \<and> dec_u32 (take 4 chHeader) = ENCRYPT_FILE_FLAG then fs
            else
              let strTmpPath = strFilePath @ map of_char ''.teadfstmp'' in
              if \<not> may_create io strTmpPath then fs
              else
                let old = (case fs strTmpPath of None \<Rightarrow> [] | Some b \<Rightarrow> b);
                    header = put_at 0 (enc_u32 ENCRYPT_FILE_FLAG) (put_at 0 chHeader (replicate 256 0));
                    (dst, n) = sys_write io 0 header old;
                    dst = copy_loop io c 0 n dst
                in if renames io then fs(strTmpPath := None, strFilePath \<mapsto> dst) else fs(strTmpPath \<mapsto> dst))"

declare copy_loop.simps [simp del]

text \<open>
  The callbacks that \<open>main\<close> registers, in a user space where \<open>prog_of\<close> gives the program of a
  process (in the source, \<open>GetProcPath\<close>) and \<open>fs\<close> the contents of a path.
\<close>

definition test_cb :: "(u32 \<Rightarrow> bytes) \<Rightarrow> (bytes \<Rightarrow> bytes option) \<Rightarrow> TEAFS_DEAL_CB" where
  "test_cb prog_of fs = \<lparr>cb_open = Some (\<lambda>_ pid path. test_open (prog_of pid) (fs path)),
     cb_release = Some (\<lambda>_ _ _. RFR_NORMAL),
     cb_read = Some test_read, cb_write = Some test_write, cb_cleanup = Some (\<lambda>_. 0)\<rparr>"

section \<open>Lemmas\<close>

lemma GetProcPath_target:
  "readlink (exe_link pid) = Some target \<Longrightarrow> 0 \<notin> set target \<Longrightarrow> length target < PATH_MAX \<Longrightarrow>
     GetProcPath readlink junk pid = target"
  by (auto simp: GetProcPath_def c_string_def takeWhile_append)

lemma GetFileName_suffix: "suffix (GetFileName p) p"
proof (cases "47 \<in> set p")
  case True
  then obtain xs ys where "p = xs @ 47 # ys" "47 \<notin> set ys" by (metis split_list_last)
  then show ?thesis by (auto simp: GetFileName_def suffix_def takeWhile_append)
qed (simp add: GetFileName_def)

lemma get_at_append: "off + n \<le> length p \<Longrightarrow> get_at off n (p @ z) = get_at off n p"
  by (simp add: get_at_def)

lemma get_header_append: "sizeof_packet \<le> length p \<Longrightarrow> get_header (p @ z) = get_header p"
  by (simp add: get_header_def layout_defs get_at_append)

lemma get_header_copy:
  assumes "off + n \<le> 32" "32 \<le> length pkt"
  shows "get_at off n (put_at 0 (get_at 0 32 pkt) zs) = get_at off n pkt"
proof -
  have "put_at 0 (get_at 0 32 pkt) zs = take 32 pkt @ drop 32 zs"
    using assms(2) by (simp add: put_at_def get_at_def)
  moreover have "get_at off n (take 32 pkt @ drop 32 zs) = get_at off n (take 32 pkt)"
    using assms by (intro get_at_append) simp
  ultimately show ?thesis using get_at_take [OF assms(1)] by metis
qed

lemma data_response_length [simp]: "32 \<le> length pkt \<Longrightarrow> length (data_response pkt d) = sizeof_packet + length d"
  by (simp add: data_response_def layout_defs)

lemma data_response_header:
  assumes "32 \<le> length pkt"
  shows "get_header (data_response pkt d) = get_header pkt"
proof -
  have "get_at off n (data_response pkt d) = get_at off n pkt" if "off + n \<le> 32" for off n
  proof -
    have "get_at off n (data_response pkt d) = get_at off n (put_at 0 (get_at 0 32 pkt) (replicate (sizeof_packet + length d) 0))"
      using that assms by (simp add: data_response_def layout_defs buf_simps)
    also have "\<dots> = get_at off n pkt"
      by (rule get_header_copy [OF that assms])
    finally show ?thesis .
  qed
  then show ?thesis by (simp add: get_header_def layout_defs)
qed

lemma data_response_reply:
  assumes "32 \<le> length pkt" "length d < 2 ^ 32"
  shows "data_reply (data_response pkt d) d"
proof -
  have "unat (of_nat (length d) :: u32) = length d" "unat (of_nat sizeof_packet :: u32) = sizeof_packet"
    using assms(2) by (simp_all add: unat_of_nat layout_defs)
  moreover have "dec_int (enc_int 0) = 0" by (simp add: dec_enc_int)
  moreover have "drop sizeof_packet (data_response pkt d) = d"
    using assms(1) by (simp add: data_response_def layout_defs put_at_def get_at_def)
  ultimately show ?thesis
    using assms(1) by (simp add: data_reply_def) (simp add: data_response_def layout_defs buf_simps)
qed

lemma code_response_header:
  assumes "32 \<le> length pkt"
  shows "get_header (code_response pkt c) = get_header pkt" "length (code_response pkt c) = sizeof_packet"
    "get_at O_error_code 4 (code_response pkt c) = enc_int c"
proof -
  have "get_at off n (code_response pkt c) = get_at off n pkt" if "off + n \<le> 32" for off n
  proof -
    have "get_at off n (code_response pkt c) = get_at off n (put_at 0 (get_at 0 32 pkt) (replicate sizeof_packet 0))"
      using that assms by (simp add: code_response_def layout_defs buf_simps)
    also have "\<dots> = get_at off n pkt"
      by (rule get_header_copy [OF that assms])
    finally show ?thesis .
  qed
  then show "get_header (code_response pkt c) = get_header pkt" by (simp add: get_header_def layout_defs)
  show "length (code_response pkt c) = sizeof_packet" "get_at O_error_code 4 (code_response pkt c) = enc_int c"
    using assms by (simp_all add: code_response_def layout_defs buf_simps)
qed

text \<open>What the client sees of a data packet of the kernel, whatever follows it in the buffer.\<close>

lemma io_packet_run:
  assumes "length src < 2 ^ 32"
  shows "packet_run (io_packet ty mid pid off src @ z) O_read_data_size O_read_data_offset = src"
proof -
  have "unat (of_nat (length src) :: u32) = length src" "unat (of_nat sizeof_packet :: u32) = sizeof_packet"
    using assms by (simp_all add: unat_of_nat layout_defs)
  moreover have "get_at O_read_data_size 4 (io_packet ty mid pid off src @ z) = enc_u32 (of_nat (length src))"
    "get_at O_read_data_offset 4 (io_packet ty mid pid off src @ z) = enc_u32 (of_nat sizeof_packet)"
    "get_at sizeof_packet (length src) (io_packet ty mid pid off src @ z) = src"
    by (subst get_at_append; simp add: io_packet_fields layout_defs [symmetric]; simp add: layout_defs)+
  ultimately show ?thesis by (simp add: packet_run_def)
qed

lemma carries_SendMsg:
  assumes "length p < 2 ^ 16" "length (fst junk) = 2" "length (snd junk) = 4"
  shows "carries (SendMsg junk p) p"
proof -
  have "unat (of_nat (NLMSG_HDRLEN + length p) :: u32) = NLMSG_HDRLEN + length p"
    unfolding unat_of_nat using assms(1) by (simp add: NLMSG_HDRLEN_def)
  moreover have "get_at 0 4 (SendMsg junk p) = enc_u32 (of_nat (NLMSG_HDRLEN + length p))"
    by (simp add: SendMsg_def get_at_def)
  ultimately have "unat (nlmsg_len_field (SendMsg junk p)) = NLMSG_HDRLEN + length p"
    by (simp add: nlmsg_len_field_def)
  moreover have "nlmsg_data (SendMsg junk p) = p" "length (SendMsg junk p) = NLMSG_HDRLEN + length p"
    using assms(2,3) by (simp_all add: nlmsg_data_def SendMsg_def NLMSG_HDRLEN_def)
  ultimately show ?thesis by (simp add: carries_def)
qed

section \<open>A host that runs the client\<close>

text \<open>
  The world of the host: the contents of the lower files, the client's replies on the wire and the
  path names of dentries. Its kernel has memory, hands a sent packet to the client and stores
  bytes. All inodes are regular files; the dentry of a file and the lower file of a lower dentry
  have the same number. All other calls return zero.
\<close>

record host =
  files :: "ptr \<Rightarrow> bytes"
  wire :: "bytes list"
  names :: "ptr \<Rightarrow> bytes"

record client =
  callbacks :: TEAFS_DEAL_CB
  unset_code :: int
  header_junk :: "bytes \<times> bytes"
  buffer_tail :: bytes

definition client_reply :: "client \<Rightarrow> bytes \<Rightarrow> bytes" where
  "client_reply cl p = deal_teadfs_msg (callbacks cl) (unset_code cl) (take MAX_MSG_SIZE p @ buffer_tail cl)"

definition client_run :: "client \<Rightarrow> bytes \<Rightarrow> bytes list" where
  "client_run cl msg = thread_pool_cb_func (callbacks cl) (unset_code cl) (header_junk cl)
     (ThreadRcv (buffer_tail cl) msg)"

fun host_kernel :: "client \<Rightarrow> kcall \<Rightarrow> host \<Rightarrow> kret \<times> host" where
  "host_kernel cl (K_mem (K_kzalloc n)) w = (KRet 1 [] [], w)"
| "host_kernel cl (K_net (K_nlmsg_new n)) w = (KRet 1 [] [], w)"
| "host_kernel cl (K_net (K_nlmsg_put skb n)) w = (KRet 1 [] [], w)"
| "host_kernel cl (K_net (K_netlink_unicast skb pid msg)) w =
     (KRet (int (length msg)) [] [], w\<lparr>wire := client_run cl msg\<rparr>)"
| "host_kernel cl (K_net (K_wait_event_timeout c)) w = (KRet 1 [] (wire w), w\<lparr>wire := []\<rparr>)"
| "host_kernel cl (K_io (K_kernel_read f off n)) w =
     (KRet (int (length (get_at (nat off) n (files w f)))) (get_at (nat off) n (files w f)) [], w)"
| "host_kernel cl (K_io (K_kernel_write f d off)) w =
     (KRet (int (length d)) [] [], w\<lparr>files := (files w)(f := write_at (nat off) d (files w f))\<rparr>)"
| "host_kernel cl (K_io (K_d_path d m n)) w = (KRet 1 (names w d) [], w)"
| "host_kernel cl (K_io (K_dentry_open d m fl)) w = (KRet d [] [], w)"
| "host_kernel cl (K_load F_f_dentry f) w = (KRet f [] [], w)"
| "host_kernel cl (K_load F_i_mode i) w = (KRet 0x8000 [] [], w)"
| "host_kernel cl c w = (KRet 0 [] [], w)"

text \<open>A client whose callbacks map each byte, and whose unset header fields have their C size.\<close>

definition bytewise :: "(byte \<Rightarrow> byte) \<Rightarrow> (byte \<Rightarrow> byte) \<Rightarrow> client \<Rightarrow> bool" where
  "bytewise e d cl \<longleftrightarrow> cb_write (callbacks cl) = Some (\<lambda>_. map e) \<and> cb_read (callbacks cl) = Some (\<lambda>_. map d) \<and>
     length (fst (header_junk cl)) = 2 \<and> length (snd (header_junk cl)) = 4"

lemma deal_io:
  assumes "p = io_packet ty mid pid off src" "sizeof_packet + length src \<le> MAX_MSG_SIZE" "bytewise e d cl"
  shows "ty = PR_MSG_WRITE \<Longrightarrow> client_reply cl p = data_response (p @ buffer_tail cl) (map e src)"
    and "ty = PR_MSG_READ \<Longrightarrow> client_reply cl p = data_response (p @ buffer_tail cl) (map d src)"
proof -
  have l: "length p = sizeof_packet + length src" using assms(1) by simp
  have h: "get_header (p @ buffer_tail cl) = get_header p" by (rule get_header_append) (simp add: l)
  have t: "take MAX_MSG_SIZE p = p" using l assms(2) by simp
  have r: "packet_run (p @ buffer_tail cl) O_read_data_size O_read_data_offset = src"
    unfolding assms(1) by (rule io_packet_run) (use assms(2) in \<open>simp add: MAX_MSG_SIZE_def\<close>)
  have ty: "h_msg_type (get_header p) = ty" by (simp add: assms(1) io_packet_header)
  show "client_reply cl p = data_response (p @ buffer_tail cl) (map e src)" if "ty = PR_MSG_WRITE"
    using assms(3) that r unfolding client_reply_def deal_teadfs_msg_def t h ty bytewise_def
    by (simp add: msg_type_defs write_offsets)
  show "client_reply cl p = data_response (p @ buffer_tail cl) (map d src)" if "ty = PR_MSG_READ"
    using assms(3) that r unfolding client_reply_def deal_teadfs_msg_def t h ty bytewise_def
    by (simp add: msg_type_defs)
qed

lemma deal_fits:
  assumes "p = io_packet ty mid pid off src" "sizeof_packet + length src \<le> MAX_MSG_SIZE" "length d = length src"
  shows "fits p (data_response (p @ z) d)" "data_reply (data_response (p @ z) d) d"
proof -
  have l: "length p = sizeof_packet + length src" "32 \<le> length (p @ z)" "length d < 2 ^ 32"
    using assms by (simp_all add: layout_defs MAX_MSG_SIZE_def)
  have h: "get_header (data_response (p @ z) d) = get_header p"
    using data_response_header [OF l(2)] get_header_append [of p] l(1) by simp
  show "fits p (data_response (p @ z) d)"
    unfolding fits_def h using l(2) assms by (simp add: io_packet_header MAX_MSG_SIZE_def)
  show "data_reply (data_response (p @ z) d) d"
    by (rule data_response_reply [OF l(2,3)])
qed

lemma deal_header:
  assumes "sizeof_packet \<le> length (deal_teadfs_msg cb n pkt)" "32 \<le> length pkt"
  shows "get_header (deal_teadfs_msg cb n pkt) = get_header pkt"
  using assms code_response_header(1) [OF assms(2)] data_response_header [OF assms(2)]
  unfolding deal_teadfs_msg_def Let_def by (auto simp: layout_defs split: if_splits)

lemma host_answers:
  assumes "sizeof_packet \<le> length p" "fits p (client_reply cl p)" "length h = NLMSG_HDRLEN"
    "length (fst (header_junk cl)) = 2" "length (snd (header_junk cl)) = 4"
  shows "\<exists>m. client_run cl (h @ p) = [m] \<and> carries m (client_reply cl p)"
proof -
  let ?q = "take MAX_MSG_SIZE p @ buffer_tail cl"
  have q: "ThreadRcv (buffer_tail cl) (h @ p) = ?q" using assms(3) by (simp add: ThreadRcv_def)
  have "32 \<le> length ?q" using assms(1) by (simp add: layout_defs MAX_MSG_SIZE_def)
  then have "get_header (client_reply cl p) = get_header ?q"
    unfolding client_reply_def
    by (intro deal_header) (use assms(2) in \<open>simp_all add: fits_def client_reply_def\<close>)
  then have "h_initiator (get_header ?q) \<noteq> 1" using assms(2) by (simp add: fits_def)
  then have "client_run cl (h @ p) = [SendMsg (header_junk cl) (client_reply cl p)]"
    by (simp add: client_run_def q thread_pool_cb_func_def client_reply_def)
  moreover have "carries (SendMsg (header_junk cl) (client_reply cl p)) (client_reply cl p)"
    using assms(2,4,5) by (intro carries_SendMsg) (simp_all add: fits_def)
  ultimately show ?thesis by blast
qed

text \<open>The host with a bytewise client is an instance of the data path's interface.\<close>

lemma host_lower_store:
  assumes "bytewise e d cl"
  shows "lower_store (host_kernel cl) (client_reply cl) files (\<lambda>_. map e) (\<lambda>_. map d)"
proof (unfold_locales, goal_cases)
  case (4 p h c skb pid w)
  then show ?case using host_answers [of p cl h] assms by (simp add: bytewise_def)
next
  case (5 c' w)
  then show ?case by (cases c') simp_all
next
  case (6 c'' w)
  then show ?case by (cases c'') simp_all
next
  case (13 fld q w)
  then show ?case by (cases fld) simp_all
next
  case (14 src p mid pid off)
  then show ?case using deal_io(1) [OF _ _ assms] deal_fits [of p _ _ _ _ src "map e src"] by simp
next
  case (15 src p mid pid off)
  then show ?case using deal_io(2) [OF _ _ assms] deal_fits [of p _ _ _ _ src "map d src"] by simp
qed simp_all

text \<open>The example application's client.\<close>

definition test_client :: "(u32 \<Rightarrow> bytes) \<Rightarrow> (bytes \<Rightarrow> bytes option) \<Rightarrow> client" where
  "test_client prog_of fs = \<lparr>callbacks = test_cb prog_of fs, unset_code = 0,
     header_junk = ([0, 0], [0, 0, 0, 0]), buffer_tail = replicate NLMSG_HDRLEN 0\<rparr>"

lemma host_stale_keeps: "stale_keeps (host_kernel cl)"
  by (simp add: stale_keeps_def)

lemma xor_xor [simp]: "xor_byte (xor_byte b) = b"
  by (simp add: xor_byte_def xor.assoc)

lemma test_client_bytewise: "bytewise xor_byte xor_byte (test_client g fs)"
  by (simp add: bytewise_def test_client_def test_cb_def test_read_def test_write_def fun_eq_iff)

interpretation xor: lower_store "host_kernel (test_client g fs)" "client_reply (test_client g fs)" files
  "\<lambda>_. map xor_byte" "\<lambda>_. map xor_byte" for g fs
  by (rule host_lower_store [OF test_client_bytewise])

end
