(* ===== verification/Channel_Props.thy ===== *)
theory Channel_Props
  imports Client_Daemon
begin

text \<open>
  The properties of the message channel (\<open>netlink.c\<close>, \<open>user_com.c\<close>): what received messages may
  change, that a requester gets the answer to its own request and nothing else, memory safety of
  the open and release requests, the exact outcome of requests to an answering client, and the
  lock discipline.
\<close>

section \<open>Received messages\<close>

text \<open>
  C9: any sequence of well-formed netlink messages leaves the channel intact.
  No memory fault occurs, no pending request is added or lost, every pending request keeps its
  message id, and an answer stored in it carries exactly that id.
\<close>

theorem receive_keeps_channel:
  assumes "nlmsg_put_fits K" "chan_ok s" "list_all skb_ok msgs" "run_state (receive_all K msgs) s = (u, t)"
  shows "chan_ok t \<and> faults t = faults s \<and> msg_ctx_queue t = msg_ctx_queue s \<and>
    (\<forall>c \<in> set (msg_ctx_queue s). \<forall>x. heap s c = Some (B_ctx x) \<longrightarrow>
      (\<exists>y. heap t c = Some (B_ctx y) \<and> msg_id y = msg_id x \<and>
        (response_msg y \<noteq> 0 \<longrightarrow> (\<exists>b. heap t (response_msg y) = Some (B_raw b) \<and>
           response_msg_size y \<le> length b \<and> h_msg_id (get_header b) = msg_id x))))"
proof -
  have d: "delivered s t"
    by (rule wp_run [OF receive_all_delivered [OF assms(1-3)] assms(4)])
  then have q: "chan_ok t" "faults t = faults s" "msg_ctx_queue t = msg_ctx_queue s"
    by (simp_all add: delivered_def frame_def)
  have "\<exists>y. heap t c = Some (B_ctx y) \<and> msg_id y = msg_id x \<and>
        (response_msg y \<noteq> 0 \<longrightarrow> (\<exists>b. heap t (response_msg y) = Some (B_raw b) \<and>
           response_msg_size y \<le> length b \<and> h_msg_id (get_header b) = msg_id x))"
    if c: "c \<in> set (msg_ctx_queue s)" "heap s c = Some (B_ctx x)" for c x
  proof -
    obtain y where y: "heap t c = Some (B_ctx y)" "ctx_kept (brk s) x y"
      using delivered_kept [OF d c] by blast
    then have "response_msg y = 0 \<or> answered t y" "msg_id y = msg_id x"
      using chan_okD [OF q(1), of c] c(1) q(3) by (auto simp: ctx_kept_def)
    then show ?thesis using y(1) by (auto simp: answered_def)
  qed
  then show ?thesis using q by blast
qed

text \<open>A pending request with id 5, and an answer to it: a bare packet with that id.\<close>

definition pending_st :: "unit st" where
  "pending_st = (boot_st ())\<lparr>heap := [1 \<mapsto> B_ctx \<lparr>ctx_state = TEADFS_MSG_CTX_STATE_PENDING, msg_id = 5,
     request_msg_size = 0, request_msg = 0, response_msg_size = 0, response_msg = 0\<rparr>], brk := 2,
     msg_ctx_queue := [1]\<rparr>"

definition answer_msg :: bytes where
  "answer_msg = SendMsg ([0, 0], [0, 0, 0, 0]) (packet_of PR_MSG_OPEN sizeof_packet 5 0)"

lemma pending_chan_ok: "chan_ok pending_st"
  by (simp add: chan_ok_def heap_ok_def pending_st_def boot_st_def)

lemma answer_msg_ok: "skb_ok answer_msg"
proof -
  have "carries answer_msg (packet_of PR_MSG_OPEN sizeof_packet 5 0)"
    unfolding answer_msg_def by (rule carries_SendMsg) (simp_all add: layout_defs)
  then show ?thesis by (simp add: carries_def skb_ok_def)
qed

lemma calm_fits: "nlmsg_put_fits calm_kernel" "msgs_ok calm_kernel"
  by (simp_all add: nlmsg_put_fits_def msgs_ok_def calm_kernel_def)

theorem receive_keeps_channel_witness:
  "chan_ok (snd (run_state (receive_all calm_kernel [answer_msg]) pending_st)) \<and>
   (\<exists>y. heap (snd (run_state (receive_all calm_kernel [answer_msg]) pending_st)) 1 = Some (B_ctx y) \<and> msg_id y = 5)"
  using receive_keeps_channel [OF calm_fits(1) pending_chan_ok, of "[answer_msg]" "()"
      "snd (run_state (receive_all calm_kernel [answer_msg]) pending_st)"]
  by (auto simp: answer_msg_ok prod_eq_iff pending_st_def)

section \<open>Requests\<close>

text \<open>
  C8: a request that was sent leaves the queue of pending requests as it
  found it and causes no fault, whatever well-formed messages arrive meanwhile. The answer it returns is a fresh
  block, no other pending request refers to it, it holds at least a whole packet, and the packet
  carries the message id of the request. Without memory the result is \<open>-ENOMEM\<close>.
\<close>

theorem request_gets_own_answer:
  assumes "nlmsg_put_fits K" "msgs_ok K" "chan_ok s" "heap s buf = Some (B_raw pkt)" "n \<le> length pkt"
    "run_state (teadfs_request_send K mid n buf) s = ((rc, m, p), t)"
  shows "chan_ok t \<and> faults t = faults s \<and> msg_ctx_queue t = msg_ctx_queue s \<and>
    (rc = 0 \<or> rc = - ENOMEM \<and> p = 0) \<and>
    (p \<noteq> 0 \<longrightarrow> heap s p = None \<and> (\<forall>c \<in> set (msg_ctx_queue t). resp t c \<noteq> p) \<and>
      (\<exists>b. heap t p = Some (B_raw b) \<and> sizeof_packet \<le> m \<and> m \<le> length b \<and> h_msg_id (get_header b) = mid))"
proof -
  let ?Q = "\<lambda>(rc, m, p) t. (rc = 0 \<or> rc = - ENOMEM \<and> p = 0) \<and> delivered s t \<and> (p = 0 \<or> own_answer s mid t m p)"
  have "wp (teadfs_request_send K mid n buf) ?Q s"
  proof (rule wp_request_sendI [OF assms(1-5)])
    fix t assume "frame s t" "heap t = heap s" "brk t = brk s"
    then show "?Q (- ENOMEM, 0, 0) t" using delivered_cong2 [OF assms(3)] by simp
  qed simp
  then have r: "rc = 0 \<or> rc = - ENOMEM \<and> p = 0" "delivered s t" "p = 0 \<or> own_answer s mid t m p"
    using wp_run [OF _ assms(6)] by fastforce+
  have "heap s p = None" if "own_answer s mid t m p"
    using that heap_ok_above [OF chan_ok_heap [OF assms(3)]] by (simp add: own_answer_def)
  then show ?thesis
    using r by (auto simp: delivered_def frame_def own_answer_def)
qed

definition packet_st :: "unit st" where
  "packet_st = (boot_st ())\<lparr>heap := [1 \<mapsto> B_raw (packet_of PR_MSG_OPEN sizeof_packet 5 0)], brk := 2\<rparr>"

lemma packet_chan_ok: "chan_ok packet_st"
  by (simp add: chan_ok_def heap_ok_def packet_st_def boot_st_def)

theorem request_gets_own_answer_witness:
  "msg_ctx_queue (snd (run_state (teadfs_request_send calm_kernel 5 sizeof_packet 1) packet_st)) = []"
  using request_gets_own_answer [OF calm_fits packet_chan_ok, of 1 "packet_of PR_MSG_OPEN sizeof_packet 5 0"
      sizeof_packet 5 "fst (fst (run_state (teadfs_request_send calm_kernel 5 sizeof_packet 1) packet_st))"
      "fst (snd (fst (run_state (teadfs_request_send calm_kernel 5 sizeof_packet 1) packet_st)))"
      "snd (snd (fst (run_state (teadfs_request_send calm_kernel 5 sizeof_packet 1) packet_st)))"
      "snd (run_state (teadfs_request_send calm_kernel 5 sizeof_packet 1) packet_st)"]
  by (simp add: packet_st_def boot_st_def prod_eq_iff)

text \<open>
  C10: the requests that announce an open and a release cause no memory fault, keep the
  queue of pending requests and change no block of memory that existed before them and is not a
  pending request, with or without a client, whether or not memory can be allocated, and for every
  path. It is assumed that the netlink messages that arrive meanwhile are well formed (as long as
  their headers say: the module does not check it), that \<open>nlmsg_put\<close> succeeds on a message that fits,
  and that the path buffer of a release is allocated and as long as announced. The log lines of the
  two requests, which read the path, are not part of the model.
\<close>

theorem open_release_safe:
  assumes "nlmsg_put_fits K" "msgs_ok K" "chan_ok s"
    and "path_len = 0 \<or> heap s path_ptr = Some (B_raw b) \<and> path_len \<le> length b"
    and "m = (teadfs_request_open K path file) \<or> m = teadfs_request_release K path_ptr path_len file"
    and "run_state m s = (rc, t)"
  shows "faults t = faults s \<and> msg_ctx_queue t = msg_ctx_queue s \<and> chan_ok t \<and>
    (\<forall>p. heap s p \<noteq> None \<longrightarrow> p \<notin> set (msg_ctx_queue s) \<longrightarrow> heap t p = heap s p)"
proof -
  have "wp m (\<lambda>_ t. req_ok s t) s"
    using assms(5) request_open_safe [OF assms(1-3)] request_release_safe [OF assms(1-4)] by auto
  then have r: "req_ok s t" by (rule wp_run [OF _ assms(6)])
  have "p < brk s" if "heap s p \<noteq> None" for p
    using that chan_ok_heap [OF assms(3)] by (auto simp: heap_ok_def)
  then show ?thesis
    using r req_ok_faults [OF r] req_ok_queue [OF r] req_ok_chan_ok [OF r]
    by (auto simp: req_ok_def delivered_def)
qed

theorem open_release_safe_witness:
  "faults (snd (run_state (teadfs_request_release calm_kernel 1 4 3) (packet_st\<lparr>client_connect := 1\<rparr>))) = []"
proof -
  have "chan_ok (packet_st\<lparr>client_connect := 1\<rparr>)" by (rule chan_ok_cong [OF packet_chan_ok]) simp_all
  from open_release_safe [OF calm_fits this, of 4 1 "packet_of PR_MSG_OPEN sizeof_packet 5 0"
      "teadfs_request_release calm_kernel 1 4 3" "[]" 3
      "fst (run_state (teadfs_request_release calm_kernel 1 4 3) (packet_st\<lparr>client_connect := 1\<rparr>))"
      "snd (run_state (teadfs_request_release calm_kernel 1 4 3) (packet_st\<lparr>client_connect := 1\<rparr>))"]
  show ?thesis by (simp add: packet_st_def boot_st_def layout_defs)
qed

section \<open>Lock discipline\<close>

text \<open>
  C11: every operation of the channel, for every kernel and whatever arrives, takes
  no mutex it already holds, releases only what it holds and returns with no lock held.
\<close>

theorem channel_locks:
  "holds {} (teadfs_netlink_receive K skb) {} \<and> holds {} (teadfs_send_to_user K data n) {} \<and>
   holds {} (teadfs_request_send K mid n buf) {} \<and> holds {} (teadfs_request_open_file K f fi) {} \<and>
   holds {} (teadfs_request_open_path K d m) {} \<and> holds {} (teadfs_request_release K p k f) {} \<and>
   holds {} (teadfs_request_read K off src dst dn) {} \<and> holds {} (teadfs_request_write K off src dst dn) {}"
proof -
  have "channel_free {}" by (simp add: channel_free_def)
  then show ?thesis by (intro conjI holds_intros) simp_all
qed

text \<open>
  C39: every message that is sent takes the mutex of the global parameters, which may
  sleep, while it holds the lock that forbids sleeping: \<open>teadfs_get_client_pid\<close> is called between
  \<open>read_lock_bh\<close> and \<open>read_unlock_bh\<close>. This is so whenever the socket buffer could be allocated.
\<close>

theorem send_sleeps_atomic:
  assumes "rv (fst (K (K_net (K_nlmsg_new n)) (world s))) \<noteq> 0"
    and "run_state (teadfs_send_to_user K data n) s = (rc, t)"
  shows "\<exists>before after. map fst (trace t) = map fst (trace s) @ before @
    [K_lock L_user_proc, K_lock L_global] @ after @ [K_unlock L_user_proc] \<and>
    K_unlock L_user_proc \<notin> set before \<union> set after"
proof -
  let ?skb = "rv (fst (K (K_net (K_nlmsg_new n)) (world s)))"
  let ?before = "[K_net (K_nlmsg_new n), K_net (K_nlmsg_put ?skb n), K_lock L_global, K_unlock L_global]"
  let ?after = "[K_unlock L_global,
    K_net (K_netlink_unicast ?skb (client_pid s) (nlmsghdr_bytes (NLMSG_HDRLEN + n) (client_pid s) @ take n data))]"
  have "wp (teadfs_send_to_user K data n) (\<lambda>_ t. \<exists>before after. map fst (trace t) = map fst (trace s) @ before @
      [K_lock L_user_proc, K_lock L_global] @ after @ [K_unlock L_user_proc] \<and>
      K_unlock L_user_proc \<notin> set before \<union> set after) s"
    using assms(1) unfolding teadfs_send_to_user_def teadfs_get_client_pid_def call_rv_def emit_def raise_fault_def
    by (simp add: wp_simps wp_call, intro exI [of _ ?before] exI [of _ ?after]) simp
  then show ?thesis by (rule wp_run [OF _ assms(2)])
qed

theorem send_sleeps_atomic_witness:
  "K_lock L_global \<in> set (map fst (trace (snd (run_state (teadfs_send_to_user calm_kernel [1, 2] 2) (boot_st ())))))"
proof -
  have "rv (fst (calm_kernel (K_net (K_nlmsg_new 2)) (world (boot_st ())))) \<noteq> 0" by (simp add: calm_kernel_def)
  from send_sleeps_atomic [where K = calm_kernel and n = 2 and s = "boot_st ()", OF this surjective_pairing, of "[1, 2]"] show ?thesis by (elim exE conjE) (simp only:, simp)
qed

end
