(* ===== verification/Mmap_Props.thy ===== *)
theory Mmap_Props
  imports Mmap_Ops
begin

text \<open>
  What the data path guarantees for every kernel and every client: which calls reach the lower
  file under each access mode, what happens without a client, the page flags, and the size of a
  file after truncation.
\<close>

section \<open>Writes to the lower file\<close>

text \<open>The monitor of writes: only those that \<open>ok\<close> allows are accepted.\<close>

fun write_step :: "(ptr \<Rightarrow> int \<Rightarrow> bool) \<Rightarrow> unit monitor" where
  "write_step ok H (K_io (K_kernel_write f d off), r) = (if ok f off then Some () else None)"
| "write_step ok H _ = Some ()"

interpretation wr: neutral_monitor "write_step ok" for ok
  by unfold_locales simp_all

text \<open>The writes in a trace, and the calls that a run added to it.\<close>

fun writes_of :: "(kcall \<times> int) list \<Rightarrow> (ptr \<times> bytes \<times> int) list" where
  "writes_of ((K_io (K_kernel_write f d off), r) # cs) = (f, d, off) # writes_of cs"
| "writes_of (c # cs) = writes_of cs"
| "writes_of [] = []"

definition new_calls :: "'w st \<Rightarrow> 'w st \<Rightarrow> (kcall \<times> int) list" where
  "new_calls s t = drop (length (trace s)) (trace t)"

lemma write_mon_run:
  "mon_run (write_step ok) () cs = Some () \<Longrightarrow> \<forall>(f, d, off) \<in> set (writes_of cs). ok f off"
  by (induction cs rule: writes_of.induct) (auto split: option.splits if_splits)

lemma no_element: "\<forall>(f, d, off) \<in> set xs. False \<Longrightarrow> xs = []"
  by (cases xs) auto

lemma mon_writes:
  assumes "mon (write_step ok) () m (\<lambda>_. ())"
  shows "wp m (\<lambda>_ t. \<forall>(f, d, off) \<in> set (writes_of (new_calls s t)). ok f off) s"
  by (rule wp_mono [OF mon_wp [OF assms]]) (auto simp: new_calls_def dest!: write_mon_run)

lemma mon_write_payload [mon_intros]: "mon (write_step ok) () (write_payload K acc data off buf) (\<lambda>_. ())"
  unfolding write_payload_def by (rule mon_intros | simp)+

lemma write_payload_value:
  "wp (write_payload K acc data off buf)
     (\<lambda>a _. fst a < 0 \<or> snd (snd a) = (if OFR_DECRYPT = acc then off + ENCRYPT_FILE_HEADER_SIZE else off)) s"
  unfolding write_payload_def
  apply (simp add: wp_bind wp_if wp_ret)
  apply (intro impI)
  apply (rule wp_all, simp add: wp_bind wp_prod)
  apply (simp add: wp_ret EIO_def wp_all)
  done

text \<open>The rest of a write, once the file's structure is loaded.\<close>

definition write_rest :: "'w kernel \<Rightarrow> ptr \<Rightarrow> bytes \<Rightarrow> int \<Rightarrow> teadfs_file_info \<Rightarrow> ptr \<Rightarrow> ('w, int \<times> ptr) op" where
  "write_rest K f data off fi buf = do {
     (rc0, data', offset') \<leftarrow> write_payload K (access fi) data off buf;
     if rc0 < 0 then ret (rc0, buf)
     else do {
       rc \<leftarrow> call_rv K (K_io (K_kernel_write (lower_file fi) data' offset'));
       if rc < 0 then ret (rc, buf)
       else do {
         inode \<leftarrow> f_inode K f;
         call K (K_attr (K_mark_inode_dirty_sync inode));
         ret (rc, buf)
       }
     }
   }"

definition write_main :: "'w kernel \<Rightarrow> ptr \<Rightarrow> bytes \<Rightarrow> int \<Rightarrow> teadfs_file_info \<Rightarrow> ('w, int) op" where
  "write_main K f data off fi = do {
     (rc, buf) \<leftarrow> (if lower_file fi = 0 then ret (- EIO, 0)
       else do {
         let n = length data;
         buf \<leftarrow> teadfs_zalloc K n (B_raw (replicate n 0));
         if buf = 0 then ret (- EIO, buf)
         else if OFR_ENCRYPT = access fi then ret (- EIO, buf)
         else write_rest K f data off fi buf
       });
     free_if buf;
     ret rc
   }"

lemma write_lower_main:
  "heap s (private_data s f) = Some (B_file fi) \<Longrightarrow>
     wp (teadfs_write_lower K f data off) Q s = wp (write_main K f data off fi) Q s"
  unfolding teadfs_write_lower_def teadfs_file_to_private_def write_main_def write_rest_def Let_def
  by (simp add: wp_bind wp_State wp_load)

lemma mon_write_rest:
  assumes "ok (lower_file fi) (if OFR_DECRYPT = access fi then off + ENCRYPT_FILE_HEADER_SIZE else off)"
  shows "mon (write_step ok) () (write_rest K f data off fi buf) (\<lambda>_. ())"
  unfolding write_rest_def
  by (rule mon_bind_val [OF mon_write_payload write_payload_value])
    (auto intro!: mon_intros simp: assms)

text \<open>Every write of an operation goes where the access mode of the file allows it.\<close>

lemma write_lower_writes:
  assumes "heap s (private_data s f) = Some (B_file fi)"
    and "access fi \<noteq> OFR_ENCRYPT \<Longrightarrow>
      ok (lower_file fi) (if OFR_DECRYPT = access fi then off + ENCRYPT_FILE_HEADER_SIZE else off)"
  shows "wp (teadfs_write_lower K f data off)
    (\<lambda>_ t. \<forall>(g, d, o') \<in> set (writes_of (new_calls s t)). ok g o') s"
  unfolding write_lower_main [OF assms(1)]
  by (rule mon_writes) (unfold write_main_def, (rule mon_write_rest mon_intros | simp add: assms(2))+)

section \<open>Without a client\<close>

lemma wp_outerI: "keeps outer m \<Longrightarrow> (\<And>a t. outer t = outer s \<Longrightarrow> Q a t) \<Longrightarrow> wp m Q s"
  by (rule keeps_wp)

lemma request_write_refused:
  "client_connect s = 0 \<Longrightarrow>
     wp (teadfs_request_write K off src dst n) Q s = Q (- ENOMEM, dst) (s\<lparr>trace := trace s @ global_section\<rparr>)"
  by (simp add: teadfs_request_write_def wp_simps)

lemma request_read_refused:
  "client_connect s = 0 \<Longrightarrow>
     wp (teadfs_request_read K off src dst n) Q s = Q (- ENOMEM, dst) (s\<lparr>trace := trace s @ global_section\<rparr>)"
  by (simp add: teadfs_request_read_def wp_simps free_if_def)

lemma outer_connect: "outer t = outer s \<Longrightarrow> client_connect t = client_connect s"
  by (simp add: outer_def)

text \<open>
  A write that may not or cannot be encrypted runs like this, which contains no write call:
\<close>

definition write_refused :: "'w kernel \<Rightarrow> bytes \<Rightarrow> teadfs_file_info \<Rightarrow> ('w, int) op" where
  "write_refused K data fi = do {
     (rc, buf) \<leftarrow> (if lower_file fi = 0 then ret (- EIO, 0)
       else do {
         buf \<leftarrow> teadfs_zalloc K (length data) (B_raw (replicate (length data) 0));
         if buf = 0 then ret (- EIO, buf)
         else if OFR_ENCRYPT = access fi then ret (- EIO, buf)
         else do {
           emit (K_lock L_global);
           emit (K_unlock L_global);
           poke buf 0 (replicate (length data) 0);
           ret (- EIO, buf)
         }
       });
     free_if buf;
     ret (- EIO)
   }"

lemma write_refused_eq:
  assumes "heap s (private_data s f) = Some (B_file fi)"
    and "access fi = OFR_ENCRYPT \<or> access fi = OFR_DECRYPT \<and> client_connect s = 0"
  shows "wp (teadfs_write_lower K f data off) Q s = wp (write_refused K data fi) Q s"
proof -
  have rest: "wp (write_rest K f data off fi b) R t =
      wp (do { emit (K_lock L_global); emit (K_unlock L_global); poke b 0 (replicate (length data) 0);
         ret (- EIO, b) }) R t"
    if "access fi \<noteq> OFR_ENCRYPT" "outer t = outer s" for b R t
  proof -
    have "access fi = OFR_DECRYPT" "client_connect t = 0"
      using that assms(2) outer_connect [OF that(2)] by auto
    then show ?thesis
      unfolding write_rest_def write_payload_def
      by (simp add: wp_simps request_write_refused ENOMEM_def EIO_def)
  qed
  have fin: "wp (case a of (rc, buf) \<Rightarrow> do { free_if buf; ret rc }) Q t =
      wp (case a of (rc, buf) \<Rightarrow> do { free_if buf; ret (- EIO) }) Q t" if "fst a = - EIO" for a t
    using that by (cases a) simp
  have zal: "wp (teadfs_zalloc K n blk) A s = wp (teadfs_zalloc K n blk) B s"
    if "\<And>b t. outer t = outer s \<Longrightarrow> A b t = B b t" for n blk A B
    using that ov.keeps_blocks(2) [of K n blk] by (auto simp: wp_def keeps_def)
  show ?thesis
    unfolding write_lower_main [OF assms(1)] write_main_def write_refused_def Let_def wp_bind wp_if
    by (auto simp: wp_simps rest intro!: zal)
qed

lemma mon_write_refused: "mon (write_step ok) () (write_refused K data fi) (\<lambda>_. ())"
  unfolding write_refused_def by (rule mon_intros | simp)+

section \<open>Properties of the data path\<close>

text \<open>A file open in decrypt mode on the lower file \<open>7\<close>, in a machine with a connected client.\<close>

definition open_st :: "int \<Rightarrow> unit st" where
  "open_st acc = (boot_st ())\<lparr>heap := [1 \<mapsto> B_file \<lparr>lower_file = 7, access = acc, file_path = 0,
       file_path_length = 0, file_path_buf = 0\<rparr>], brk := 2, private_data := (\<lambda>_. 0)(9 := 1),
     client_connect := 1\<rparr>"

text \<open>
  C5: a file open in encrypt mode cannot be written, and neither can one in
  decrypt mode while no client is connected: the write returns \<open>-EIO\<close> and nothing, in particular
  no plaintext, reaches any lower file.
\<close>

theorem write_fails_closed:
  assumes "heap s (private_data s f) = Some (B_file fi)"
    "access fi = OFR_ENCRYPT \<or> access fi = OFR_DECRYPT \<and> client_connect s = 0"
    "run_state (teadfs_write_lower K f data off) s = (rc, t)"
  shows "rc = - EIO \<and> writes_of (new_calls s t) = []"
proof -
  have "wp (write_refused K data fi) (\<lambda>rc _. rc = - EIO) s"
    unfolding write_refused_def wp_bind by (rule wp_all) (simp add: wp_simps wp_all)
  moreover have "wp (write_refused K data fi) (\<lambda>_ t. writes_of (new_calls s t) = []) s"
    by (rule wp_mono [OF mon_writes [OF mon_write_refused, where ok = "\<lambda>_ _. False"]])
      (rule no_element)
  ultimately have "wp (teadfs_write_lower K f data off) (\<lambda>rc _. rc = - EIO) s"
      "wp (teadfs_write_lower K f data off) (\<lambda>_ t. writes_of (new_calls s t) = []) s"
    by (simp_all add: write_refused_eq [OF assms(1,2)])
  then show ?thesis by (auto dest: wp_run [OF _ assms(3)])
qed

theorem write_fails_closed_witness:
  "fst (run_state (teadfs_write_lower calm_kernel 9 [1, 2] 5) (open_st OFR_ENCRYPT)) = - EIO"
  using write_fails_closed [of "open_st OFR_ENCRYPT" 9
      "\<lparr>lower_file = 7, access = OFR_ENCRYPT, file_path = 0, file_path_length = 0, file_path_buf = 0\<rparr>"
      calm_kernel "[1, 2]" 5 _ "snd (run_state (teadfs_write_lower calm_kernel 9 [1, 2] 5) (open_st OFR_ENCRYPT))"]
  by (simp add: open_st_def boot_st_def prod_eq_iff)

text \<open>
  C6: without a connected client a read through a file in decrypt mode does not
  fail: it hands the bytes of the lower file, still encrypted, to the caller and reports their
  number as a success.
\<close>

theorem read_fails_open:
  assumes "heap s (private_data s f) = Some (B_file fi)" "access fi = OFR_DECRYPT"
    "lower_file fi \<noteq> 0" "client_connect s = 0"
    "r = fst (K (K_io (K_kernel_read (lower_file fi) (off + ENCRYPT_FILE_HEADER_SIZE) n)) (world s))"
  shows "fst (run_state (teadfs_read_lower K buf off n f) s) = (rv r, put_at 0 (take n (rdata r)) buf)"
proof -
  have "wp (teadfs_read_lower K buf off n f) (\<lambda>a _. a = (rv r, put_at 0 (take n (rdata r)) buf)) s"
    unfolding teadfs_read_lower_def teadfs_file_to_private_def
    using assms by (simp add: wp_simps wp_call request_read_refused ENOMEM_def)
  then show ?thesis by (simp add: wp_def)
qed

theorem read_fails_open_witness:
  "fst (run_state (teadfs_read_lower calm_kernel [0, 0] 5 2 9) ((open_st OFR_DECRYPT)\<lparr>client_connect := 0\<rparr>)) =
     (1, [0, 0])"
  using read_fails_open [of "(open_st OFR_DECRYPT)\<lparr>client_connect := 0\<rparr>" 9
      "\<lparr>lower_file = 7, access = OFR_DECRYPT, file_path = 0, file_path_length = 0, file_path_buf = 0\<rparr>" _ calm_kernel 5 2]
  by (simp add: open_st_def boot_st_def calm_kernel_def put_at_def)

section \<open>Pages\<close>

text \<open>
  The monitor of page locks: a page that \<open>grab_cache_page_write_begin\<close> returns is locked, and only
  a locked page may be unlocked.
\<close>

fun page_step :: "ptr set monitor" where
  "page_step H (K_page (K_grab_cache_page_write_begin h i fl), r) = Some (if r = 0 then H else insert r H)"
| "page_step H (K_page (K_lock_page p), r) = (if p \<in> H then None else Some (insert p H))"
| "page_step H (K_page (K_unlock_page p), r) = (if p \<in> H then Some (H - {p}) else None)"
| "page_step H _ = Some H"

interpretation pg: neutral_monitor page_step
  by unfold_locales simp_all

lemma mon_lower_io [mon_intros]:
  "mon page_step H (teadfs_read_lower K data off n f) (\<lambda>_. H)"
  "mon page_step H (teadfs_write_lower K f data off) (\<lambda>_. H)"
  unfolding teadfs_read_lower_def teadfs_write_lower_def write_payload_def
  by (rule mon_intros | simp)+

lemma mon_set_page [mon_intros]: "mon page_step H (set_page p u) (\<lambda>_. H)"
  unfolding set_page_def by (rule mon_intros | simp)+

lemma mon_page_call: "(\<And>r. page_step H (K_page c, r) = Some H') \<Longrightarrow> mon page_step H (page_call K c) (\<lambda>_. H')"
  unfolding page_call_def by (rule mon_intros | simp)+

lemma mon_fill_page [mon_intros]: "mon page_step H (fill_page K f p off) (\<lambda>_. H)"
  unfolding fill_page_def by (rule mon_page_call mon_intros | simp)+

lemma mon_lower_file [mon_intros]:
  "mon page_step H (teadfs_get_lower_file K d i fl) (\<lambda>_. H)"
  "mon page_step H (filemap_write_and_wait K f) (\<lambda>_. H)"
  unfolding teadfs_get_lower_file_def filemap_write_and_wait_def by (rule mon_intros | simp)+

lemma mon_put_lower_file [mon_intros]: "mon page_step H (teadfs_put_lower_file K i f) (\<lambda>_. H)"
  unfolding teadfs_put_lower_file_def by (rule mon_intros | simp)+

lemma mon_teadfs_write [mon_intros]: "mon page_step H (teadfs_write K d i data off) (\<lambda>_. H)"
  unfolding teadfs_write_def by (rule mon_intros | simp)+

lemma mon_truncate_loop [mon_intros]:
  "mon page_step H (truncate_loop K d i b new_size total_size pos rc) (\<lambda>_. H)"
proof (induction K d i b new_size total_size pos rc rule: truncate_loop.induct)
  case (1 K d i b new_size total_size pos rc)
  show ?case
    by (subst truncate_loop.simps) (rule 1 mon_intros | simp)+
qed

lemma mon_truncate [mon_intros]:
  "mon page_step H (truncate_upper K d ia lia) (\<lambda>_. H)"
  "mon page_step H (teadfs_truncate K d n) (\<lambda>_. H)"
  unfolding truncate_upper_def teadfs_truncate_def
  by (rule mon_page_call mon_intros | simp)+

lemma mon_write_begin:
  "mon page_step {} (treadfs_write_begin K f h pos fl pp) (\<lambda>x. if fst x = 0 then {snd x} else {})"
proof -
  have fail: "mon page_step {p} (do { page_call K (K_unlock_page p); page_call K (K_page_cache_release p); ret (rc, 0) })
      (\<lambda>x. if fst x = 0 then {snd x} else {})" if "rc \<noteq> 0" for p and rc :: int
    by (rule mon_bind [OF mon_page_call], simp, rule mon_bind [OF mon_page_call], simp, rule mon_ret_at)
      (simp add: that)
  show ?thesis
    unfolding treadfs_write_begin_def Let_def
    apply (rule mon_bind_at [OF mon_call_rv_at [where G = "\<lambda>r. if r = 0 then {} else {r}"]], simp)
    apply (rule mon_if)
     apply (rule mon_ret_at, simp add: ENOMEM_def)
    apply (simp cong: if_cong)
    apply ((rule fail, simp; fail) | rule mon_intros | simp)+
    apply (rule mon_ret_at, simp)
    done
qed

text \<open>After reading a page, it is marked up to date exactly if the read reported success.\<close>

lemma readpage_flag:
  "fst (run_state (teadfs_readpage K f page) s) \<le> 0 \<and>
   (pg_uptodate (pages (snd (run_state (teadfs_readpage K f page) s)) page) \<longleftrightarrow>
     fst (run_state (teadfs_readpage K f page) s) = 0)"
proof -
  have "wp (teadfs_readpage K f page) (\<lambda>rc t. rc \<le> 0 \<and> (pg_uptodate (pages t page) \<longleftrightarrow> rc = 0)) s"
    unfolding teadfs_readpage_def fill_page_def page_call_def set_page_def Let_def
    apply (simp add: wp_simps)
    apply (rule wp_all)
    apply (simp add: wp_simps wp_call)
    done
  then show ?thesis by (simp add: wp_def)
qed

text \<open>
  C15: for every kernel and client, reading, writing back and ending a write
  unlock the page they were given exactly once and no other page; beginning a write returns with
  a locked page exactly if it succeeds, and with no page locked otherwise. After reading a page, it
  is marked up to date exactly if the read reported success; a read never returns a positive value.
\<close>

theorem page_protocol:
  "mon page_step {page} (teadfs_readpage K f page) (\<lambda>_. {}) \<and>
   mon page_step {page} (teadfs_writepage K page) (\<lambda>_. {}) \<and>
   mon page_step {page} (teadfs_write_end K f h pos len copied page) (\<lambda>_. {}) \<and>
   mon page_step {} (treadfs_write_begin K f h pos fl pp) (\<lambda>x. if fst x = 0 then {snd x} else {}) \<and>
   (\<forall>s. fst (run_state (teadfs_readpage K f page) s) \<le> 0 \<and>
     (pg_uptodate (pages (snd (run_state (teadfs_readpage K f page) s)) page) \<longleftrightarrow>
       fst (run_state (teadfs_readpage K f page) s) = 0))"
proof (intro conjI)
  show "mon page_step {page} (teadfs_readpage K f page) (\<lambda>_. {})"
    unfolding teadfs_readpage_def by (rule mon_page_call mon_intros | simp)+
  show "mon page_step {page} (teadfs_writepage K page) (\<lambda>_. {})"
    unfolding teadfs_writepage_def by (rule mon_page_call mon_intros | simp)+
  show "mon page_step {page} (teadfs_write_end K f h pos len copied page) (\<lambda>_. {})"
    unfolding teadfs_write_end_def page_bytes_def fsstack_copy_inode_size_def
    by (rule mon_page_call mon_intros | simp)+
  show "mon page_step {} (treadfs_write_begin K f h pos fl pp) (\<lambda>x. if fst x = 0 then {snd x} else {})"
    by (rule mon_write_begin)
  show "\<forall>s. fst (run_state (teadfs_readpage K f page) s) \<le> 0 \<and>
     (pg_uptodate (pages (snd (run_state (teadfs_readpage K f page) s)) page) \<longleftrightarrow>
       fst (run_state (teadfs_readpage K f page) s) = 0)"
    using readpage_flag by blast
qed

section \<open>The size of a file\<close>

interpretation sz: outer_view i_size
  by unfold_locales simp_all

lemma wp_peek_length:
  "(\<And>d t. length d = n \<Longrightarrow> i_size t = i_size s \<Longrightarrow> Q d t) \<Longrightarrow> wp (peek K p off n) Q s"
  unfolding peek_def stale_peek_def
  by (auto simp: wp_simps wp_call split: option.splits if_splits)

lemmas keep_size = keeps_wp [where g = i_size]

lemma keeps_size_frames:
  "keeps i_size (teadfs_set_file_private f p)"
  "keeps i_size (push_local b)"
  "keeps i_size (pop_local f)"
  unfolding teadfs_set_file_private_def push_local_def pop_local_def by (rule keeps_intros | simp)+

lemmas size_steps = keeps_size_frames [THEN keep_size] sz.keeps_lower_paths(1) [THEN keep_size]
  sz.keeps_open_requests(2) [THEN keep_size] sz.keeps_memory(4) [THEN keep_size]
  sz.keeps_lower_file(1) [THEN keep_size]

text \<open>A write behind the end extends the file by its length, or fails.\<close>

lemma write_size:
  assumes "i_size s inode < offset"
  shows "wp (teadfs_write K d inode data offset)
    (\<lambda>rc t. rc \<le> 0 \<and> (rc = 0 \<longrightarrow> i_size t = (i_size s)(inode := i_size s inode + int (length data)))) s"
proof -
  let ?new = "(i_size s)(inode := i_size s inode + int (length data))"
  let ?Q = "\<lambda>rc t. rc \<le> 0 \<and> (rc = 0 \<longrightarrow> i_size t = ?new)"
  have tail: "wp (teadfs_put_lower_path d) (\<lambda>_. wp (pop_local f) (\<lambda>_. wp (pop_local fi) (\<lambda>_. ?Q rc))) u"
    if "?Q rc u" for f fi rc u
    using that by (intro keep_size [OF sz.keeps_lower_paths(2)] keep_size [OF keeps_size_frames(3)]) simp_all
  have core: "wp (if IS_ERR lf then ret lf else do {
         rc \<leftarrow> teadfs_write_lower K f data (i_size s inode);
         if rc < 0 then ret rc
         else do {
           teadfs_put_lower_file K 0 f;
           (if i_size s inode + int (length data) > i_size s inode
            then i_size_write inode (i_size s inode + int (length data)) else ret ());
           ret 0
         }
       }) ?Q u" if "i_size u = i_size s" for lf f u
    apply (cases "IS_ERR lf")
     apply (simp add: wp_ret IS_ERR_def)
    apply (simp only: wp_if wp_bind if_False)
    apply (rule keep_size [OF sz.keeps_lower_io(2)])
    apply (auto intro!: keep_size [OF sz.keeps_put_lower_file] simp: wp_bind wp_ret wp_State i_size_write_def that)
    done
  show ?thesis
    unfolding teadfs_write_def Let_def wp_bind i_size_read_def
    apply (simp only: wp_State wp_ret fst_conv snd_conv assms if_True)
    apply (rule size_steps)+
    apply (rule wp_mono [OF core])
     apply simp
    apply (rule tail, assumption)
    done
qed

text \<open>So the loop that writes zeros up to the new size ends at exactly that size.\<close>

lemma truncate_loop_size:
  "0 \<le> pos \<Longrightarrow> i_size s inode = new_size - total_size + min pos total_size \<Longrightarrow> rc = 0 \<Longrightarrow> 0 \<le> total_size \<Longrightarrow>
     wp (truncate_loop K d inode b new_size total_size pos rc)
       (\<lambda>rc t. rc = 0 \<longrightarrow> i_size t = (i_size s)(inode := new_size)) s"
proof (induction K d inode b new_size total_size pos rc arbitrary: s rule: truncate_loop.induct)
  case (1 K d inode b new_size total_size pos rc)
  let ?len = "if total_size - pos > int PAGE_CACHE_SIZE then int PAGE_CACHE_SIZE else total_size - pos"
  show ?case
  proof (cases "pos < total_size")
    case True
    have step: "wp (teadfs_write K d inode data (new_size + pos)) (\<lambda>rc' :: int. wp (if rc' < 0 then ret rc'
          else truncate_loop K d inode b new_size total_size (pos + int PAGE_CACHE_SIZE) rc')
        (\<lambda>rc t. rc = 0 \<longrightarrow> i_size t = (i_size s)(inode := new_size))) u"
      if u: "length data = nat ?len" "i_size u = i_size s" for data u
    proof (rule wp_mono [OF write_size])
      show "i_size u inode < new_size + pos" using u(2) 1(2-) True by simp
      fix rc' :: int and t :: "'a st" assume t: "rc' \<le> 0 \<and> (rc' = 0 \<longrightarrow> i_size t = (i_size u)(inode := i_size u inode + int (length data)))"
      show "wp (if rc' < 0 then ret rc' else truncate_loop K d inode b new_size total_size (pos + int PAGE_CACHE_SIZE) rc')
        (\<lambda>rc t. rc = 0 \<longrightarrow> i_size t = (i_size s)(inode := new_size)) t"
      proof (cases "rc' = 0")
        case True
        then have "i_size t = (i_size s)(inode := i_size s inode + int (length data))" using t u(2) by simp
        moreover then have "wp (truncate_loop K d inode b new_size total_size (pos + int PAGE_CACHE_SIZE) rc')
          (\<lambda>rc v. rc = 0 \<longrightarrow> i_size v = (i_size t)(inode := new_size)) t"
          using True \<open>pos < total_size\<close> 1(2-) u(1)
          by (intro 1(1)) (auto simp: PAGE_CACHE_SIZE_def split: if_splits)
        ultimately show ?thesis using True by (auto elim: wp_mono)
      qed (use t in \<open>simp add: wp_ret\<close>)
    qed
    show ?thesis
      by (subst truncate_loop.simps) (use True step in \<open>auto simp: wp_bind wp_Let intro!: wp_peek_length\<close>)
  next
    case False
    then show ?thesis using 1(2-) by (subst truncate_loop.simps) (simp add: wp_ret fun_eq_iff)
  qed
qed

lemma attr_size_flag:
  "(x AND NOT ATTR_SIZE) AND ATTR_SIZE = (0 :: int)" "(x OR ATTR_SIZE) AND ATTR_SIZE \<noteq> (0 :: int)"
proof -
  show "(x AND NOT ATTR_SIZE) AND ATTR_SIZE = 0" by (simp add: and.assoc)
  have "(x OR ATTR_SIZE) AND ATTR_SIZE = ATTR_SIZE" by (auto simp: bit_eq_iff bit_simps)
  then show "(x OR ATTR_SIZE) AND ATTR_SIZE \<noteq> (0 :: int)" by (simp add: ATTR_SIZE_def)
qed

text \<open>
  C32: for every kernel and client, a successful resize leaves the inode with
  exactly the requested size and no other inode changed, whether the file grows, shrinks or keeps
  its size. The caller is asked to cut the lower file exactly if the file shrinks, and then to the
  requested size.
\<close>

theorem truncate_sets_size:
  assumes "run_state (truncate_upper K d ia lia) s = ((rc, lia'), t)" "rc = 0"
    "inode = rv (fst (K (K_load F_d_inode d) (world s)))"
  shows "i_size t = (i_size s)(inode := ia_size ia) \<and>
    (ia_valid lia' AND ATTR_SIZE \<noteq> 0 \<longleftrightarrow> ia_size ia < i_size s inode) \<and>
    (ia_size ia < i_size s inode \<longrightarrow> ia_size lia' = ia_size ia)"
proof -
  let ?Q = "\<lambda>a t. fst a = 0 \<longrightarrow> i_size t = (i_size s)(inode := ia_size ia) \<and>
    (ia_valid (snd a) AND ATTR_SIZE \<noteq> 0 \<longleftrightarrow> ia_size ia < i_size s inode) \<and>
    (ia_size ia < i_size s inode \<longrightarrow> ia_size (snd a) = ia_size ia)"
  have grow: "wp (teadfs_zalloc K PAGE_CACHE_SIZE blk) (\<lambda>buf. wp (if buf = 0 then ret (- ENOMEM, l)
       else do {
         rc \<leftarrow> truncate_loop K d inode buf (ia_size ia) (ia_size ia - i_size s inode) 0 0;
         teadfs_free buf;
         ret (rc, l)
       }) (\<lambda>a t. fst a = 0 \<longrightarrow> i_size t = (i_size s)(inode := ia_size ia) \<and> ia_valid (snd a) AND ATTR_SIZE = 0)) u"
    if "i_size u = i_size s" "ia_size ia > i_size s inode" "ia_valid l AND ATTR_SIZE = 0" for u l blk
    apply (rule keep_size [OF sz.keeps_blocks(2)])
    apply (simp add: wp_if wp_ret wp_bind ENOMEM_def)
    apply (intro impI)
    apply (rule wp_mono [OF truncate_loop_size])
        apply (use that in simp_all)
    apply (rule keep_size [OF sz.keeps_blocks(3)])
    apply simp
    done
  have "wp (truncate_upper K d ia lia) ?Q s"
    unfolding truncate_upper_def i_size_read_def call_rv_def Let_def
    by (simp add: wp_bind wp_call wp_ret wp_State wp_if attr_size_flag i_size_write_def page_call_def
        assms(3) [symmetric] cong: if_cong) (auto intro!: grow simp: attr_size_flag)
  then show ?thesis using wp_run [OF _ assms(1)] assms(2) by fastforce
qed

theorem truncate_sets_size_witness:
  "i_size (snd (run_state (truncate_upper calm_kernel 5 \<lparr>ia_valid = 8, ia_size = 10, ia_file = 0\<rparr>
      \<lparr>ia_valid = 0, ia_size = 0, ia_file = 0\<rparr>) ((boot_st ())\<lparr>i_size := (\<lambda>_. 100)\<rparr>))) 1 = 10"
proof -
  let ?r = "run_state (truncate_upper calm_kernel 5 \<lparr>ia_valid = 8, ia_size = 10, ia_file = 0\<rparr>
      \<lparr>ia_valid = 0, ia_size = 0, ia_file = 0\<rparr>) ((boot_st ())\<lparr>i_size := (\<lambda>_. 100)\<rparr>)"
  have "fst (fst ?r) = 0"
    by (simp add: truncate_upper_def call_rv_def i_size_read_def i_size_write_def page_call_def
        run_call calm_kernel_def split_beta)
  then show ?thesis
    using truncate_sets_size [of calm_kernel 5 "\<lparr>ia_valid = 8, ia_size = 10, ia_file = 0\<rparr>"
        "\<lparr>ia_valid = 0, ia_size = 0, ia_file = 0\<rparr>" "(boot_st ())\<lparr>i_size := (\<lambda>_. 100)\<rparr>"
        "fst (fst ?r)" "snd (fst ?r)" "snd ?r" 1]
    by (simp add: calm_kernel_def prod_eq_iff)
qed

end
