(* ===== verification/End_To_End.thy ===== *)
theory End_To_End
  imports Channel_Props Mmap_Props
begin

text \<open>
  The data path seen from above: the plaintext view of a lower file, the refinement of
  \<open>teadfs_write_lower\<close> and \<open>teadfs_read_lower\<close> to writing and reading that view, the round trip
  through an answering client, and the labelling of a file by the example application.
\<close>

section \<open>The plaintext view\<close>

text \<open>
  What an application sees of a lower file with contents \<open>c\<close> when the client decrypts bytes by
  \<open>d\<close>: everything behind the label, decrypted.
\<close>

definition plain :: "(byte \<Rightarrow> byte) \<Rightarrow> bytes \<Rightarrow> bytes" where
  "plain d c = map d (drop 256 c)"




lemma plain_get_at: "get_at off n (plain d c) = map d (get_at (off + 256) n c)"
  by (simp add: plain_def get_at_def take_map drop_map add.commute)

section \<open>Properties\<close>


text \<open>
  C2: over the same kernel and client, a read in decrypt mode returns the
  bytes of the plaintext view at the offset, as many as there are, at the start of the buffer;
  the rest of the buffer and the files stay as they are.
\<close>

theorem read_refines_plaintext:
  assumes "lower_store K reply content (\<lambda>_. map e) (\<lambda>_. map d)"
    and "open_on s f lf OFR_DECRYPT" "can_request s" "0 \<le> off"
    and "sizeof_packet + n \<le> MAX_MSG_SIZE" "n \<le> length buf"
    and "run_state (teadfs_read_lower K buf off n f) s = ((rc, out), t)"
  shows "out = put_at 0 (get_at (nat off) n (plain d (content (world s) lf))) buf \<and>
    rc = int (length (get_at (nat off) n (plain d (content (world s) lf)))) \<and>
    content (world t) = content (world s)"
proof -
  let ?c = "get_at (nat off + 256) n (content (world s) lf)"
  have "wp (teadfs_read_lower K buf off n f)
      (\<lambda>a t. a = (int (length ?c), put_at 0 (map d ?c) buf) \<and> content (world t) = content (world s)) s"
    by (rule lower_store.read_lower_ok [OF assms(1-6) refl]) (simp add: quiet_for_def frame_def)
  then have "rc = int (length ?c)" "out = put_at 0 (map d ?c) buf" "content (world t) = content (world s)"
    by (auto dest: wp_run [OF _ assms(7)])
  then show ?thesis by (simp add: plain_get_at)
qed


section \<open>Witnesses\<close>

text \<open>
  A host with the example application: file \<open>9\<close> is open in decrypt mode on the lower file \<open>7\<close>,
  which holds a label of zeros and three encrypted bytes.
\<close>

definition test_host :: host where
  "test_host = \<lparr>files = (\<lambda>_. [])(7 := replicate 256 0 @ map xor_byte [10, 20, 30]), wire = [], names = (\<lambda>_. [])\<rparr>"

definition host_st :: "host st" where
  "host_st = (boot_st test_host)\<lparr>heap := [1 \<mapsto> B_file \<lparr>lower_file = 7, access = OFR_DECRYPT, file_path = 0,
       file_path_length = 0, file_path_buf = 0\<rparr>], brk := 2, private_data := (\<lambda>_. 0)(9 := 1),
     client_connect := 1\<rparr>"

abbreviation "test_kernel \<equiv> host_kernel (test_client (\<lambda>_. []) (\<lambda>_. None))"

abbreviation "host_file \<equiv> \<lparr>lower_file = 7, access = OFR_DECRYPT, file_path = 0, file_path_length = 0, file_path_buf = 0\<rparr>"

lemma host_st_file:
  "heap host_st (private_data host_st 9) = Some (B_file host_file)" "access host_file = OFR_DECRYPT" "lower_file host_file = 7"
  by (simp_all add: host_st_def)

lemma host_st_open: "open_on host_st 9 7 OFR_DECRYPT"
  by (simp add: open_on_def host_st_def)

lemma host_st_request: "can_request host_st" "id_free host_st i"
  by (simp_all add: can_request_def id_free_def heap_ok_def host_st_def boot_st_def)

lemma host_files: "files (world host_st) 7 = replicate 256 0 @ map xor_byte [10, 20, 30]"
  by (simp add: host_st_def boot_st_def test_host_def)


theorem read_refines_plaintext_witness:
  "fst (run_state (teadfs_read_lower test_kernel [0, 0, 0, 0] 1 4 9) host_st) = (2, [20, 30, 0, 0])"
  using read_refines_plaintext [OF xor.lower_store_axioms host_st_open host_st_request(1), of 1 4 "[0, 0, 0, 0]"
      _ _ "fst (fst (run_state (teadfs_read_lower test_kernel [0, 0, 0, 0] 1 4 9) host_st))"
      "snd (fst (run_state (teadfs_read_lower test_kernel [0, 0, 0, 0] 1 4 9) host_st))"
      "snd (run_state (teadfs_read_lower test_kernel [0, 0, 0, 0] 1 4 9) host_st)"]
  by (simp add: host_files prod_eq_iff layout_defs MAX_MSG_SIZE_def plain_def get_at_def put_at_def o_def)


lemma writes_of_in: "(K_io (K_kernel_write f d off), r) \<in> set cs \<Longrightarrow> (f, d, off) \<in> set (writes_of cs)"
  by (induction cs rule: writes_of.induct) auto

text \<open>
  C4: whatever the kernel and the client do, a write through a file that is
  open in decrypt mode reaches only its own lower file, and only behind the 256-byte label.
\<close>

theorem label_never_overwritten:
  assumes "heap s (private_data s f) = Some (B_file fi)" "access fi = OFR_DECRYPT"
    "run_state (teadfs_write_lower K f data off) s = (rc, t)"
  shows "\<forall>(g, d, o') \<in> set (writes_of (new_calls s t)).
    g = lower_file fi \<and> o' = off + ENCRYPT_FILE_HEADER_SIZE"
  using wp_run [OF write_lower_writes [OF assms(1),
        where ok = "\<lambda>g o'. g = lower_file fi \<and> o' = off + ENCRYPT_FILE_HEADER_SIZE"] assms(3)] assms(2)
  by simp

theorem label_never_overwritten_witness:
  "let ws = writes_of (new_calls host_st (snd (run_state (teadfs_write_lower test_kernel 9 [40, 50] 1) host_st)))
   in (7, map xor_byte [40, 50], 257) \<in> set ws \<and> list_all (\<lambda>(g, d, o'). g = 7 \<and> o' = 257) ws"
proof -
  let ?r = "run_state (teadfs_write_lower test_kernel 9 [40, 50] 1) host_st"
  have "wp (teadfs_write_lower test_kernel 9 [40, 50] 1)
      (\<lambda>_ t. \<exists>r. (K_io (K_kernel_write 7 (map xor_byte [40, 50]) 257), r) \<in> set (trace t)) host_st"
    by (rule lower_store.write_lower_ok [OF xor.lower_store_axioms host_st_open host_st_request(1)])
      (use host_stale_keeps in \<open>auto simp: passed_on_def layout_defs MAX_MSG_SIZE_def\<close>)
  then have "(7, map xor_byte [40, 50], 257) \<in> set (writes_of (new_calls host_st (snd ?r)))"
    by (auto simp: wp_def new_calls_def host_st_def boot_st_def intro: writes_of_in)
  moreover have "list_all (\<lambda>(g, d, o'). g = 7 \<and> o' = 257) (writes_of (new_calls host_st (snd ?r)))"
    using label_never_overwritten [OF host_st_file(1,2) surjective_pairing, of test_kernel "[40, 50]" 1]
    by (simp add: list_all_iff host_st_file(3) ENCRYPT_FILE_HEADER_SIZE_def)
  ultimately show ?thesis by simp
qed

text \<open>
  C7: what an access in decrypt mode leaves behind when the client answers. The request packet is
  never freed: one more block is allocated after every read and every write and nothing else of the
  memory has changed. A read causes no memory fault; a write always causes one, because it reads the
  size of the answer after freeing it, and only that one if the freed memory still holds the answer.
\<close>

theorem data_path_leaks:
  assumes "lower_store K reply content (\<lambda>_. map e) (\<lambda>_. map d)"
    and "open_on s f lf OFR_DECRYPT" "can_request s" "0 \<le> off"
    and "sizeof_packet + length data \<le> MAX_MSG_SIZE" "n = length data"
    and "run_state (teadfs_read_lower K data off n f) s = (r, u)"
    and "run_state (teadfs_write_lower K f data off) s = (rc, t)"
  shows "(\<exists>p b. heap s p = None \<and> heap u = (heap s)(p \<mapsto> B_raw b)) \<and> faults u = faults s \<and>
    (\<exists>p b. heap s p = None \<and> heap t = (heap s)(p \<mapsto> B_raw b)) \<and>
    (\<exists>p more. faults t = faults s @ Bad_access p # more \<and> (stale_keeps K \<longrightarrow> more = []))"
proof -
  have none: "heap s p = None" if "brk s \<le> p" for p
    using assms(3) that by (auto simp: can_request_def id_free_def intro: heap_ok_above)
  have "wp (teadfs_read_lower K data off n f) (\<lambda>_ u. (\<exists>b. heap u = (heap s)(brk s \<mapsto> B_raw b)) \<and> faults u = faults s) s"
    by (rule lower_store.read_lower_ok [OF assms(1-4) _ _ refl]) (use assms(5,6) in \<open>auto simp: quiet_for_def frame_def\<close>)
  then have u: "(\<exists>b. heap u = (heap s)(brk s \<mapsto> B_raw b)) \<and> faults u = faults s" by (rule wp_run [OF _ assms(7)])
  have "wp (teadfs_write_lower K f data off) (\<lambda>_ t. (\<exists>b. heap t = (heap s)(brk s + 1 \<mapsto> B_raw b)) \<and>
      (\<exists>more. faults t = faults s @ Bad_access (brk s + 3) # more \<and> (stale_keeps K \<longrightarrow> more = []))) s"
    by (rule lower_store.write_lower_ok [OF assms(1-5)]) (auto simp: written_on_def passed_on_def frame_def)
  then have t: "(\<exists>b. heap t = (heap s)(brk s + 1 \<mapsto> B_raw b)) \<and>
      (\<exists>more. faults t = faults s @ Bad_access (brk s + 3) # more \<and> (stale_keeps K \<longrightarrow> more = []))"
    by (rule wp_run [OF _ assms(8)])
  have "heap s (brk s) = None" "heap s (brk s + 1) = None" by (simp_all add: none)
  then show ?thesis using u t by blast
qed

theorem data_path_leaks_witness:
  "\<exists>p. faults (snd (run_state (teadfs_write_lower test_kernel 9 [40, 50] 1) host_st)) = [Bad_access p]"
proof -
  let ?r = "run_state (teadfs_read_lower test_kernel [40, 50] 1 2 9) host_st"
    and ?w = "run_state (teadfs_write_lower test_kernel 9 [40, 50] 1) host_st"
  have "faults host_st = []" by (simp add: host_st_def boot_st_def)
  then show ?thesis
    using data_path_leaks [where off = 1 and data = "[40, 50]" and n = 2 and r = "fst ?r" and u = "snd ?r" and
        rc = "fst ?w" and t = "snd ?w", OF xor.lower_store_axioms host_st_open host_st_request(1)] host_stale_keeps
    by (simp add: layout_defs MAX_MSG_SIZE_def)
qed

section \<open>The life of a labelled file\<close>










end
