(* ===== verification/Super_Ops.thy ===== *)
theory Super_Ops
  imports Lower_Path
begin

text \<open>
  Super-block operations (\<open>super.c\<close>) and dentry operations (\<open>dentry.c\<close>): the life cycle of
  the module's inode and dentry structures.
\<close>

section \<open>Inodes (super.c)\<close>

definition teadfs_alloc_inode :: "'w kernel \<Rightarrow> ('w, ptr) op" where
  "teadfs_alloc_inode K = do {
     inode_info \<leftarrow> teadfs_zalloc K 1024 (B_inode zero_inode_info);
     if inode_info = 0 then ret 0
     else do {
       store inode_of B_inode (\<lambda>x. x\<lparr>lower_file_count := 0\<rparr>) inode_info;
       store inode_of B_inode (\<lambda>x. x\<lparr>file_decrypt := 0\<rparr>) inode_info;
       modify (\<lambda>s. s\<lparr>i_size := (i_size s)(inode_info := 0)\<rparr>);
       ret inode_info
     }
   }"

definition teadfs_i_callback :: "ptr \<Rightarrow> ('w, unit) op" where
  "teadfs_i_callback inode = do {
     teadfs_free inode;
     teadfs_set_inode_lower inode 0
   }"

text \<open>\<open>call_rcu\<close> only registers the callback: it runs after the grace period.\<close>

definition teadfs_destroy_inode :: "'w kernel \<Rightarrow> ptr \<Rightarrow> ('w, unit) op" where
  "teadfs_destroy_inode K inode = do {
     call K (K_sb (K_call_rcu inode));
     ret ()
   }"

definition teadfs_evict_inode :: "'w kernel \<Rightarrow> ptr \<Rightarrow> ('w, unit) op" where
  "teadfs_evict_inode K inode = do {
     call K (K_sb (K_truncate_inode_pages inode));
     call K (K_sb (K_clear_inode inode));
     lower \<leftarrow> teadfs_inode_to_lower inode;
     call K (K_ref (K_iput lower));
     ret ()
   }"

text \<open>\<open>f_type\<close> is the old value of the caller's field; the result has the new one.\<close>

definition teadfs_statfs :: "'w kernel \<Rightarrow> ptr \<Rightarrow> int \<Rightarrow> ('w, int \<times> int) op" where
  "teadfs_statfs K dentry f_type = do {
     lower_path \<leftarrow> teadfs_get_lower_path dentry;
     has \<leftarrow> call_rv K (K_load F_op_statfs (fst lower_path));
     (rc, ty) \<leftarrow> (if has = 0 then ret (- ENOSYS, f_type)
       else do {
         rc \<leftarrow> call_rv K (K_vfs (K_statfs (fst lower_path)));
         if rc \<noteq> 0 then ret (rc, f_type) else ret (rc, TEADFS_SUPER_MAGIC)
       });
     teadfs_put_lower_path dentry;
     ret (rc, ty)
   }"

definition teadfs_show_options :: "'w kernel \<Rightarrow> ptr \<Rightarrow> ('w, int) op" where
  "teadfs_show_options K m = do {
     call K (K_sb (K_seq_printf m [0x74, 0x65, 0x61, 0x64, 0x66, 0x73]));
     ret 0
   }"

section \<open>Dentries (dentry.c)\<close>

definition LOOKUP_RCU :: int where "LOOKUP_RCU = 0x40"

unbundle bit_operations_syntax

definition teadfs_d_revalidate :: "'w kernel \<Rightarrow> ptr \<Rightarrow> int \<Rightarrow> ('w, int) op" where
  "teadfs_d_revalidate K dentry flags =
     (if flags AND LOOKUP_RCU \<noteq> 0 then ret (- ECHILD)
      else do {
        lower_path \<leftarrow> teadfs_get_lower_path dentry;
        has \<leftarrow> call_rv K (K_load F_d_revalidate (fst lower_path));
        if has = 0 then ret 1
        else do {
          rc \<leftarrow> call_rv K (K_dcache (K_d_revalidate (fst lower_path) flags));
          inode \<leftarrow> call_rv K (K_load F_d_inode dentry);
          (if inode \<noteq> 0 then do {
             lower_inode \<leftarrow> teadfs_inode_to_lower inode;
             call K (K_attr (K_copy_attr_all inode lower_inode));
             ret ()
           }
           else ret ());
          (if fst lower_path \<noteq> 0 then teadfs_put_lower_path dentry else ret ());
          ret rc
        }
      })"

definition teadfs_d_release :: "'w kernel \<Rightarrow> ptr \<Rightarrow> ('w, unit) op" where
  "teadfs_d_release K dentry = do {
     p \<leftarrow> teadfs_dentry_to_private dentry;
     if p \<noteq> 0 then do {
       lower_path \<leftarrow> teadfs_get_lower_path dentry;
       call K (K_ref (K_dput (fst lower_path)));
       call K (K_ref (K_mntput (snd lower_path)));
       teadfs_put_lower_path dentry;
       q \<leftarrow> teadfs_dentry_to_private dentry;
       teadfs_free q;
       teadfs_set_dentry_private dentry 0
     }
     else ret ()
   }"

end
