(* ===== verification/Lookup_Ops.thy ===== *)
theory Lookup_Ops
  imports Super_Ops File_Ops
begin

text \<open>
  Lookup and interposition (\<open>lookup.c\<close>): finding or making the upper inode of a lower one, and
  hooking an upper dentry onto a lower one.
\<close>

section \<open>The upper inode of a lower inode\<close>

definition teadfs_inode_test :: "ptr \<Rightarrow> ptr \<Rightarrow> ('w, bool) op" where
  "teadfs_inode_test inode lower = do {
     l \<leftarrow> teadfs_inode_to_lower inode;
     ret (l = lower)
   }"

text \<open>Addresses of the module's operation tables.\<close>

definition teadfs_symlink_iops :: int where "teadfs_symlink_iops = 1"
definition teadfs_dir_iops :: int where "teadfs_dir_iops = 2"
definition teadfs_main_iops :: int where "teadfs_main_iops = 3"
definition teadfs_dir_fops :: int where "teadfs_dir_fops = 4"
definition teadfs_main_fops :: int where "teadfs_main_fops = 5"
definition teadfs_aops :: int where "teadfs_aops = 6"

definition S_ISLNK :: "int \<Rightarrow> bool" where "S_ISLNK m \<longleftrightarrow> m AND S_IFMT = 0xA000"
definition S_ISDIR :: "int \<Rightarrow> bool" where "S_ISDIR m \<longleftrightarrow> m AND S_IFMT = 0x4000"

text \<open>\<open>special_file\<close>: character and block devices, fifos and sockets.\<close>

definition special_file :: "int \<Rightarrow> bool" where
  "special_file m \<longleftrightarrow> m AND S_IFMT \<in> {0x2000, 0x6000, 0x1000, 0xC000}"

definition teadfs_inode_set :: "'w kernel \<Rightarrow> ptr \<Rightarrow> ptr \<Rightarrow> ('w, int) op" where
  "teadfs_inode_set K inode lower = do {
     teadfs_set_inode_lower inode lower;
     call K (K_attr (K_copy_attr_all inode lower));
     fsstack_copy_inode_size K inode lower;
     ino \<leftarrow> call_rv K (K_load F_i_ino lower);
     call K (K_store F_i_ino inode ino);
     ver \<leftarrow> call_rv K (K_load F_i_version inode);
     call K (K_store F_i_version inode (ver + 1));
     call K (K_store F_a_ops inode teadfs_aops);
     sb \<leftarrow> call_rv K (K_load F_i_sb inode);
     bdi \<leftarrow> call_rv K (K_load F_s_bdi sb);
     call K (K_store F_as_bdi inode bdi);
     mode \<leftarrow> call_rv K (K_load F_i_mode inode);
     (if S_ISLNK mode then call K (K_store F_i_op inode teadfs_symlink_iops)
      else if S_ISDIR mode then call K (K_store F_i_op inode teadfs_dir_iops)
      else call K (K_store F_i_op inode teadfs_main_iops));
     (if S_ISDIR mode then call K (K_store F_i_fop inode teadfs_dir_fops)
      else if special_file mode then do {
        rdev \<leftarrow> call_rv K (K_load F_i_rdev inode);
        call K (K_dcache (K_init_special_inode inode mode rdev))
      }
      else call K (K_store F_i_fop inode teadfs_main_fops));
     ret 0
   }"

text \<open>
  \<open>iget5_locked\<close> with the module's callbacks: the kernel proposes a cached inode (or \<open>0\<close>), which
  is taken if it passes \<open>teadfs_inode_test\<close>; otherwise a fresh inode of the super block's
  \<open>alloc_inode\<close> is set up by \<open>teadfs_inode_set\<close> and returned locked and new. The flag is
  \<open>i_state & I_NEW\<close>.
\<close>

definition iget5_locked :: "'w kernel \<Rightarrow> ptr \<Rightarrow> ptr \<Rightarrow> ('w, ptr \<times> bool) op" where
  "iget5_locked K sb lower = do {
     r \<leftarrow> call_rv K (K_dcache (K_iget5_locked sb lower));
     hit \<leftarrow> (if r = 0 then ret False else teadfs_inode_test r lower);
     if hit then ret (r, False)
     else do {
       inode \<leftarrow> teadfs_alloc_inode K;
       if inode = 0 then ret (0, False)
       else do {
         teadfs_inode_set K inode lower;
         ret (inode, True)
       }
     }
   }"

definition teadfs_get_inode_locked :: "'w kernel \<Rightarrow> ptr \<Rightarrow> ptr \<Rightarrow> ('w, ptr \<times> bool) op" where
  "teadfs_get_inode_locked K l_inode sb = do {
     i_sb \<leftarrow> call_rv K (K_load F_i_sb l_inode);
     l_sb \<leftarrow> teadfs_superblock_to_lower sb;
     if i_sb \<noteq> l_sb then ret (- EXDEV, False)
     else do {
       g \<leftarrow> call_rv K (K_ref (K_igrab l_inode));
       if g = 0 then ret (- ESTALE, False)
       else do {
         (inode, new) \<leftarrow> iget5_locked K sb l_inode;
         if inode = 0 then do {
           call K (K_ref (K_iput l_inode));
           ret (- EACCES, False)
         }
         else if \<not> new then do {
           call K (K_ref (K_iput l_inode));
           ret (inode, new)
         }
         else ret (inode, new)
       }
     }
   }"

definition teadfs_get_inode :: "'w kernel \<Rightarrow> ptr \<Rightarrow> ptr \<Rightarrow> ('w, ptr) op" where
  "teadfs_get_inode K l_inode sb = do {
     (inode, new) \<leftarrow> teadfs_get_inode_locked K l_inode sb;
     (if \<not> IS_ERR inode \<and> new then do {
        call K (K_dcache (K_unlock_new_inode inode));
        ret ()
      }
      else ret ());
     ret inode
   }"

definition teadfs_interpose :: "'w kernel \<Rightarrow> ptr \<Rightarrow> ptr \<Rightarrow> ptr \<Rightarrow> ('w, int) op" where
  "teadfs_interpose K lower_dentry dentry sb = do {
     lower_inode \<leftarrow> call_rv K (K_load F_d_inode lower_dentry);
     inode \<leftarrow> teadfs_get_inode K lower_inode sb;
     if IS_ERR inode then ret inode
     else do {
       call K (K_dcache (K_d_instantiate dentry inode));
       ret 0
     }
   }"

section \<open>Lookup\<close>

definition teadfs_lookup_interpose :: "'w kernel \<Rightarrow> ptr \<Rightarrow> ptr \<Rightarrow> ptr \<Rightarrow> ('w, int) op" where
  "teadfs_lookup_interpose K dentry lower_dentry dir_inode = do {
     lower_inode \<leftarrow> call_rv K (K_load F_d_inode lower_dentry);
     dentry_info \<leftarrow> teadfs_zalloc K 24 (B_dentry zero_dentry_info);
     rc \<leftarrow> (if dentry_info = 0 then do {
         call K (K_ref (K_dput lower_dentry));
         ret (- ENOMEM)
       }
       else do {
         teadfs_set_dentry_private dentry dentry_info;
         parent \<leftarrow> call_rv K (K_ref (K_dget_parent dentry));
         lower_parent_path \<leftarrow> teadfs_get_lower_path parent;
         lower_mnt \<leftarrow> call_rv K (K_ref (K_mntget (snd lower_parent_path)));
         parent_inode \<leftarrow> call_rv K (K_load F_d_inode parent);
         call K (K_attr (K_copy_attr_atime dir_inode parent_inode));
         teadfs_put_lower_path parent;
         call K (K_ref (K_dput parent));
         teadfs_set_lower_path dentry (lower_dentry, lower_mnt);
         li \<leftarrow> call_rv K (K_load F_d_inode lower_dentry);
         if li = 0 then do {
           call K (K_dcache (K_d_add dentry 0));
           ret 0
         }
         else do {
           sb \<leftarrow> call_rv K (K_load F_i_sb dir_inode);
           (inode, new) \<leftarrow> teadfs_get_inode_locked K lower_inode sb;
           if IS_ERR inode then ret inode
           else do {
             (if new then do {
                call K (K_dcache (K_unlock_new_inode inode));
                ret ()
              }
              else ret ());
             call K (K_dcache (K_d_add dentry inode));
             ret 0
           }
         }
       });
     (if rc \<noteq> 0 then do {
        p \<leftarrow> teadfs_dentry_to_private dentry;
        teadfs_free p;
        teadfs_set_dentry_private dentry 0
      }
      else ret ());
     ret rc
   }"

text \<open>The result is \<open>ERR_PTR(rc)\<close>: \<open>0\<close> (\<open>NULL\<close>) on success.\<close>

definition teadfs_lookup :: "'w kernel \<Rightarrow> ptr \<Rightarrow> ptr \<Rightarrow> ('w, ptr) op" where
  "teadfs_lookup K dir_inode dentry = do {
     parent \<leftarrow> call_rv K (K_ref (K_dget_parent dentry));
     lower_parent_path \<leftarrow> teadfs_get_lower_path parent;
     let lower_dir_dentry = fst lower_parent_path;
     emit (K_lock (L_i_mutex lower_dir_dentry));
     lower_dentry \<leftarrow> call_rv K (K_dcache (K_lookup_one_len dentry lower_dir_dentry));
     emit (K_unlock (L_i_mutex lower_dir_dentry));
     rc \<leftarrow> (if IS_ERR lower_dentry then ret lower_dentry
       else teadfs_lookup_interpose K dentry lower_dentry dir_inode);
     call K (K_ref (K_dput parent));
     teadfs_put_lower_path parent;
     ret rc
   }"

end
