(* ===== verification/Inode_Ops.thy ===== *)
theory Inode_Ops
  imports Mmap_Ops Lookup_Ops
begin

text \<open>
  Inode operations (\<open>inode.c\<close>): every operation on the upper inode takes the lower path, locks
  the lower directory where it changes it, calls the lower file system, copies attributes back
  and drops what it took.
\<close>

section \<open>Helpers\<close>

definition d_inode :: "'w kernel \<Rightarrow> ptr \<Rightarrow> ('w, ptr) op" where
  "d_inode K d = call_rv K (K_load F_d_inode d)"

definition ref :: "'w kernel \<Rightarrow> ref_call \<Rightarrow> ('w, unit) op" where
  "ref K c = do { call K (K_ref c); ret () }"

definition attr :: "'w kernel \<Rightarrow> attr_call \<Rightarrow> ('w, unit) op" where
  "attr K c = do { call K (K_attr c); ret () }"

definition dcache :: "'w kernel \<Rightarrow> dcache_call \<Rightarrow> ('w, unit) op" where
  "dcache K c = do { call K (K_dcache c); ret () }"

definition lock_parent :: "'w kernel \<Rightarrow> ptr \<Rightarrow> ('w, ptr) op" where
  "lock_parent K dentry = do {
     dir \<leftarrow> call_rv K (K_ref (K_dget_parent dentry));
     emit (K_lock (L_i_mutex dir));
     ret dir
   }"

definition unlock_dir :: "'w kernel \<Rightarrow> ptr \<Rightarrow> ('w, unit) op" where
  "unlock_dir K dir = do {
     emit (K_unlock (L_i_mutex dir));
     ref K (K_dput dir)
   }"

text \<open>\<open>fsstack_copy_attr_times\<close> and \<open>fsstack_copy_inode_size\<close> from a lower directory.\<close>

definition copy_dir_attrs :: "'w kernel \<Rightarrow> ptr \<Rightarrow> ptr \<Rightarrow> ('w, unit) op" where
  "copy_dir_attrs K dir lower_dir_dentry = do {
     i \<leftarrow> d_inode K lower_dir_dentry;
     attr K (K_copy_attr_times dir i);
     j \<leftarrow> d_inode K lower_dir_dentry;
     fsstack_copy_inode_size K dir j
   }"

definition d_drop_negative :: "'w kernel \<Rightarrow> ptr \<Rightarrow> ('w, unit) op" where
  "d_drop_negative K dentry = do {
     i \<leftarrow> d_inode K dentry;
     if i = 0 then dcache K (K_d_drop dentry) else ret ()
   }"

section \<open>Create\<close>

text \<open>
  \<open>rc\<close> stays the result of \<open>vfs_create\<close>: it is never set from the inode. Where the parent is an
  error pointer it is never set at all.
\<close>

definition teadfs_create :: "'w kernel \<Rightarrow> ptr \<Rightarrow> ptr \<Rightarrow> int \<Rightarrow> bool \<Rightarrow> ('w, int) op" where
  "teadfs_create K dir dentry mode want_excl = do {
     lower_path \<leftarrow> teadfs_get_lower_path dentry;
     let lower_dentry = fst lower_path;
     lower_parent_dentry \<leftarrow> lock_parent K lower_dentry;
     rc \<leftarrow> (if IS_ERR lower_parent_dentry then do {
         raise_fault (Bad_pointer lower_parent_dentry);
         b \<leftarrow> stack_bytes K 4;
         ret (dec_int b)
       }
       else do {
         pi \<leftarrow> d_inode K lower_parent_dentry;
         rc \<leftarrow> call_rv K (K_vfs (K_vfs_create pi lower_dentry mode want_excl));
         (if rc \<noteq> 0 then ret ()
          else do {
            li \<leftarrow> d_inode K lower_dentry;
            sb \<leftarrow> call_rv K (K_load F_i_sb dir);
            (inode, new) \<leftarrow> teadfs_get_inode_locked K li sb;
            if IS_ERR inode then do {
              pi' \<leftarrow> d_inode K lower_parent_dentry;
              call K (K_vfs (K_vfs_unlink pi' lower_dentry));
              ret ()
            }
            else do {
              copy_dir_attrs K dir lower_parent_dentry;
              dcache K (K_unlock_new_inode inode);
              dcache K (K_d_instantiate dentry inode)
            }
          });
         ret rc
       });
     (if \<not> IS_ERR lower_parent_dentry then unlock_dir K lower_parent_dentry else ret ());
     teadfs_put_lower_path dentry;
     ret rc
   }"

section \<open>Attributes\<close>

record kstat =
  st_mode :: int
  st_size :: int
  st_blocks :: int

text \<open>\<open>generic_fillattr\<close>: the mode and the size come from the upper inode.\<close>

definition generic_fillattr :: "'w kernel \<Rightarrow> ptr \<Rightarrow> kstat \<Rightarrow> ('w, kstat) op" where
  "generic_fillattr K inode stat = do {
     attr K (K_generic_fillattr inode);
     mode \<leftarrow> call_rv K (K_load F_i_mode inode);
     n \<leftarrow> i_size_read inode;
     ret (stat\<lparr>st_mode := mode, st_size := n\<rparr>)
   }"

text \<open>\<open>vfs_getattr\<close> delivers the lower file's block count in \<open>rdata\<close>.\<close>

definition teadfs_getattr :: "'w kernel \<Rightarrow> ptr \<Rightarrow> kstat \<Rightarrow> ('w, int \<times> kstat) op" where
  "teadfs_getattr K dentry stat = do {
     lower_path \<leftarrow> teadfs_get_lower_path dentry;
     r \<leftarrow> call K (K_vfs (K_vfs_getattr (fst lower_path) (snd lower_path)));
     stat' \<leftarrow> (if rv r = 0 then do {
         inode \<leftarrow> d_inode K dentry;
         lower \<leftarrow> teadfs_inode_to_lower inode;
         attr K (K_copy_attr_all inode lower);
         st \<leftarrow> generic_fillattr K inode stat;
         let st = st\<lparr>st_blocks := int (le_nat (rdata r))\<rparr>;
         info \<leftarrow> load inode_of zero_inode_info inode;
         if S_ISREG (st_mode st) \<and> file_decrypt info \<noteq> 0 then do {
           access \<leftarrow> teadfs_request_open_path K (fst lower_path) (snd lower_path);
           if OFR_DECRYPT = access then ret (st\<lparr>st_size := st_size st - ENCRYPT_FILE_HEADER_SIZE\<rparr>)
           else ret st
         }
         else ret st
       }
       else ret stat);
     teadfs_put_lower_path dentry;
     ret (rv r, stat')
   }"

definition teadfs_getattr_link :: "'w kernel \<Rightarrow> ptr \<Rightarrow> kstat \<Rightarrow> ('w, int \<times> kstat) op" where
  "teadfs_getattr_link K dentry stat = do {
     inode \<leftarrow> d_inode K dentry;
     st \<leftarrow> generic_fillattr K inode stat;
     ret (0, st)
   }"

definition ATTR_MODE :: int where "ATTR_MODE = 1"
definition ATTR_KILL_SUID :: int where "ATTR_KILL_SUID = 2048"
definition ATTR_KILL_SGID :: int where "ATTR_KILL_SGID = 4096"
definition ATTR_FILE :: int where "ATTR_FILE = 8192"

definition teadfs_setattr :: "'w kernel \<Rightarrow> ptr \<Rightarrow> iattr \<Rightarrow> ('w, int) op" where
  "teadfs_setattr K dentry ia = do {
     inode \<leftarrow> d_inode K dentry;
     lower_inode \<leftarrow> teadfs_inode_to_lower inode;
     lower_path \<leftarrow> teadfs_get_lower_path dentry;
     let lower_dentry = fst lower_path;
     rc0 \<leftarrow> call_rv K (K_vfs (K_inode_change_ok inode (ia_valid ia)));
     rc \<leftarrow> (if rc0 \<noteq> 0 then ret rc0
       else do {
         lower_ia \<leftarrow> (if ia_valid ia AND ATTR_FILE \<noteq> 0 then do {
             lf \<leftarrow> teadfs_file_to_lower (ia_file ia);
             ret (ia\<lparr>ia_file := lf\<rparr>)
           }
           else ret ia);
         (rc1, lower_ia) \<leftarrow> (if ia_valid ia AND ATTR_SIZE \<noteq> 0 then truncate_upper K dentry ia lower_ia
           else ret (0, lower_ia));
         if rc1 < 0 then ret rc1
         else do {
           let lower_ia = (if ia_valid lower_ia AND (ATTR_KILL_SUID OR ATTR_KILL_SGID) \<noteq> 0
             then lower_ia\<lparr>ia_valid := ia_valid lower_ia AND NOT ATTR_MODE\<rparr> else lower_ia);
           emit (K_lock (L_i_mutex lower_dentry));
           rc2 \<leftarrow> call_rv K (K_vfs (K_notify_change lower_dentry (ia_valid lower_ia) (ia_size lower_ia)));
           emit (K_unlock (L_i_mutex lower_dentry));
           ret rc2
         }
       });
     attr K (K_copy_attr_all inode lower_inode);
     teadfs_put_lower_path dentry;
     ret rc
   }"

definition teadfs_permission :: "'w kernel \<Rightarrow> ptr \<Rightarrow> int \<Rightarrow> ('w, int) op" where
  "teadfs_permission K inode msk = do {
     lower \<leftarrow> teadfs_inode_to_lower inode;
     call_rv K (K_vfs (K_inode_permission lower msk))
   }"

section \<open>Extended attributes\<close>

definition teadfs_setxattr :: "'w kernel \<Rightarrow> ptr \<Rightarrow> bytes \<Rightarrow> bytes \<Rightarrow> int \<Rightarrow> ('w, int) op" where
  "teadfs_setxattr K dentry name val flags = do {
     lower_path \<leftarrow> teadfs_get_lower_path dentry;
     let lower_dentry = fst lower_path;
     has \<leftarrow> call_rv K (K_load F_op_setxattr lower_dentry);
     rc \<leftarrow> (if has = 0 then ret (- EOPNOTSUPP)
       else do {
         rc \<leftarrow> call_rv K (K_vfs (K_vfs_setxattr lower_dentry name val flags));
         inode \<leftarrow> d_inode K dentry;
         (if rc = 0 \<and> inode \<noteq> 0 then do {
            li \<leftarrow> d_inode K lower_dentry;
            attr K (K_copy_attr_all inode li)
          }
          else ret ());
         ret rc
       });
     teadfs_put_lower_path dentry;
     ret rc
   }"

text \<open>The three operations that call the lower inode's method under its mutex.\<close>

definition xattr_method :: "'w kernel \<Rightarrow> ptr \<Rightarrow> field \<Rightarrow> (ptr \<Rightarrow> vfs_call) \<Rightarrow> ('w, int) op" where
  "xattr_method K dentry slot c = do {
     lower_path \<leftarrow> teadfs_get_lower_path dentry;
     let lower_dentry = fst lower_path;
     has \<leftarrow> call_rv K (K_load slot lower_dentry);
     rc \<leftarrow> (if has = 0 then ret (- EOPNOTSUPP)
       else do {
         emit (K_lock (L_i_mutex lower_dentry));
         rc \<leftarrow> call_rv K (K_vfs (c lower_dentry));
         emit (K_unlock (L_i_mutex lower_dentry));
         ret rc
       });
     teadfs_put_lower_path dentry;
     ret rc
   }"

definition teadfs_getxattr :: "'w kernel \<Rightarrow> ptr \<Rightarrow> bytes \<Rightarrow> nat \<Rightarrow> ('w, int) op" where
  "teadfs_getxattr K dentry name n = xattr_method K dentry F_op_getxattr (\<lambda>d. K_getxattr d name n)"

definition teadfs_listxattr :: "'w kernel \<Rightarrow> ptr \<Rightarrow> nat \<Rightarrow> ('w, int) op" where
  "teadfs_listxattr K dentry n = xattr_method K dentry F_op_listxattr (\<lambda>d. K_listxattr d n)"

definition teadfs_removexattr :: "'w kernel \<Rightarrow> ptr \<Rightarrow> bytes \<Rightarrow> ('w, int) op" where
  "teadfs_removexattr K dentry name = xattr_method K dentry F_op_removexattr (\<lambda>d. K_removexattr d name)"

section \<open>Symbolic links\<close>

text \<open>
  The result is the return code and \<open>*buf\<close>. Without memory \<open>rc\<close> is never set; \<open>*bufsiz\<close> is
  never changed.
\<close>

definition teadfs_readlink_lower :: "'w kernel \<Rightarrow> ptr \<Rightarrow> ('w, int \<times> ptr) op" where
  "teadfs_readlink_lower K dentry = do {
     buf \<leftarrow> teadfs_zalloc K PATH_MAX (B_raw (replicate PATH_MAX 0));
     rc \<leftarrow> (if buf = 0 then do { b \<leftarrow> stack_bytes K 4; ret (dec_int b) }
       else do {
         lower_path \<leftarrow> teadfs_get_lower_path dentry;
         r \<leftarrow> call K (K_vfs (K_readlink (fst lower_path) PATH_MAX));
         poke buf 0 (take PATH_MAX (rdata r));
         ret (rv r)
       });
     teadfs_put_lower_path dentry;
     ret (rc, buf)
   }"

text \<open>The function ends without a \<open>return\<close> statement.\<close>

definition teadfs_readlink :: "'w kernel \<Rightarrow> ptr \<Rightarrow> int \<Rightarrow> ('w, int) op" where
  "teadfs_readlink K dentry buflen = do {
     teadfs_get_lower_path dentry;
     call K (K_vfs (K_generic_readlink dentry buflen));
     teadfs_put_lower_path dentry;
     b \<leftarrow> stack_bytes K 4;
     ret (dec_int b)
   }"

definition teadfs_follow_link :: "'w kernel \<Rightarrow> ptr \<Rightarrow> ptr \<Rightarrow> ('w, unit) op" where
  "teadfs_follow_link K dentry nd = do {
     lower_path \<leftarrow> teadfs_get_lower_path dentry;
     (rc, buf) \<leftarrow> teadfs_readlink_lower K dentry;
     (if rc \<noteq> 0 then ret ()
      else do {
        inode \<leftarrow> d_inode K dentry;
        lower_inode \<leftarrow> d_inode K (fst lower_path);
        attr K (K_copy_attr_atime inode lower_inode);
        poke buf PATH_MAX [0]
      });
     call K (K_vfs (K_nd_set_link nd buf));
     teadfs_put_lower_path dentry
   }"

definition teadfs_put_link :: "'w kernel \<Rightarrow> ptr \<Rightarrow> ('w, unit) op" where
  "teadfs_put_link K nd = do {
     buf \<leftarrow> call_rv K (K_vfs (K_nd_get_link nd));
     if \<not> IS_ERR buf then teadfs_free buf else ret ()
   }"

section \<open>Directory entries\<close>

definition teadfs_link :: "'w kernel \<Rightarrow> ptr \<Rightarrow> ptr \<Rightarrow> ptr \<Rightarrow> ('w, int) op" where
  "teadfs_link K old_dentry dir new_dentry = do {
     old_inode \<leftarrow> d_inode K old_dentry;
     file_size_save \<leftarrow> i_size_read old_inode;
     lower_old_path \<leftarrow> teadfs_get_lower_path old_dentry;
     lower_new_path \<leftarrow> teadfs_get_lower_path new_dentry;
     let lower_old_dentry = fst lower_old_path;
     let lower_new_dentry = fst lower_new_path;
     ref K (K_dget lower_old_dentry);
     ref K (K_dget lower_new_dentry);
     lower_dir_dentry \<leftarrow> lock_parent K lower_new_dentry;
     di \<leftarrow> d_inode K lower_dir_dentry;
     rc0 \<leftarrow> call_rv K (K_vfs (K_vfs_link lower_old_dentry di lower_new_dentry));
     ni \<leftarrow> d_inode K lower_new_dentry;
     rc \<leftarrow> (if rc0 \<noteq> 0 \<or> ni = 0 then ret rc0
       else do {
         sb \<leftarrow> call_rv K (K_load F_i_sb dir);
         rc1 \<leftarrow> teadfs_interpose K lower_new_dentry new_dentry sb;
         if rc1 \<noteq> 0 then ret rc1
         else do {
           copy_dir_attrs K dir lower_dir_dentry;
           oi \<leftarrow> d_inode K old_dentry;
           loi \<leftarrow> teadfs_inode_to_lower oi;
           nlink \<leftarrow> call_rv K (K_load F_i_nlink loi);
           attr K (K_set_nlink oi nlink);
           newi \<leftarrow> d_inode K new_dentry;
           i_size_write newi file_size_save;
           ret 0
         }
       });
     unlock_dir K lower_dir_dentry;
     ref K (K_dput lower_new_dentry);
     ref K (K_dput lower_old_dentry);
     teadfs_put_lower_path old_dentry;
     teadfs_put_lower_path new_dentry;
     ret rc
   }"

definition teadfs_unlink :: "'w kernel \<Rightarrow> ptr \<Rightarrow> ptr \<Rightarrow> ('w, int) op" where
  "teadfs_unlink K dir dentry = do {
     lower_dir_inode \<leftarrow> teadfs_inode_to_lower dir;
     inode \<leftarrow> d_inode K dentry;
     lower_path \<leftarrow> teadfs_get_lower_path dentry;
     let lower_dentry = fst lower_path;
     ref K (K_dget lower_dentry);
     lower_dir_dentry \<leftarrow> lock_parent K lower_dentry;
     rc \<leftarrow> call_rv K (K_vfs (K_vfs_unlink lower_dir_inode lower_dentry));
     (if rc \<noteq> 0 then ret ()
      else do {
        attr K (K_copy_attr_times dir lower_dir_inode);
        li \<leftarrow> teadfs_inode_to_lower inode;
        nlink \<leftarrow> call_rv K (K_load F_i_nlink li);
        attr K (K_set_nlink inode nlink);
        ctime \<leftarrow> call_rv K (K_load F_i_ctime dir);
        attr K (K_set_i_ctime inode ctime);
        dcache K (K_d_drop dentry)
      });
     unlock_dir K lower_dir_dentry;
     ref K (K_dput lower_dentry);
     teadfs_put_lower_path dentry;
     ret rc
   }"

definition teadfs_symlink :: "'w kernel \<Rightarrow> ptr \<Rightarrow> ptr \<Rightarrow> bytes \<Rightarrow> ('w, int) op" where
  "teadfs_symlink K dir dentry symname = do {
     lower_path \<leftarrow> teadfs_get_lower_path dentry;
     let lower_dentry = fst lower_path;
     ref K (K_dget lower_dentry);
     lower_dir_dentry \<leftarrow> lock_parent K lower_dentry;
     di \<leftarrow> d_inode K lower_dir_dentry;
     rc0 \<leftarrow> call_rv K (K_vfs (K_vfs_symlink di lower_dentry symname));
     li \<leftarrow> d_inode K lower_dentry;
     rc \<leftarrow> (if rc0 \<noteq> 0 \<or> li = 0 then ret rc0
       else do {
         sb \<leftarrow> call_rv K (K_load F_i_sb dir);
         rc1 \<leftarrow> teadfs_interpose K lower_dentry dentry sb;
         (if rc1 \<noteq> 0 then ret () else copy_dir_attrs K dir lower_dir_dentry);
         ret rc1
       });
     unlock_dir K lower_dir_dentry;
     ref K (K_dput lower_dentry);
     d_drop_negative K dentry;
     teadfs_put_lower_path dentry;
     ret rc
   }"

definition teadfs_mkdir :: "'w kernel \<Rightarrow> ptr \<Rightarrow> ptr \<Rightarrow> int \<Rightarrow> ('w, int) op" where
  "teadfs_mkdir K dir dentry mode = do {
     lower_path \<leftarrow> teadfs_get_lower_path dentry;
     let lower_dentry = fst lower_path;
     lower_dir_dentry \<leftarrow> lock_parent K lower_dentry;
     di \<leftarrow> d_inode K lower_dir_dentry;
     rc0 \<leftarrow> call_rv K (K_vfs (K_vfs_mkdir di lower_dentry mode));
     li \<leftarrow> d_inode K lower_dentry;
     rc \<leftarrow> (if rc0 \<noteq> 0 \<or> li = 0 then ret rc0
       else do {
         sb \<leftarrow> call_rv K (K_load F_i_sb dir);
         rc1 \<leftarrow> teadfs_interpose K lower_dentry dentry sb;
         (if rc1 \<noteq> 0 then ret ()
          else do {
            copy_dir_attrs K dir lower_dir_dentry;
            ddi \<leftarrow> d_inode K lower_dir_dentry;
            nlink \<leftarrow> call_rv K (K_load F_i_nlink ddi);
            attr K (K_set_nlink dir nlink)
          });
         ret rc1
       });
     unlock_dir K lower_dir_dentry;
     d_drop_negative K dentry;
     teadfs_put_lower_path dentry;
     ret rc
   }"

definition teadfs_rmdir :: "'w kernel \<Rightarrow> ptr \<Rightarrow> ptr \<Rightarrow> ('w, int) op" where
  "teadfs_rmdir K dir dentry = do {
     lower_path \<leftarrow> teadfs_get_lower_path dentry;
     let lower_dentry = fst lower_path;
     ref K (K_dget dentry);
     lower_dir_dentry \<leftarrow> lock_parent K lower_dentry;
     ref K (K_dget lower_dentry);
     di \<leftarrow> d_inode K lower_dir_dentry;
     rc \<leftarrow> call_rv K (K_vfs (K_vfs_rmdir di lower_dentry));
     ref K (K_dput lower_dentry);
     inode \<leftarrow> d_inode K dentry;
     (if rc = 0 \<and> inode \<noteq> 0 then attr K (K_clear_nlink inode) else ret ());
     di' \<leftarrow> d_inode K lower_dir_dentry;
     attr K (K_copy_attr_times dir di');
     nlink \<leftarrow> call_rv K (K_load F_i_nlink di');
     attr K (K_set_nlink dir nlink);
     unlock_dir K lower_dir_dentry;
     (if rc = 0 then dcache K (K_d_drop dentry) else ret ());
     ref K (K_dput dentry);
     teadfs_put_lower_path dentry;
     ret rc
   }"

definition teadfs_mknod :: "'w kernel \<Rightarrow> ptr \<Rightarrow> ptr \<Rightarrow> int \<Rightarrow> int \<Rightarrow> ('w, int) op" where
  "teadfs_mknod K dir dentry mode dev = do {
     lower_path \<leftarrow> teadfs_get_lower_path dentry;
     let lower_dentry = fst lower_path;
     lower_dir_dentry \<leftarrow> lock_parent K lower_dentry;
     di \<leftarrow> d_inode K lower_dir_dentry;
     rc0 \<leftarrow> call_rv K (K_vfs (K_vfs_mknod di lower_dentry mode dev));
     li \<leftarrow> d_inode K lower_dentry;
     rc \<leftarrow> (if rc0 \<noteq> 0 \<or> li = 0 then ret rc0
       else do {
         sb \<leftarrow> call_rv K (K_load F_i_sb dir);
         rc1 \<leftarrow> teadfs_interpose K lower_dentry dentry sb;
         (if rc1 \<noteq> 0 then ret () else copy_dir_attrs K dir lower_dir_dentry);
         ret rc1
       });
     unlock_dir K lower_dir_dentry;
     d_drop_negative K dentry;
     teadfs_put_lower_path dentry;
     ret rc
   }"

definition teadfs_rename :: "'w kernel \<Rightarrow> ptr \<Rightarrow> ptr \<Rightarrow> ptr \<Rightarrow> ptr \<Rightarrow> ('w, int) op" where
  "teadfs_rename K old_dir old_dentry new_dir new_dentry = do {
     lower_old_path \<leftarrow> teadfs_get_lower_path old_dentry;
     let lower_old_dentry = fst lower_old_path;
     lower_new_path \<leftarrow> teadfs_get_lower_path new_dentry;
     let lower_new_dentry = fst lower_new_path;
     ref K (K_dget lower_old_dentry);
     ref K (K_dget lower_new_dentry);
     lower_old_dir_dentry \<leftarrow> call_rv K (K_ref (K_dget_parent lower_old_dentry));
     lower_new_dir_dentry \<leftarrow> call_rv K (K_ref (K_dget_parent lower_new_dentry));
     target_inode \<leftarrow> d_inode K new_dentry;
     emit (K_lock (L_rename lower_old_dir_dentry lower_new_dir_dentry));
     trap \<leftarrow> call_rv K (K_dcache (K_lock_rename lower_old_dir_dentry lower_new_dir_dentry));
     (rc, is_rename_lock) \<leftarrow> (if trap = lower_old_dentry then ret (- EINVAL, False)
       else if trap = lower_new_dentry then ret (- ENOTEMPTY, False)
       else do {
         odi \<leftarrow> d_inode K lower_old_dir_dentry;
         ndi \<leftarrow> d_inode K lower_new_dir_dentry;
         rc \<leftarrow> call_rv K (K_vfs (K_vfs_rename odi lower_old_dentry ndi lower_new_dentry));
         (if rc \<noteq> 0 then ret ()
          else do {
            (if target_inode \<noteq> 0 then do {
               lt \<leftarrow> teadfs_inode_to_lower target_inode;
               attr K (K_copy_attr_all target_inode lt)
             }
             else ret ());
            ndi' \<leftarrow> d_inode K lower_new_dir_dentry;
            attr K (K_copy_attr_all new_dir ndi');
            (if new_dir \<noteq> old_dir then do {
               odi' \<leftarrow> d_inode K lower_old_dir_dentry;
               attr K (K_copy_attr_all old_dir odi')
             }
             else ret ())
          });
         ret (rc, True)
       });
     (if is_rename_lock then emit (K_unlock (L_rename lower_old_dir_dentry lower_new_dir_dentry))
      else ret ());
     ref K (K_dput lower_new_dir_dentry);
     ref K (K_dput lower_old_dir_dentry);
     ref K (K_dput lower_new_dentry);
     ref K (K_dput lower_old_dentry);
     teadfs_put_lower_path old_dentry;
     teadfs_put_lower_path new_dentry;
     ret rc
   }"

end
