(* ===== verification/Stack_Monitors.thy ===== *)
theory Stack_Monitors
  imports Inode_Ops
begin

text \<open>
  Monitors that do not mind how the upper file system keeps its own objects: copying attributes,
  the dentry cache and the fields of inodes. The helpers of \<open>inode.c\<close> and \<open>lookup.c\<close> are accepted by
  every such monitor; the monitors of references and of forwarded calls are instances.
\<close>

locale inode_monitor = neutral_monitor step
  for step :: "'h monitor" +
  assumes step_attr: "step H (K_attr c, r) = Some H"
    and step_dcache: "step H (K_dcache c', r) = Some H"
    and step_store: "step H (K_store fld p v, r) = Some H"
begin

lemmas inode_steps [simp] = step_attr step_dcache step_store

lemma mon_helpers [mon_intros]:
  "mon step H (d_inode K d) (\<lambda>_. H)"
  "mon step H (attr K ac) (\<lambda>_. H)"
  "mon step H (dcache K dc) (\<lambda>_. H)"
  "mon step H (stack_bytes K n) (\<lambda>_. H)"
  "mon step H (fsstack_copy_inode_size K a b) (\<lambda>_. H)"
  unfolding d_inode_def attr_def dcache_def stack_bytes_def fsstack_copy_inode_size_def
  by (rule mon_intros | simp)+

lemma mon_dir_helpers [mon_intros]:
  "mon step H (copy_dir_attrs K a b) (\<lambda>_. H)"
  "mon step H (d_drop_negative K d) (\<lambda>_. H)"
  unfolding copy_dir_attrs_def d_drop_negative_def by (rule mon_intros | simp)+

lemma mon_new_inode [mon_intros]:
  "mon step H (teadfs_alloc_inode K) (\<lambda>_. H)"
  "mon step H (teadfs_inode_set K i l) (\<lambda>_. H)"
  unfolding teadfs_alloc_inode_def teadfs_inode_set_def by (rule mon_intros | simp)+

lemma mon_iget [mon_intros]: "mon step H (iget5_locked K sb l) (\<lambda>_. H)"
  unfolding iget5_locked_def teadfs_inode_test_def by (rule mon_intros | simp)+

end

text \<open>Monitors that do not mind references to inodes either.\<close>

locale upper_monitor = inode_monitor step
  for step :: "'h monitor" +
  assumes step_igrab: "step H (K_ref (K_igrab p), r) = Some H"
    and step_iput: "step H (K_ref (K_iput p), r) = Some H"
begin

lemmas upper_steps [simp] = step_igrab step_iput

lemma mon_get_inode [mon_intros]:
  "mon step H (teadfs_get_inode_locked K l sb) (\<lambda>_. H)"
  "mon step H (teadfs_get_inode K l sb) (\<lambda>_. H)"
  "mon step H (teadfs_interpose K ld d sb) (\<lambda>_. H)"
  unfolding teadfs_get_inode_locked_def teadfs_get_inode_def teadfs_interpose_def
  by (rule mon_intros | simp)+

end

end
