(* ===== verification/Miscdev.thy ===== *)
theory Miscdev
  imports Global_Param
begin

text \<open>
  The misc device through which the client announces itself (\<open>miscdev.c\<close>): opening it marks
  the client connected and is refused while one is, closing it marks the client gone, reading
  and writing fail.
\<close>

section \<open>Operations\<close>

definition teadfs_miscdev_open :: "('w, int) op" where
  "teadfs_miscdev_open = do {
     rc \<leftarrow> teadfs_get_client_connect;
     if rc \<noteq> 0 then ret (- EBUSY)
     else do {
       teadfs_set_clinet_connect 1;
       ret rc
     }
   }"

definition teadfs_miscdev_release :: "('w, int) op" where
  "teadfs_miscdev_release = do {
     teadfs_set_clinet_connect 0;
     ret 0
   }"

definition teadfs_miscdev_read :: "('w, int) op" where
  "teadfs_miscdev_read = ret (- EFAULT)"

definition teadfs_miscdev_write :: "('w, int) op" where
  "teadfs_miscdev_write = ret (- EFAULT)"

definition teadfs_miscdev_poll :: "('w, int) op" where
  "teadfs_miscdev_poll = ret 0"

definition teadfs_init_miscdev :: "'w kernel \<Rightarrow> ('w, int) op" where
  "teadfs_init_miscdev K = do {
     teadfs_set_clinet_connect 0;
     rc \<leftarrow> call_rv K (K_net K_misc_register);
     ret rc
   }"

definition teadfs_destroy_miscdev :: "'w kernel \<Rightarrow> ('w, unit) op" where
  "teadfs_destroy_miscdev K = do {
     call K (K_net K_misc_deregister);
     ret ()
   }"

text \<open>The device's file operations, as the VFS invokes them.\<close>

datatype miscdev_op = MD_open | MD_release | MD_read | MD_write | MD_poll

fun miscdev_run :: "miscdev_op \<Rightarrow> ('w, int) op" where
  "miscdev_run MD_open = teadfs_miscdev_open"
| "miscdev_run MD_release = teadfs_miscdev_release"
| "miscdev_run MD_read = teadfs_miscdev_read"
| "miscdev_run MD_write = teadfs_miscdev_write"
| "miscdev_run MD_poll = teadfs_miscdev_poll"

section \<open>Lemmas\<close>

lemmas miscdev_defs = teadfs_miscdev_open_def teadfs_miscdev_release_def teadfs_miscdev_read_def
  teadfs_miscdev_write_def teadfs_miscdev_poll_def

lemma wp_miscdev_open:
  "wp teadfs_miscdev_open Q s \<longleftrightarrow>
     (if client_connect s \<noteq> 0
      then Q (- EBUSY) (s\<lparr>trace := trace s @ global_section\<rparr>)
      else Q 0 (s\<lparr>client_connect := 1, trace := trace s @ global_section @ global_section\<rparr>))"
  by (simp add: teadfs_miscdev_open_def wp_simps)

lemma holds_miscdev [holds_intros]: "L_global \<notin> H \<Longrightarrow> holds H (miscdev_run x) H"
  by (cases x; simp add: miscdev_defs; (rule holds_intros | simp)+)

text \<open>The connection flag stays a flag, whatever sequence of calls the device sees.\<close>

fun miscdev_trace :: "miscdev_op list \<Rightarrow> ('w, int list) op" where
  "miscdev_trace [] = ret []"
| "miscdev_trace (x # xs) = do {
     r \<leftarrow> miscdev_run x;
     rs \<leftarrow> miscdev_trace xs;
     ret (r # rs)
   }"

lemma miscdev_run_flag:
  "client_connect s \<in> {0, 1} \<Longrightarrow> client_connect (snd (run_state (miscdev_run x) s)) \<in> {0, 1}"
proof -
  assume "client_connect s \<in> {0, 1}"
  then have "wp (miscdev_run x) (\<lambda>_ t. client_connect t \<in> {0, 1}) s"
    by (cases x) (auto simp: miscdev_defs wp_simps)
  then show ?thesis by (simp add: wp_def)
qed

definition granted :: "miscdev_op list \<Rightarrow> int list \<Rightarrow> nat" where
  "granted xs rs = length (filter (\<lambda>(x, r). x = MD_open \<and> r = 0) (zip xs rs))"

lemma granted_bound:
  "MD_release \<notin> set xs \<Longrightarrow> client_connect s \<in> {0, 1} \<Longrightarrow>
     granted xs (fst (run_state (miscdev_trace xs) s)) \<le> (if client_connect s = 0 then 1 else 0)"
proof (induction xs arbitrary: s)
  case Nil
  then show ?case by (simp add: granted_def)
next
  case (Cons x xs)
  obtain r t where rt: "run_state (miscdev_run x) s = (r, t)" by (cases "run_state (miscdev_run x) s")
  have t: "client_connect t \<in> {0, 1}" using miscdev_run_flag [OF Cons.prems(2), of x] rt by simp
  have step: "(x = MD_open \<and> r = 0 \<longrightarrow> client_connect s = 0 \<and> client_connect t = 1) \<and>
      (x \<noteq> MD_open \<or> r \<noteq> 0 \<longrightarrow> client_connect t = client_connect s)"
  proof -
    have "wp (miscdev_run x) (\<lambda>r t. (x = MD_open \<and> r = 0 \<longrightarrow> client_connect s = 0 \<and> client_connect t = 1) \<and>
      (x \<noteq> MD_open \<or> r \<noteq> 0 \<longrightarrow> client_connect t = client_connect s)) s"
      using Cons.prems by (cases x) (auto simp: miscdev_defs wp_simps EBUSY_def)
    then show ?thesis by (rule wp_run [OF _ rt])
  qed
  have "granted xs (fst (run_state (miscdev_trace xs) t)) \<le> (if client_connect t = 0 then 1 else 0)"
    using Cons.IH [of t] Cons.prems t by simp
  then show ?case
    using step by (auto simp: granted_def rt split_beta split: if_splits)
qed

section \<open>Properties\<close>

text \<open>
  While nobody closes the device, at most one open of it succeeds, and none does if
  a client is connected already: there is never more than one client.
\<close>

theorem one_client:
  assumes "MD_release \<notin> set xs" "client_connect s \<in> {0, 1}"
  shows "granted xs (fst (run_state (miscdev_trace xs) s)) \<le> 1 \<and>
    (client_connect s = 1 \<longrightarrow> granted xs (fst (run_state (miscdev_trace xs) s)) = 0)"
  using granted_bound [OF assms] by (auto split: if_splits)

theorem one_client_witness:
  "granted [MD_open, MD_read, MD_open] (fst (run_state (miscdev_trace [MD_open, MD_read, MD_open]) (boot_st ()))) \<le> 1"
  using one_client [of "[MD_open, MD_read, MD_open]" "boot_st ()"] by (simp add: boot_st_def)

end
