(* ===== verification/Log.thy ===== *)
theory Log
  imports File_Ops
begin

text \<open>
  Logging (\<open>teadfs_log.c\<close>, \<open>teadfs_log.h\<close>): a log file opened when the module is loaded, and one
  line appended to it for every call above the debug level. The text of a line, what the format
  and its arguments expand to, is an argument. The operations of the other components leave their
  log calls out: a call changes nothing of the module's own state. No caller uses the level \<open>TLL_CNT\<close>.
\<close>

section \<open>Operations\<close>

datatype TEADFS_LOG_LEVEL = TLL_DBG | TLL_INF | TLL_ERR | TLL_CNT

definition LOG_MAX_BUF :: nat where "LOG_MAX_BUF = 4096"

definition O_CREAT :: int where "O_CREAT = 64"
definition O_APPEND :: int where "O_APPEND = 1024"

text \<open>The result is the new value of the global \<open>g_file\<close>: the file or an error pointer.\<close>

definition teadfs_log_create :: "'w kernel \<Rightarrow> ('w, ptr) op" where
  "teadfs_log_create K =
     call_rv K (K_sb (K_filp_open (map of_char ''/ttt.log'') (O_CREAT OR O_RDWR OR O_APPEND OR O_LARGEFILE) 438))"

definition teadfs_log_release :: "'w kernel \<Rightarrow> ptr \<Rightarrow> ('w, unit) op" where
  "teadfs_log_release K g_file = do {
     call K (K_sb (K_filp_close g_file));
     ret ()
   }"

text \<open>
  What \<open>vsnprintf\<close> leaves in the buffer of \<open>LOG_MAX_BUF\<close> bytes, up to the terminator that
  \<open>strlen\<close> finds.
\<close>

definition log_line :: "bytes \<Rightarrow> bytes" where
  "log_line text = takeWhile (\<lambda>b. b \<noteq> 0) (take (LOG_MAX_BUF - 1) text)"

definition teadfs_write_log :: "'w kernel \<Rightarrow> ptr \<Rightarrow> bytes \<Rightarrow> ('w, unit) op" where
  "teadfs_write_log K g_file text = do {
     deref g_file;
     pos \<leftarrow> call_rv K (K_load F_f_pos g_file);
     call K (K_io (K_kernel_write g_file (log_line text) pos));
     ret ()
   }"

text \<open>
  \<open>vprintk\<close> consumes the argument list. On the level \<open>TLL_CNT\<close> it is read again, which is undefined:
  a fault is recorded and the text of the line is up to the environment.
\<close>

definition teadfs_log :: "'w kernel \<Rightarrow> ptr \<Rightarrow> TEADFS_LOG_LEVEL \<Rightarrow> bytes \<Rightarrow> ('w, unit) op" where
  "teadfs_log K g_file level text = (case level of
     TLL_DBG \<Rightarrow> ret ()
   | TLL_INF \<Rightarrow> teadfs_write_log K g_file text
   | TLL_ERR \<Rightarrow> teadfs_write_log K g_file text
   | TLL_CNT \<Rightarrow> do {
       r \<leftarrow> call K (K_sb (K_vprintk text));
       raise_fault Consumed_args;
       teadfs_write_log K g_file (rdata r)
     })"

text \<open>The macros put the function, the line and the level in front of a message.\<close>

definition log_prefix :: "bytes \<Rightarrow> nat \<Rightarrow> string \<Rightarrow> bytes" where
  "log_prefix func line tag = func @ map of_char ''('' @ decimal line @ map of_char '')['' @ map of_char tag @
     map of_char ''] ''"

definition LOG_DBG :: "'w kernel \<Rightarrow> ptr \<Rightarrow> bytes \<Rightarrow> nat \<Rightarrow> bytes \<Rightarrow> ('w, unit) op" where
  "LOG_DBG K g_file func line msg = teadfs_log K g_file TLL_DBG (log_prefix func line ''debug'' @ msg)"

definition LOG_INF :: "'w kernel \<Rightarrow> ptr \<Rightarrow> bytes \<Rightarrow> nat \<Rightarrow> bytes \<Rightarrow> ('w, unit) op" where
  "LOG_INF K g_file func line msg = teadfs_log K g_file TLL_INF (log_prefix func line ''info '' @ msg)"

definition LOG_ERR :: "'w kernel \<Rightarrow> ptr \<Rightarrow> bytes \<Rightarrow> nat \<Rightarrow> bytes \<Rightarrow> ('w, unit) op" where
  "LOG_ERR K g_file func line msg = teadfs_log K g_file TLL_ERR (log_prefix func line ''error'' @ msg)"

end
