(* ===== verification/Module_Main.thy ===== *)
theory Module_Main
  imports Lookup_Ops Miscdev Netlink Log
begin

text \<open>
  Mounting and unmounting, module initialisation and exit (\<open>main.c\<close>). The fields of the new
  super block are kernel memory: their assignments are calls.
\<close>

definition MS_RDONLY :: int where "MS_RDONLY = 1"
definition MS_POSIXACL :: int where "MS_POSIXACL = 0x10000"
definition MS_ACTIVE :: int where "MS_ACTIVE = 0x40000000"
definition teadfs_sops :: int where "teadfs_sops = 7"
definition teadfs_dops :: int where "teadfs_dops = 8"

definition set_field :: "'w kernel \<Rightarrow> field \<Rightarrow> ptr \<Rightarrow> int \<Rightarrow> ('w, unit) op" where
  "set_field K f p v = do { call K (K_store f p v); ret () }"

text \<open>
  How far a mount got: \<open>Mounted\<close> is the early \<open>return\<close>, \<open>Failed\<close> carries the return code,
  the pointer \<open>s\<close>, the pointer \<open>sbi\<close> and the lower path if it is to be released.
\<close>

datatype mount_result = Mounted ptr | Failed int ptr ptr "(ptr \<times> ptr) option"

text \<open>The flags of the new super block.\<close>

definition mount_flags :: "int \<Rightarrow> int \<Rightarrow> int" where
  "mount_flags flags lower_flags =
     (let f = (flags AND NOT MS_POSIXACL) OR (lower_flags AND MS_POSIXACL)
      in if lower_flags AND MS_RDONLY \<noteq> 0 then f OR MS_RDONLY else f)"

text \<open>\<open>bdi\<close> is the build option \<open>CONFIG_BDICONFIG_BDI\<close>. The path that \<open>kern_path\<close> stores in its output argument is read by two calls.\<close>

definition mount_root_info :: "'w kernel \<Rightarrow> ptr \<Rightarrow> int \<Rightarrow> ptr \<times> ptr \<Rightarrow> ptr \<Rightarrow> ('w, mount_result) op" where
  "mount_root_info K s fl lower_path root = do {
     root_info \<leftarrow> teadfs_zalloc K 24 (B_dentry zero_dentry_info);
     if root_info = 0 then ret (Failed (- ENOMEM) s 0 (Some lower_path))
     else do {
       teadfs_set_dentry_private root root_info;
       teadfs_set_lower_path root lower_path;
       set_field K F_s_flags s (fl OR MS_ACTIVE);
       call K (K_ref (K_dget root));
       ret (Mounted root)
     }
   }"

definition mount_root :: "'w kernel \<Rightarrow> ptr \<Rightarrow> int \<Rightarrow> ptr \<times> ptr \<Rightarrow> ptr \<Rightarrow> ('w, mount_result) op" where
  "mount_root K s fl lower_path inode =
     (if IS_ERR inode then ret (Failed inode s 0 (Some lower_path))
      else do {
        root \<leftarrow> call_rv K (K_dcache (K_d_make_root inode));
        set_field K F_s_root s root;
        if root = 0 then ret (Failed (- ENOMEM) s 0 (Some lower_path))
        else mount_root_info K s fl lower_path root
      })"

definition mount_lower :: "'w kernel \<Rightarrow> int \<Rightarrow> ptr \<Rightarrow> ptr \<times> ptr \<Rightarrow> ('w, mount_result) op" where
  "mount_lower K flags s lower_path = do {
     lsb \<leftarrow> call_rv K (K_load F_d_sb (fst lower_path));
     same \<leftarrow> call_rv K (K_load F_s_is_teadfs lsb);
     if same \<noteq> 0 then ret (Failed (- EINVAL) s 0 (Some lower_path))
     else do {
       teadfs_set_superblock_lower s lsb;
       lflags \<leftarrow> call_rv K (K_load F_s_flags lsb);
       let fl = mount_flags flags lflags;
       set_field K F_s_flags s fl;
       maxb \<leftarrow> call_rv K (K_load F_s_maxbytes lsb);
       set_field K F_s_maxbytes s maxb;
       bs \<leftarrow> call_rv K (K_load F_s_blocksize lsb);
       set_field K F_s_blocksize s bs;
       set_field K F_s_magic s TEADFS_SUPER_MAGIC;
       li \<leftarrow> call_rv K (K_load F_d_inode (fst lower_path));
       inode \<leftarrow> teadfs_get_inode K li s;
       mount_root K s fl lower_path inode
     }
   }"

definition mount_body :: "'w kernel \<Rightarrow> bool \<Rightarrow> int \<Rightarrow> bytes \<Rightarrow> ('w, mount_result) op" where
  "mount_body K bdi flags dev_name = do {
     sbi \<leftarrow> teadfs_zalloc K 512 (B_sb zero_sb_info);
     if sbi = 0 then ret (Failed (- ENOMEM) 0 0 None)
     else do {
       s \<leftarrow> call_rv K (K_sb (K_sget flags));
       if IS_ERR s then ret (Failed s s sbi None)
       else do {
         rc \<leftarrow> (if bdi then call_rv K (K_sb (K_bdi_setup_and_register sbi)) else ret 0);
         if rc \<noteq> 0 then ret (Failed rc s sbi None)
         else do {
           (if bdi then set_field K F_s_bdi s sbi else ret ());
           teadfs_set_lower_super s sbi;
           set_field K F_s_op s teadfs_sops;
           set_field K F_s_d_op s teadfs_dops;
           rc \<leftarrow> call_rv K (K_sb (K_kern_path dev_name));
           if rc \<noteq> 0 then ret (Failed rc s 0 None)
           else do {
             ld \<leftarrow> call_rv K (K_sb K_path_dentry);
             lm \<leftarrow> call_rv K (K_sb K_path_mnt);
             mount_lower K flags s (ld, lm)
           }
         }
       }
     }
   }"

definition teadfs_kill_block_super :: "'w kernel \<Rightarrow> bool \<Rightarrow> ptr \<Rightarrow> ('w, unit) op" where
  "teadfs_kill_block_super K bdi sb = do {
     sb_info \<leftarrow> teadfs_get_super_block sb;
     call K (K_sb (K_kill_anon_super sb));
     if sb_info = 0 then ret ()
     else do {
       (if bdi then do { call K (K_sb (K_bdi_destroy sb_info)); ret () } else ret ());
       teadfs_set_superblock_lower sb 0;
       teadfs_free sb_info
     }
   }"

text \<open>
  \<open>deactivate_locked_super\<close> drops a reference to the super block; for the last one (a result other
  than zero) it calls the file system's \<open>kill_sb\<close>.
\<close>

definition deactivate_locked_super :: "'w kernel \<Rightarrow> bool \<Rightarrow> ptr \<Rightarrow> ('w, unit) op" where
  "deactivate_locked_super K bdi s = do {
     last_ref \<leftarrow> call_rv K (K_sb (K_deactivate_locked_super s));
     if last_ref \<noteq> 0 then teadfs_kill_block_super K bdi s else ret ()
   }"

text \<open>The cleanup after the \<open>do \<dots> while (0)\<close> block. Releasing an error pointer is a fault.\<close>

definition mount_cleanup :: "'w kernel \<Rightarrow> bool \<Rightarrow> int \<Rightarrow> ptr \<Rightarrow> ptr \<Rightarrow> (ptr \<times> ptr) option \<Rightarrow> ('w, ptr) op" where
  "mount_cleanup K bdi rc s sbi path = do {
     (case path of None \<Rightarrow> ret ()
      | Some lower_path \<Rightarrow> do {
          call K (K_ref (K_path_put (fst lower_path) (snd lower_path)));
          ret ()
        });
     (if s \<noteq> 0 then do {
        deref s;
        deactivate_locked_super K bdi s
      }
      else ret ());
     (if sbi \<noteq> 0 then teadfs_free sbi else ret ());
     ret rc
   }"

definition teadfs_mount :: "'w kernel \<Rightarrow> bool \<Rightarrow> int \<Rightarrow> bytes \<Rightarrow> ('w, ptr) op" where
  "teadfs_mount K bdi flags dev_name = do {
     r \<leftarrow> mount_body K bdi flags dev_name;
     case r of
       Mounted root \<Rightarrow> ret root
     | Failed rc s sbi path \<Rightarrow> mount_cleanup K bdi rc s sbi path
   }"

text \<open>
  The globals \<open>nlfd\<close>, the netlink socket (\<open>0\<close> until it is created), and \<open>g_file\<close>, the log file.
  The return code is always \<open>0\<close>.
\<close>

definition teadfs_module_init :: "'w kernel \<Rightarrow> ('w, int \<times> ptr \<times> ptr) op" where
  "teadfs_module_init K = do {
     g_file \<leftarrow> teadfs_log_create K;
     rc \<leftarrow> call_rv K (K_sb K_register_filesystem);
     if rc \<noteq> 0 then ret (0, 0, g_file)
     else do {
       teadfs_init_global_param;
       (nlfd, _) \<leftarrow> teadfs_start_netlink K;
       teadfs_init_miscdev K;
       ret (0, nlfd, g_file)
     }
   }"

definition teadfs_module_exit :: "'w kernel \<Rightarrow> ptr \<Rightarrow> ptr \<Rightarrow> ('w, unit) op" where
  "teadfs_module_exit K nlfd g_file = do {
     call K (K_sb K_unregister_filesystem);
     teadfs_release_netlink K nlfd;
     teadfs_destroy_miscdev K;
     teadfs_log_release K g_file
   }"

end
