(* ===== verification/Vfs_Locks.thy ===== *)
theory Vfs_Locks
  imports Inode_Ops Module_Main Mmap_Props
begin

text \<open>
  Lock discipline of the operations the VFS calls (\<open>file.c\<close>, \<open>mmap.c\<close>, \<open>inode.c\<close>, \<open>lookup.c\<close>,
  \<open>super.c\<close>, \<open>dentry.c\<close>): none takes a lock it holds, none releases one it does not hold, and all
  but \<open>teadfs_rename\<close> return with no lock held.
\<close>

section \<open>File and address-space operations\<close>

lemma holds_lower_file [holds_intros]:
  "channel_free H \<Longrightarrow> (\<And>p. L_dentry_info p \<notin> H) \<Longrightarrow> (\<And>p. L_lower_file p \<notin> H) \<Longrightarrow>
     holds H (teadfs_get_lower_file K d i fl) H"
  unfolding teadfs_get_lower_file_def channel_free_def by (rule holds_intros | simp)+

lemma mon_atomic_dec_lock:
  "L_lower_file i \<notin> H \<Longrightarrow>
     mon lock_step H (atomic_dec_and_mutex_lock i) (\<lambda>b. if b then insert (L_lower_file i) H else H)"
  unfolding atomic_dec_and_mutex_lock_def
  apply (rule mon_bind [OF mon_load])
  apply (rule mon_if)
   apply (rule mon_bind [OF mon_emit], simp)
   apply (rule mon_bind [OF mon_store])
   apply (rule mon_ret_at, simp)
  apply (rule mon_bind [OF mon_store])
  apply (rule mon_ret_at, simp)
  done

lemma holds_filemap [holds_intros]: "holds H (filemap_write_and_wait K f) H"
  unfolding filemap_write_and_wait_def by (rule holds_intros | simp)+

lemma channel_free_insert [simp]:
  "channel_free (insert (L_lower_file i) H) = channel_free H"
  "channel_free (insert (L_i_mutex i) H) = channel_free H"
  "channel_free {}"
  by (auto simp: channel_free_def)

lemma channel_free_global [simp]: "channel_free H \<Longrightarrow> L_global \<notin> H"
  by (simp add: channel_free_def)

lemma holds_dec_bind:
  assumes "L_lower_file i \<notin> H" "holds (insert (L_lower_file i) H) (f True) H'" "holds H (f False) H'"
  shows "holds H (atomic_dec_and_mutex_lock i \<bind> f) H'"
  by (rule mon_bind_at [OF mon_atomic_dec_lock [OF assms(1)]]) (use assms(2,3) in \<open>simp split: if_split\<close>)

lemma holds_put_lower_file [holds_intros]: "holds {} (teadfs_put_lower_file K i f) {}"
  unfolding teadfs_put_lower_file_def by (rule holds_dec_bind holds_intros | simp)+

lemma holds_lower_io [holds_intros]:
  "channel_free H \<Longrightarrow> holds H (teadfs_read_lower K data off n f) H"
  "channel_free H \<Longrightarrow> holds H (teadfs_write_lower K f data off) H"
  unfolding teadfs_read_lower_def teadfs_write_lower_def write_payload_def
  by (rule holds_intros | simp)+

lemma holds_pages [holds_intros]:
  "holds H (set_page p u) H"
  "holds H (page_call K c) H"
  "holds H (page_bytes p a n) H"
  "channel_free H \<Longrightarrow> holds H (fill_page K f p off) H"
  unfolding set_page_def page_call_def page_bytes_def fill_page_def by (rule holds_intros | simp)+

lemma holds_write [holds_intros]: "holds {} (teadfs_write K d i data off) {}"
  unfolding teadfs_write_def by (rule holds_intros | simp)+

lemma holds_truncate_loop [holds_intros]:
  "holds {} (truncate_loop K d i b new_size total_size pos rc) {}"
proof (induction K d i b new_size total_size pos rc rule: truncate_loop.induct)
  case (1 K d i b new_size total_size pos rc)
  show ?case
    by (subst truncate_loop.simps) (rule 1 holds_intros | simp)+
qed

lemma holds_truncate [holds_intros]:
  "holds {} (truncate_upper K d ia lia) {}"
  "holds {} (teadfs_truncate K d n) {}"
  unfolding truncate_upper_def teadfs_truncate_def by (rule holds_intros | simp)+

lemma holds_mapping [holds_intros]:
  "holds H (teadfs_replace_copy_address_space K i m) H"
  unfolding teadfs_replace_copy_address_space_def read_mapping_def
  by (cases m; simp; (rule holds_intros | simp)+)

section \<open>Inode and directory operations\<close>

lemma holds_lock_parent_bind:
  assumes "\<And>p. L_i_mutex p \<notin> H" "\<And>dir. holds (insert (L_i_mutex dir) H) (f dir) H'"
  shows "holds H (lock_parent K d \<bind> f) H'"
proof (rule mon_bind_at)
  show "mon lock_step H (lock_parent K d) (\<lambda>dir. insert (L_i_mutex dir) H)"
    unfolding lock_parent_def
    by (rule mon_bind [OF mon_call_rv], simp, rule mon_bind [OF mon_emit], simp add: assms(1), rule mon_ret_at, simp)
qed (rule assms(2))

lemma holds_inode_helpers [holds_intros]:
  "holds H (d_inode K d) H"
  "holds H (ref K rc) H"
  "holds H (attr K ac) H"
  "holds H (dcache K dc) H"
  "holds H (stack_bytes K n) H"
  unfolding d_inode_def ref_def attr_def dcache_def stack_bytes_def by (rule holds_intros | simp)+

lemma holds_dir_helpers [holds_intros]:
  "L_i_mutex dir \<in> H \<Longrightarrow> holds H (unlock_dir K dir) (H - {L_i_mutex dir})"
  "holds H (copy_dir_attrs K a b) H"
  "holds H (d_drop_negative K d) H"
  "holds H (generic_fillattr K i stat) H"
  unfolding unlock_dir_def copy_dir_attrs_def d_drop_negative_def generic_fillattr_def
  by (rule holds_intros | simp)+

lemma holds_new_inode [holds_intros]:
  "holds H (teadfs_alloc_inode K) H"
  "holds H (teadfs_inode_set K i l) H"
  unfolding teadfs_alloc_inode_def teadfs_inode_set_def by (rule holds_intros | simp)+

lemma holds_get_inode [holds_intros]:
  "holds H (iget5_locked K sb l) H"
  "holds H (teadfs_get_inode_locked K l sb) H"
  "holds H (teadfs_get_inode K l sb) H"
  "holds H (teadfs_interpose K ld d sb) H"
  unfolding iget5_locked_def teadfs_inode_test_def teadfs_get_inode_locked_def teadfs_get_inode_def
    teadfs_interpose_def
  by (rule holds_intros | simp)+

lemma holds_lookup_interpose [holds_intros]:
  "(\<And>p. L_dentry_info p \<notin> H) \<Longrightarrow> holds H (teadfs_lookup_interpose K d ld di) H"
  unfolding teadfs_lookup_interpose_def by (rule holds_intros | simp)+

lemma holds_xattr [holds_intros]: "holds {} (xattr_method K d sl c) {}"
  unfolding xattr_method_def by (rule holds_intros | simp)+

lemma holds_readlink_lower [holds_intros]: "holds {} (teadfs_readlink_lower K d) {}"
  unfolding teadfs_readlink_lower_def by (rule holds_intros | simp)+

lemma holds_create:
  assumes "\<And>d w. \<not> IS_ERR (rv (fst (K (K_ref (K_dget_parent d)) w)))"
  shows "holds {} (teadfs_create K dir d mode ex) {}"
proof -
  have parent: "mon lock_step {} (lock_parent K d) (\<lambda>dir. {L_i_mutex dir})" for d
    unfolding lock_parent_def
    by (rule mon_bind [OF mon_call_rv], simp, rule mon_bind [OF mon_emit], simp, rule mon_ret_at, simp)
  have no_err: "wp (lock_parent K d) (\<lambda>dir _. \<not> IS_ERR dir) s" for d s
    unfolding lock_parent_def call_rv_def by (simp add: wp_simps wp_call assms)
  show ?thesis
    unfolding teadfs_create_def
    by (rule mon_bind_at_val [OF parent no_err] holds_intros | simp)+
qed

lemma holds_dir_ops:
  "holds {} (teadfs_link K od dir nd) {}"
  "holds {} (teadfs_unlink K dir d) {}"
  "holds {} (teadfs_symlink K dir d name) {}"
  "holds {} (teadfs_mkdir K dir d mode) {}"
  "holds {} (teadfs_rmdir K dir d) {}"
  "holds {} (teadfs_mknod K dir d mode dev) {}"
  unfolding teadfs_link_def teadfs_unlink_def teadfs_symlink_def teadfs_mkdir_def teadfs_rmdir_def
    teadfs_mknod_def
  by (rule holds_lock_parent_bind holds_intros | simp)+

lemma holds_attr_ops:
  "holds {} (teadfs_setattr K d ia) {}"
  "holds {} (teadfs_getattr K d stat) {}"
  "holds {} (teadfs_setxattr K d nm val fl) {}"
  "holds {} (teadfs_getxattr K d nm n) {}"
  "holds {} (teadfs_listxattr K d n) {}"
  "holds {} (teadfs_removexattr K d nm) {}"
  "holds {} (teadfs_follow_link K d ndt) {}"
  unfolding teadfs_setattr_def teadfs_getattr_def teadfs_setxattr_def teadfs_getxattr_def
    teadfs_listxattr_def teadfs_removexattr_def teadfs_follow_link_def
  by (rule holds_intros | simp)+

lemma holds_lookup_ops:
  "holds {} (teadfs_lookup K di d) {}"
  "holds {} (teadfs_statfs K d ty) {}"
  "holds {} (teadfs_d_revalidate K d fl) {}"
  "holds {} (teadfs_d_release K d) {}"
  unfolding teadfs_lookup_def teadfs_statfs_def teadfs_d_revalidate_def teadfs_d_release_def
  by (rule holds_intros | simp)+

section \<open>Properties\<close>

text \<open>
  C35: when \<open>lock_rename\<close> reports that the entry to be renamed is an ancestor of
  the target, the rename fails with \<open>-EINVAL\<close> and returns with the rename locks of both parent
  directories still held: no later operation on them can proceed.
\<close>

theorem rename_leaves_locks:
  assumes "path_of s d = Some (ld, m)" "path_of s d' = Some (ld', m')"
    and "\<And>a b w. rv (fst (K (K_dcache (K_lock_rename a b)) w)) = ld"
    and "run_state (teadfs_rename K od d nd d') s = (rc, t)"
  shows "rc = - EINVAL \<and> (\<exists>a b. mon_run lock_step {} (new_calls s t) = Some {L_rename a b})"
proof -
  have "wp (teadfs_rename K od d nd d')
      (\<lambda>rc t. rc = - EINVAL \<and> (\<exists>a b. mon_run lock_step {} (new_calls s t) = Some {L_rename a b})) s"
    using assms(1,2)
    unfolding teadfs_rename_def ref_def d_inode_def call_rv_def
    by (simp add: wp_simps wp_call assms(3) path_of_def new_calls_def)
  then show ?thesis by (rule wp_run [OF _ assms(4)])
qed

text \<open>Two dentries, \<open>20\<close> over the lower dentry \<open>1\<close> and \<open>21\<close> over \<open>8\<close>.\<close>

definition dentry_st :: "unit st" where
  "dentry_st = (boot_st ())\<lparr>heap := [1 \<mapsto> B_dentry \<lparr>lower_path_dentry = 1, lower_path_mnt = 3\<rparr>,
       2 \<mapsto> B_dentry \<lparr>lower_path_dentry = 8, lower_path_mnt = 3\<rparr>], brk := 3,
     d_fsdata := (\<lambda>_. 0)(20 := 1, 21 := 2)\<rparr>"

theorem rename_leaves_locks_witness:
  "fst (run_state (teadfs_rename calm_kernel 30 20 31 21) dentry_st) = - EINVAL \<and>
   (\<exists>a b. mon_run lock_step {} (new_calls dentry_st
      (snd (run_state (teadfs_rename calm_kernel 30 20 31 21) dentry_st))) = Some {L_rename a b})"
  using rename_leaves_locks [of dentry_st 20 1 3 21 8 3 calm_kernel 30 31
      "fst (run_state (teadfs_rename calm_kernel 30 20 31 21) dentry_st)"
      "snd (run_state (teadfs_rename calm_kernel 30 20 31 21) dentry_st)"]
  by (simp add: dentry_st_def path_of_def IS_ERR_def calm_kernel_def)

end
