(* ===== verification/Vfs_Refs.thy ===== *)
theory Vfs_Refs
  imports Stack_Monitors Vfs_Locks "HOL-Library.Multiset"
begin

text \<open>
  Reference counts of the operations the VFS calls (\<open>inode.c\<close>, \<open>lookup.c\<close>): every reference to a
  dentry that a directory operation takes is dropped again on every path, and a reference to a
  lower inode is kept exactly for a newly created upper inode.
\<close>

section \<open>References to dentries\<close>

text \<open>
  The monitor of dentry references: the multiset of those that were taken. Dropping one that was
  not taken is rejected.
\<close>

fun dref_step :: "ptr multiset monitor" where
  "dref_step H (K_ref (K_dget p), r) = Some (add_mset p H)"
| "dref_step H (K_ref (K_dget_parent p), r) = Some (add_mset r H)"
| "dref_step H (K_ref (K_dput p), r) = (if p \<in># H then Some (H - {#p#}) else None)"
| "dref_step H _ = Some H"

interpretation dr: upper_monitor dref_step
  by unfold_locales simp_all

text \<open>References to inodes; \<open>igrab\<close> of an inode that is being freed takes none.\<close>

fun iref_step :: "ptr multiset monitor" where
  "iref_step H (K_ref (K_igrab p), r) = Some (if r = 0 then H else add_mset p H)"
| "iref_step H (K_ref (K_iput p), r) = (if p \<in># H then Some (H - {#p#}) else None)"
| "iref_step H _ = Some H"

interpretation ir: inode_monitor iref_step
  by unfold_locales simp_all

lemma drefs_parent_bind:
  assumes "\<And>dir. mon dref_step (add_mset dir H) (f dir) G"
  shows "mon dref_step H (call_rv K (K_ref (K_dget_parent d)) \<bind> f) G"
  by (rule mon_bind_at [OF mon_call_rv_at [where G = "\<lambda>r. add_mset r H"]]) (simp_all add: assms)

lemma mon_lock_parent:
  "mon dref_step H (lock_parent K d) (\<lambda>dir. add_mset dir H)"
  unfolding lock_parent_def
  by (rule drefs_parent_bind, rule mon_bind [OF mon_emit], simp, rule mon_ret_at, simp)

lemma drefs_lock_parent_bind:
  assumes "\<And>dir. mon dref_step (add_mset dir H) (f dir) G"
  shows "mon dref_step H (lock_parent K d \<bind> f) G"
  by (rule mon_bind_at [OF mon_lock_parent assms])

lemma mon_ref: "(\<And>r. dref_step H (K_ref c, r) = Some H') \<Longrightarrow> mon dref_step H (ref K c) (\<lambda>_. H')"
  unfolding ref_def by (rule mon_intros | simp)+

lemma drefs_unlock_dir [mon_intros]: "dir \<in># H \<Longrightarrow> mon dref_step H (unlock_dir K dir) (\<lambda>_. H - {#dir#})"
  unfolding unlock_dir_def by (rule mon_ref mon_intros | simp)+

section \<open>Properties\<close>

text \<open>
  C36: linking, unlinking, making and removing directories, symbolic links and
  device nodes and renaming drop every dentry reference they take, exactly once and on every
  path, for every result the lower file system may return.
\<close>

theorem dentry_refs_balanced:
  "mon dref_step H (teadfs_link K od dir nd) (\<lambda>_. H) \<and>
   mon dref_step H (teadfs_unlink K dir d) (\<lambda>_. H) \<and>
   mon dref_step H (teadfs_symlink K dir d name) (\<lambda>_. H) \<and>
   mon dref_step H (teadfs_mkdir K dir d mode) (\<lambda>_. H) \<and>
   mon dref_step H (teadfs_rmdir K dir d) (\<lambda>_. H) \<and>
   mon dref_step H (teadfs_mknod K dir d mode dev) (\<lambda>_. H) \<and>
   mon dref_step H (teadfs_rename K odir od' ndir nd') (\<lambda>_. H)"
  unfolding teadfs_link_def teadfs_unlink_def teadfs_symlink_def teadfs_mkdir_def teadfs_rmdir_def
    teadfs_mknod_def teadfs_rename_def
  by (intro conjI; (rule drefs_lock_parent_bind drefs_parent_bind mon_ref mon_intros | simp)+)

text \<open>
  Looking up the upper inode of a lower one keeps a reference to the lower inode
  exactly if a new upper inode was set up for it; with an error, or with an upper inode that
  existed before, no reference is kept.
\<close>

theorem inode_ref_kept:
  "mon iref_step H (teadfs_get_inode_locked K l sb) (\<lambda>r. if snd r then add_mset l H else H)"
proof -
  have got: "mon iref_step H (call_rv K (K_ref (K_igrab l))) (\<lambda>r. if r = 0 then H else add_mset l H)"
    by (rule mon_call_rv_at) simp
  have rest: "mon iref_step (add_mset l H) (do {
         (inode, new) \<leftarrow> iget5_locked K sb l;
         if inode = 0 then do { call K (K_ref (K_iput l)); ret (- EACCES, False) }
         else if \<not> new then do { call K (K_ref (K_iput l)); ret (inode, new) }
         else ret (inode, new) }) (\<lambda>r. if snd r then add_mset l H else H)"
    by (rule ir.mon_iget mon_bind mon_prod mon_if mon_call mon_ret_at | simp)+
  show ?thesis
    unfolding teadfs_get_inode_locked_def
    apply (rule mon_bind [OF mon_call_rv], simp)
    apply (rule mon_bind [OF ir.mon_lower_paths(6)])
    apply (rule mon_if)
     apply (rule mon_ret_at, simp)
    apply (rule mon_bind_at [OF got])
    apply (rule mon_if)
     apply (rule mon_ret_at, simp)
    apply (simp add: rest)
    done
qed

end
