(* ===== verification/File_Props.thy ===== *)
theory File_Props
  imports End_To_End Vfs_Refs
begin

text \<open>
  Opening a file (\<open>file.c\<close>). The locale \<open>open_env\<close> extends the interface of the
  data path by path names, by opening lower files and by the client's decision on an open; inside
  it, the exact outcome of \<open>teadfs_open\<close>, and its instance with the example application as client.
\<close>

section \<open>The interface\<close>

locale open_env = lower_store K reply content enc dec
  for K :: "'w kernel" and reply :: "bytes \<Rightarrow> bytes" and content :: "'w \<Rightarrow> ptr \<Rightarrow> bytes"
    and enc :: "int \<Rightarrow> bytes \<Rightarrow> bytes" and dec :: "int \<Rightarrow> bytes \<Rightarrow> bytes" +
  fixes name :: "'w \<Rightarrow> ptr \<Rightarrow> bytes"
    and decide :: "int \<Rightarrow> bytes \<Rightarrow> int"
    and lower_of :: "ptr \<Rightarrow> ptr"
  assumes path_ok: "\<not> IS_ERR (rv (fst (K (K_io (K_d_path d m n)) w)))"
    and path_data: "rdata (fst (K (K_io (K_d_path d m n)) w)) = name w d"
    and path_keeps: "content (snd (K (K_io (K_d_path d m n)) w)) = content w"
    and open_rv: "rv (fst (K (K_io (K_dentry_open d m fl)) w)) = lower_of d"
    and open_keeps: "content (snd (K (K_io (K_dentry_open d m fl)) w)) = content w"
    and name_load: "name (snd (K (K_load fld q) w)) = name w"
    and name_mem: "name (snd (K (K_mem c) w)) = name w"
    and client_open: "sizeof_packet + length path \<le> MAX_MSG_SIZE \<Longrightarrow>
      p = path_packet PR_MSG_OPEN mid pid fid path \<Longrightarrow>
      fits p (reply p) \<and> dec_int (get_at O_error_code 4 (reply p)) = decide pid path"

lemma id_free_cong:
  assumes "id_free s mid" "heap_ok t" "msg_ctx_queue t = msg_ctx_queue s"
    "\<And>c x. heap s c = Some (B_ctx x) \<Longrightarrow> heap t c = heap s c"
  shows "id_free t mid"
  using assms unfolding id_free_def by metis

lemma path_of_cong:
  "path_of s d = Some p \<Longrightarrow> d_fsdata t = d_fsdata s \<Longrightarrow>
     (\<And>c x. heap s c = Some (B_dentry x) \<Longrightarrow> heap t c = heap s c) \<Longrightarrow> path_of t d = Some p"
  unfolding path_of_def by (cases "heap s (d_fsdata s d)") (auto split: option.splits block.splits elim!: dentry_of.elims)

text \<open>The outcome of asking the client about an open: its code, and the path kept in the file's structure.\<close>

definition asked_for :: "('w \<Rightarrow> ptr \<Rightarrow> bytes) \<Rightarrow> 'w st \<Rightarrow> ptr \<Rightarrow> teadfs_file_info \<Rightarrow> bytes \<Rightarrow> 'w st \<Rightarrow> bool" where
  "asked_for content s fi x path t \<longleftrightarrow> quiet_for content (s\<lparr>unique_id := next_id (unique_id s)\<rparr>) t \<and> brk t = brk s + 4 \<and>
     heap t = (heap s)(fi \<mapsto> B_file (x\<lparr>file_path_buf := brk s, file_path := brk s,
       file_path_length := int (length path)\<rparr>), brk s \<mapsto> B_raw path)"

text \<open>
  The outcome of an open for which the client's code is \<open>code\<close>: refused, with the file's
  structure taken away again, or open on the lower file with that access mode; the inode counts one more lower file
  and the file reads through the decrypt mapping exactly in decrypt mode.
\<close>

definition open_result ::
  "('w \<Rightarrow> ptr \<Rightarrow> bytes) \<Rightarrow> 'w st \<Rightarrow> ptr \<Rightarrow> ptr \<Rightarrow> ptr \<Rightarrow> int \<Rightarrow> teadfs_inode_info \<Rightarrow> int \<Rightarrow> 'w st \<Rightarrow> bool"
where
  "open_result content s inode file lf code y rc t \<longleftrightarrow>
     faults t = faults s \<and> content (world t) = content (world s) \<and>
     (if code = OFR_PROHIBIT
      then rc = - EACCES \<and> private_data t file = 0 \<and> heap t inode = Some (B_inode (y\<lparr>file_decrypt := 0\<rparr>))
      else rc = 0 \<and> open_on t file lf code \<and>
        f_mapping t file = (if code = OFR_DECRYPT then M_decrypt inode else f_mapping s file) \<and>
        (\<exists>z. heap t inode = Some (B_inode z) \<and> lower_file_count z = lower_file_count y + 1 \<and> file_decrypt z = 0))"

context open_env
begin

lemma wp_zalloc_ok_name:
  assumes "\<And>t. quiet s t \<Longrightarrow> name (world t) = name (world s) \<Longrightarrow> heap t = (heap s)(brk s \<mapsto> blk) \<Longrightarrow>
    brk t = brk s + 1 \<Longrightarrow> Q (brk s) t"
  shows "wp (teadfs_zalloc K n blk) Q s"
  unfolding teadfs_zalloc_def call_rv_def
  by (simp add: wp_simps wp_call zalloc_ok) (rule assms, simp_all add: quiet_def frame_def obs_mem name_mem)

lemma wp_load_field:
  assumes "\<And>t. quiet s t \<Longrightarrow> name (world t) = name (world s) \<Longrightarrow> heap t = heap s \<Longrightarrow> brk t = brk s \<Longrightarrow>
    Q (rv (fst (K (K_load fld q) (world s)))) t"
  shows "wp (call_rv K (K_load fld q)) Q s"
  unfolding call_rv_def
  by (simp add: wp_simps wp_call) (rule assms, simp_all add: quiet_def frame_def load_keeps name_load)

lemma request_open_file_ok:
  assumes s: "heap s fi = Some (B_file x)" "can_request s"
    and d: "\<And>w. rv (fst (K (K_load F_f_dentry file) w)) = d" "path = name (world s) d"
      "sizeof_packet + length path \<le> MAX_MSG_SIZE"
    and got: "\<And>t. asked_for content s fi x path t \<Longrightarrow>
      Q (if decide (cur_pid s) path < 0 then OFR_INIT else decide (cur_pid s) path) t"
  shows "wp (teadfs_request_open_file K file fi) Q s"
proof -
  have ok: "heap_ok s" using s(2) by (simp add: can_request_def id_free_def)
  have fi: "fi \<noteq> brk s" "brk s \<noteq> fi" "fi \<noteq> 0" "brk s \<noteq> 0" "fi < brk s"
    using heap_ok_neq_brk [OF ok s(1)] ok s(1) by (auto simp: heap_ok_def)
  let ?h = "(heap s)(fi \<mapsto> B_file (x\<lparr>file_path_buf := brk s, file_path := brk s,
       file_path_length := int (length path)\<rparr>), brk s \<mapsto> B_raw path)"
  have req: "wp (teadfs_request_open K path file) (\<lambda>rc. Q (if rc < 0 then OFR_INIT else rc)) u"
    if u: "quiet s u" "brk u = brk s + 1" "heap u = ?h" for u
  proof -
    have g: "unique_id u = unique_id s" "cur_pid u = cur_pid s" "client_pid u = client_pid s"
      "client_connect u = client_connect s" "msg_ctx_queue u = msg_ctx_queue s"
      using u(1) by (simp_all add: quiet_def frame_def)
    have hu: "heap_ok u"
      by (rule heap_ok_extend [OF ok _ u(3,2)]) (simp add: s(1))
    have free: "id_free u (next_id (unique_id u))"
    proof (rule id_free_cong)
      show "id_free s (next_id (unique_id u))" using s(2) g(1) by (simp add: can_request_def)
      show "heap u c = heap s c" if "heap s c = Some (B_ctx y)" for c y
        using that s(1) u(3) heap_ok_neq_brk [OF ok that] by auto
    qed (use hu g in simp_all)
    let ?p = "path_packet PR_MSG_OPEN (next_id (unique_id u)) (cur_pid u) file path"
    have c: "fits ?p (reply ?p)" "dec_int (get_at O_error_code 4 (reply ?p)) = decide (cur_pid u) path"
      using client_open [OF d(3)] by blast+
    show ?thesis
    proof (rule wp_request_open_ok [OF free _ _ _ c(1)])
      show "cur_pid u \<noteq> client_pid u" "client_connect u \<noteq> 0" "sizeof_packet + length path < 2 ^ 16"
        using s(2) g d(3) by (simp_all add: can_request_def MAX_MSG_SIZE_def)
      fix t assume t: "quiet (u\<lparr>unique_id := next_id (unique_id u)\<rparr>) t" "brk t = brk u + 3" "heap t = heap u"
      have "asked_for content s fi x path t"
        using t u g by (simp add: asked_for_def quiet_def frame_def)
      then show "Q (if dec_int (get_at O_error_code 4 (reply ?p)) < 0 then OFR_INIT
          else dec_int (get_at O_error_code 4 (reply ?p))) t"
        unfolding c(2) unfolding g(2) by (rule got)
    qed
  qed
  show ?thesis
    unfolding teadfs_request_open_file_def path_string_def wp_bind
    apply (rule wp_zalloc_ok_name)
    apply (simp add: wp_simps s(1) fi)
    apply (rule wp_load_field)
    apply (rule wp_load_field)
    apply (simp add: wp_simps wp_call path_ok path_data d s(1) fi)
    apply (rule wp_mono [OF req [unfolded d(2)]])
       apply (simp_all add: quiet_def frame_def path_keeps fun_upd_twist [OF fi(1)] wp_ret split: if_splits)
    done
qed

lemma get_lower_file_ok:
  assumes s: "path_of s d = Some (ld, lm)" "heap s inode = Some (B_inode y)" "inode \<noteq> 0" "0 \<le> lower_file_count y"
      "cur_pid s \<noteq> 0" "cur_pid s \<noteq> client_pid s" "\<not> IS_ERR (lower_of ld)"
    and got: "\<And>t. quiet s t \<Longrightarrow> brk t = brk s \<Longrightarrow>
      heap t = (heap s)(inode \<mapsto> B_inode (y\<lparr>lower_file_count := lower_file_count y + 1\<rparr>)) \<Longrightarrow>
      Q (lower_of ld) t"
  shows "wp (teadfs_get_lower_file K d inode fl) Q s"
proof -
  have p: "path_of t d = Some (ld, lm)" if "d_fsdata t = d_fsdata s" "heap t = (heap s)(inode \<mapsto> B_inode z)" for t z
    by (rule path_of_cong [OF s(1) that(1)]) (use that(2) s(2) in auto)
  show ?thesis
    unfolding teadfs_get_lower_file_def call_rv_def
    using s
    apply (simp add: wp_simps wp_call open_rv p)
    apply (rule got)
      apply (simp_all add: quiet_def frame_def open_keeps)
    done
qed

lemma replace_mapping_ok:
  assumes "heap s inode = Some (B_inode y)"
    and "\<And>t z. quiet s t \<Longrightarrow> brk t = brk s \<Longrightarrow> heap t = (heap s)(inode \<mapsto> B_inode (y\<lparr>i_decrypt := z\<rparr>)) \<Longrightarrow> Q () t"
  shows "wp (teadfs_replace_copy_address_space K inode (M_data p)) Q s"
  unfolding teadfs_replace_copy_address_space_def read_mapping_def
  apply (simp add: wp_bind)
  apply (rule wp_load_field)+
  apply (simp add: wp_simps assms(1))
  apply (rule assms(2))
    apply (simp_all add: quiet_def frame_def)
  done

text \<open>
  The structures of a file that is being opened: \<open>x\<close> when it has been set up, \<open>fi\<close> when the path
  is known, and the heap in between.
\<close>

lemma open_ask_ok:
  fixes s :: "'w st"
  defines "x \<equiv> \<lparr>lower_file = 0, access = OFR_INIT, file_path = 0, file_path_length = 0, file_path_buf = 0\<rparr>"
  assumes s: "heap s inode = Some (B_inode y)" "can_request s"
    and d: "\<And>w. rv (fst (K (K_load F_f_dentry file) w)) = d" "path = name (world s) d"
      "sizeof_packet + length path \<le> MAX_MSG_SIZE"
    and code: "code = (if decide (cur_pid s) path < 0 then OFR_INIT else decide (cur_pid s) path)"
    and v: "quiet (s\<lparr>private_data := (private_data s)(file := brk s)\<rparr>) v" "name (world v) = name (world s)"
      "heap v = (heap s)(brk s \<mapsto> B_file x, inode \<mapsto> B_inode y')" "brk v = brk s + 1"
    and R: "\<And>u. quiet (s\<lparr>private_data := (private_data s)(file := brk s), unique_id := next_id (unique_id s)\<rparr>) u \<Longrightarrow>
      heap u = (heap s)(inode \<mapsto> B_inode y', brk s \<mapsto> B_file (x\<lparr>file_path_buf := brk s + 1, file_path := brk s + 1,
        file_path_length := int (length path)\<rparr>), brk s + 1 \<mapsto> B_raw path) \<Longrightarrow> R code u"
  shows "wp (teadfs_request_open_file K file (brk s)) R v"
proof -
  have ok: "heap_ok s" using s(2) by (simp add: can_request_def id_free_def)
  have n: "inode \<noteq> brk s" "brk s \<noteq> inode" using heap_ok_neq_brk [OF ok s(1)] by auto
  have g: "unique_id v = unique_id s" "cur_pid v = cur_pid s" "client_pid v = client_pid s"
    "client_connect v = client_connect s" "msg_ctx_queue v = msg_ctx_queue s"
    using v(1) by (simp_all add: quiet_def frame_def)
  have hv: "heap_ok v"
    by (rule heap_ok_extend [OF ok, of inode v "B_inode y'" "B_file x"]) (use s(1) v(3,4) n in \<open>simp_all add: fun_upd_twist\<close>)
  have "id_free v (next_id (unique_id s))"
  proof (rule id_free_cong [OF _ hv g(5)])
    show "id_free s (next_id (unique_id s))" using s(2) by (simp add: can_request_def)
    show "heap v c = heap s c" if "heap s c = Some (B_ctx z)" for c z
      using that s(1) v(3) heap_ok_neq_brk [OF ok that] by auto
  qed
  then have req: "can_request v" using s(2) g by (simp add: can_request_def)
  have x: "heap v (brk s) = Some (B_file x)" using v(3) n by simp
  show ?thesis
  proof (rule request_open_file_ok [OF x req d(1), of path])
    fix u assume "asked_for content v (brk s) x path u"
    then have "quiet (s\<lparr>private_data := (private_data s)(file := brk s), unique_id := next_id (unique_id s)\<rparr>) u"
      "heap u = (heap s)(inode \<mapsto> B_inode y', brk s \<mapsto> B_file (x\<lparr>file_path_buf := brk s + 1, file_path := brk s + 1,
        file_path_length := int (length path)\<rparr>), brk s + 1 \<mapsto> B_raw path)"
      using v g n by (simp_all add: asked_for_def quiet_def frame_def fun_upd_twist)
    then show "R (if decide (cur_pid v) path < 0 then OFR_INIT else decide (cur_pid v) path) u"
      unfolding g(2) code [symmetric] by (rule R)
  qed (use d v(2) in simp_all)
qed

text \<open>The last steps of an open that the client allows.\<close>

lemma open_accept_ok:
  assumes s: "f_mapping s file = M_data p" "private_data u file = b" "inode \<noteq> b"
    and l: "lf \<noteq> 0" "\<not> IS_ERR lf" "code \<noteq> OFR_PROHIBIT"
    and u: "faults u = faults s" "f_mapping u = f_mapping s" "content (world u) = content (world s)"
      "heap u b = Some (B_file x)" "heap u inode = Some (B_inode z)"
      "lower_file_count z = lower_file_count y + 1" "file_decrypt z = 0"
  shows "wp (do {
       store file_of B_file (lower_file_update (\<lambda>_. lf)) b;
       if IS_ERR lf then ret lf
       else do {
         store file_of B_file (access_update (\<lambda>_. code)) b;
         (if OFR_DECRYPT = code then do {
            m \<leftarrow> gets (\<lambda>s. f_mapping s file);
            teadfs_replace_copy_address_space K inode m;
            modify (\<lambda>s. s\<lparr>f_mapping := (f_mapping s)(file := M_decrypt inode)\<rparr>)
          }
          else ret ());
         ret 0
       } }) (\<lambda>a. wp (if a \<noteq> 0 then do { p \<leftarrow> teadfs_file_to_private file; teadfs_free p; teadfs_set_file_private file 0 }
      else ret ()) (\<lambda>_. open_result content s inode file lf code y a)) u"
  using assms
  apply (simp add: wp_simps split del: if_split)
  apply (cases "OFR_DECRYPT = code")
   apply (simp add: wp_bind wp_State)
   apply (rule replace_mapping_ok [where y = z])
    apply simp
   apply (auto simp: wp_simps open_result_def open_on_def quiet_def frame_def)
  done

lemma open_ok:
  assumes s: "path_of s d = Some (ld, lm)" "heap s inode = Some (B_inode y)" "0 \<le> lower_file_count y"
      "can_request s" "cur_pid s \<noteq> 0" "heap s file = None" "f_mapping s file = M_data p"
    and d: "\<And>w. rv (fst (K (K_load F_f_dentry file) w)) = d" "path = name (world s) d"
      "sizeof_packet + length path \<le> MAX_MSG_SIZE" "\<And>w. S_ISREG (rv (fst (K (K_load F_i_mode inode) w)))"
    and l: "lower_of ld \<noteq> 0" "\<not> IS_ERR (lower_of ld)"
    and code: "code = (if decide (cur_pid s) path < 0 then OFR_INIT else decide (cur_pid s) path)"
  shows "wp (teadfs_open K inode file) (open_result content s inode file (lower_of ld) code y) s"
proof -
  have ok: "heap_ok s" using s(4) by (simp add: can_request_def id_free_def)
  have n: "brk s \<noteq> 0" "inode \<noteq> brk s" "brk s \<noteq> inode" "inode \<noteq> 0" "inode \<noteq> brk s + 1"
    using heap_ok_neq_brk [OF ok s(2)] ok s(2) unfolding heap_ok_def by fastforce+
  have inm: "\<not> OFR_INIT = OFR_DECRYPT" "\<not> OFR_ENCRYPT = OFR_INIT" "\<not> OFR_DECRYPT = OFR_INIT"
    by (simp_all add: ofr_defs)
  have pv: "path_of v d = Some (ld, lm)"
    if "d_fsdata v = d_fsdata s" "heap v = (heap s)(inode \<mapsto> B_inode a, brk s \<mapsto> b, brk s + 1 \<mapsto> c)" for v a b c
  proof (rule path_of_cong [OF s(1) that(1)])
    fix q x assume q: "heap s q = Some (B_dentry x)"
    then have "q \<noteq> inode" "q \<noteq> brk s" "q \<noteq> brk s + 1"
      using s(2) heap_ok_neq_brk [OF ok q] heap_ok_above [OF ok, of "brk s + 1"] by auto
    then show "heap v q = heap s q" using that(2) by simp
  qed
  show ?thesis
    unfolding teadfs_open_def wp_bind f_dentry_def
    apply (simp add: wp_simps s(6) inm split del: if_split)
    apply (rule wp_load_field)
    apply (rule wp_zalloc_ok_name)
    apply (simp add: wp_simps teadfs_set_file_private_def n s(2) inm split del: if_split)
    apply (rule wp_load_field)
    apply (simp add: d(4) wp_bind split del: if_split)
    apply (rule open_ask_ok [OF s(2,4) d(1-3) code])
        apply (simp_all add: quiet_def frame_def) [4]
    subgoal premises prems for t ta tb u
    proof (cases "OFR_PROHIBIT = code")
      case True
      show ?thesis
        unfolding if_P [OF True] using prems(13,14) True
        by (simp add: wp_simps teadfs_file_to_private_def teadfs_set_file_private_def quiet_def frame_def n
            open_result_def EACCES_def)
    next
      case False
      show ?thesis
        unfolding if_not_P [OF False] prems(4) d(1) Let_def
        apply (subst wp_bind)
        apply (rule wp_load_field)
        apply (subst wp_bind)
        apply (rule get_lower_file_ok [of _ d ld lm inode "y\<lparr>file_decrypt := 0\<rparr>"])
               apply (rule pv; use prems(13) in \<open>simp add: quiet_def frame_def prems(14)\<close>)
              apply (simp add: prems(14) n)
             apply (simp_all add: n s(3) l) [2]
           apply (use prems(13) s(4,5) in \<open>simp_all add: quiet_def frame_def can_request_def\<close>) [2]
         apply (rule l(2))
        apply (rule open_accept_ok [where z = "y\<lparr>file_decrypt := 0, lower_file_count := lower_file_count y + 1\<rparr>"])
                   apply (use prems(13) False s(7) l n in \<open>simp_all add: quiet_def frame_def prems(14)\<close>)
        done
    qed
    done
qed

end

section \<open>The example application decides\<close>

lemma path_packet_run:
  assumes "length path < 2 ^ 32"
  shows "packet_run (path_packet ty mid pid fid path @ z) O_open_path_size O_open_path_offset = path"
proof -
  have "unat (of_nat (length path) :: u32) = length path" "unat (of_nat sizeof_packet :: u32) = sizeof_packet"
    using assms by (simp_all add: unat_of_nat layout_defs)
  moreover have "get_at O_open_path_size 4 (path_packet ty mid pid fid path @ z) = enc_u32 (of_nat (length path))"
    "get_at O_open_path_offset 4 (path_packet ty mid pid fid path @ z) = enc_u32 (of_nat sizeof_packet)"
    "get_at sizeof_packet (length path) (path_packet ty mid pid fid path @ z) = path"
    by (subst get_at_append; simp add: path_packet_fields layout_defs [symmetric]; simp add: layout_defs)+
  ultimately show ?thesis by (simp add: packet_run_def)
qed

lemma deal_open:
  assumes "sizeof_packet + length path \<le> MAX_MSG_SIZE" "p = path_packet PR_MSG_OPEN mid pid fid path"
    "cb_open (callbacks cl) = Some f"
  shows "client_reply cl p = code_response (p @ buffer_tail cl)
    (f (dec_u64 (get_at O_open_file_id 8 (p @ buffer_tail cl))) (word_of_int pid) (c_string path))"
proof -
  have l: "length p = sizeof_packet + length path" using assms(2) by simp
  have h: "get_header (p @ buffer_tail cl) = get_header p" by (rule get_header_append) (simp add: l)
  have t: "take MAX_MSG_SIZE p = p" using l assms(1) by simp
  have r: "packet_run (p @ buffer_tail cl) O_open_path_size O_open_path_offset = path"
    unfolding assms(2) by (rule path_packet_run) (use assms(1) in \<open>simp add: MAX_MSG_SIZE_def\<close>)
  show ?thesis
    unfolding client_reply_def deal_teadfs_msg_def t h r Let_def
    using assms(3) by (simp add: assms(2) path_packet_header)
qed

lemma test_open_range: "test_open proc c \<in> {OFR_INIT, OFR_ENCRYPT, OFR_DECRYPT}"
  by (simp add: test_open_def split: option.splits)

interpretation opens: open_env "host_kernel (test_client g fs)" "client_reply (test_client g fs)" files
  "\<lambda>_. map xor_byte" "\<lambda>_. map xor_byte" names
  "\<lambda>pid path. test_open (g (word_of_int pid)) (fs (c_string path))" id for g fs
proof (unfold_locales, goal_cases)
  case (6 fld q w)
  then show ?case by (cases fld) simp_all
next
  case (7 c w)
  then show ?case by (cases c) simp_all
next
  case (8 path p mid pid fid)
  let ?cl = "test_client g fs" and ?c = "test_open (g (word_of_int pid)) (fs (c_string path))"
  have r: "client_reply ?cl p = code_response (p @ buffer_tail ?cl) ?c"
    using deal_open [OF 8, of ?cl] by (simp add: test_client_def test_cb_def)
  have l: "length p = sizeof_packet + length path" using 8(2) by simp
  then have l32: "32 \<le> length (p @ buffer_tail ?cl)" by (simp add: layout_defs)
  have h: "get_header (client_reply ?cl p) = get_header p"
    unfolding r using code_response_header(1) [OF l32] get_header_append [of p] l by simp
  have "length (client_reply ?cl p) = sizeof_packet" unfolding r by (rule code_response_header(2) [OF l32])
  then have "fits p (client_reply ?cl p)"
    unfolding fits_def h using 8(2) by (simp add: path_packet_header layout_defs)
  moreover have "dec_int (enc_int ?c) = ?c"
    using test_open_range [of "g (word_of_int pid)" "fs (c_string path)"]
    by (intro dec_enc_int) (auto simp: ofr_defs)
  ultimately show ?case by (simp add: r code_response_header(3) [OF l32])
qed (simp_all add: IS_ERR_def)

section \<open>Properties\<close>

text \<open>
  C30: opening a regular file asks the client about the path of the file and the calling
  process, and its code decides: \<open>OFR_PROHIBIT\<close> refuses the open, any other code opens the lower
  file in that mode, counts it in the inode and installs the decrypting mapping exactly in decrypt
  mode. A negative code counts as \<open>OFR_INIT\<close>. No lower file is changed. In every case the flag
  \<open>file_decrypt\<close> of the inode is cleared: the code compares constants where it means to compare
  the access mode.
\<close>

theorem open_decided:
  assumes "open_env K reply content enc dec name decide lower_of"
    and "path_of s d = Some (ld, lm)" "heap s inode = Some (B_inode y)" "0 \<le> lower_file_count y"
    and "can_request s" "cur_pid s \<noteq> 0" "heap s file_p = None" "f_mapping s file_p = M_data p"
    and "\<And>w. rv (fst (K (K_load F_f_dentry file_p) w)) = d" "path = name (world s) d"
    and "sizeof_packet + length path \<le> MAX_MSG_SIZE" "\<And>w. S_ISREG (rv (fst (K (K_load F_i_mode inode) w)))"
    and "lower_of ld \<noteq> 0" "\<not> IS_ERR (lower_of ld)"
    and "code = (if decide (cur_pid s) path < 0 then OFR_INIT else decide (cur_pid s) path)"
    and "run_state (teadfs_open K inode file_p) s = (rc, t)"
  shows "open_result content s inode file_p (lower_of ld) code y rc t"
  by (rule wp_run [OF open_env.open_ok [OF assms(1-15)] assms(16)])

text \<open>
  A file about to be opened: dentry \<open>30\<close> with path \<open>/a\<close> lies over the lower dentry \<open>7\<close>, and the
  client finds a labelled file under that path.
\<close>

definition open_st :: "host st" where
  "open_st = (boot_st \<lparr>files = (\<lambda>_. []), wire = [], names = (\<lambda>_. [])(30 := [47, 97, 0])\<rparr>)
     \<lparr>heap := [1 \<mapsto> B_dentry \<lparr>lower_path_dentry = 7, lower_path_mnt = 8\<rparr>,
       2 \<mapsto> B_inode (zero_inode_info\<lparr>lower_file_count := 0\<rparr>)],
     brk := 3, d_fsdata := (\<lambda>_. 0)(30 := 1), client_connect := 1\<rparr>"

definition labelled_fs :: "bytes \<Rightarrow> bytes option" where
  "labelled_fs path = (if path = [47, 97] then Some (enc_u32 ENCRYPT_FILE_FLAG @ replicate 252 0) else None)"

lemma open_st_request: "can_request open_st"
  by (simp add: can_request_def id_free_def heap_ok_def open_st_def boot_st_def)

lemma open_st_path: "path_of open_st 30 = Some (7, 8)"
  by (simp add: path_of_def open_st_def IS_ERR_def)

lemma labelled_decrypts: "test_open [] (labelled_fs (c_string [47, 97, 0])) = OFR_DECRYPT"
  by (simp add: test_open_def labelled_fs_def c_string_def)

lemma open_st_simps:
  "heap open_st 2 = Some (B_inode (zero_inode_info\<lparr>lower_file_count := 0\<rparr>))" "heap open_st 30 = None"
  "cur_pid open_st = 100" "f_mapping open_st 30 = M_data 30" "names (world open_st) 30 = [47, 97, 0]"
  by (simp_all add: open_st_def boot_st_def)

theorem open_decided_witness:
  "open_result files open_st 2 30 7 OFR_DECRYPT (zero_inode_info\<lparr>lower_file_count := 0\<rparr>)
     (fst (run_state (teadfs_open (host_kernel (test_client (\<lambda>_. []) labelled_fs)) 2 30) open_st))
     (snd (run_state (teadfs_open (host_kernel (test_client (\<lambda>_. []) labelled_fs)) 2 30) open_st))"
proof -
  have "open_result files open_st 2 30 (id 7) OFR_DECRYPT (zero_inode_info\<lparr>lower_file_count := 0\<rparr>)
     (fst (run_state (teadfs_open (host_kernel (test_client (\<lambda>_. []) labelled_fs)) 2 30) open_st))
     (snd (run_state (teadfs_open (host_kernel (test_client (\<lambda>_. []) labelled_fs)) 2 30) open_st))"
    by (rule open_decided [OF opens.open_env_axioms open_st_path open_st_simps(1) _ open_st_request _
        open_st_simps(2,4), where path = "[47, 97, 0]"])
      (simp_all add: open_st_simps labelled_decrypts layout_defs MAX_MSG_SIZE_def S_ISREG_def S_IFMT_def IS_ERR_def ofr_defs)
  then show ?thesis by simp
qed

end
