(* ===== verification/Vfs_Calls.thy ===== *)
theory Vfs_Calls
  imports Vfs_Locks
begin

text \<open>
  The module as the VFS sees it: the operation tables of \<open>file.c\<close>, \<open>inode.c\<close>, \<open>mmap.c\<close>, \<open>super.c\<close>
  and \<open>dentry.c\<close>, the calls through them, and properties of arbitrary sequences of such calls.
\<close>

section \<open>Operation tables\<close>

text \<open>
  A call names a method and its arguments. A table maps it to the module's function; methods that
  a table leaves out, or fills with a function of the kernel, are \<open>None\<close>. Results are dropped.
\<close>

datatype file_call =
    FC_llseek int int | FC_aio_read nat int | FC_aio_write bytes int | FC_readdir
  | FC_unlocked_ioctl int int | FC_compat_ioctl int int | FC_open ptr | FC_flush ptr | FC_release ptr
  | FC_fsync int | FC_fasync int int

datatype inode_call =
    IC_readlink ptr int | IC_follow_link ptr ptr | IC_put_link ptr | IC_permission ptr int
  | IC_setattr ptr iattr | IC_getattr ptr kstat | IC_setxattr ptr bytes bytes int | IC_getxattr ptr bytes nat
  | IC_listxattr ptr nat | IC_removexattr ptr bytes | IC_create ptr ptr int bool | IC_lookup ptr ptr
  | IC_link ptr ptr ptr | IC_unlink ptr ptr | IC_symlink ptr ptr bytes | IC_mkdir ptr ptr int | IC_rmdir ptr ptr
  | IC_mknod ptr ptr int int | IC_rename ptr ptr ptr ptr

datatype page_method =
    AC_writepage ptr | AC_readpage ptr ptr | AC_write_begin ptr ptr nat int ptr
  | AC_write_end ptr ptr nat nat nat ptr | AC_bmap ptr int

datatype super_call =
    SC_alloc_inode | SC_destroy_inode ptr | SC_statfs ptr int | SC_evict_inode ptr | SC_show_options ptr

datatype dentry_call = DC_revalidate ptr int | DC_release ptr

abbreviation void :: "('w, 'a) op \<Rightarrow> ('w, unit) op" where
  "void m \<equiv> State_Monad.bind m (\<lambda>_. ret ())"

fun dir_fops_table :: "'w kernel \<Rightarrow> ptr \<Rightarrow> file_call \<Rightarrow> ('w, unit) op option" where
  "dir_fops_table K f FC_readdir = Some (void (teadfs_readdir K f))"
| "dir_fops_table K f (FC_unlocked_ioctl cmd arg) = Some (void (teadfs_unlocked_ioctl K f cmd arg))"
| "dir_fops_table K f (FC_compat_ioctl cmd arg) = Some (void (teadfs_compat_ioctl K f cmd arg))"
| "dir_fops_table K f (FC_open i) = Some (void (teadfs_open K i f))"
| "dir_fops_table K f (FC_flush td) = Some (void (teadfs_flush K f td))"
| "dir_fops_table K f (FC_release i) = Some (void (teadfs_release K i f))"
| "dir_fops_table K f (FC_fsync ds) = Some (void (teadfs_fsync K f ds))"
| "dir_fops_table K f (FC_fasync fd flag) = Some (void (teadfs_fasync K fd f flag))"
| "dir_fops_table K f _ = None"

fun main_fops_table :: "'w kernel \<Rightarrow> ptr \<Rightarrow> file_call \<Rightarrow> ('w, unit) op option" where
  "main_fops_table K f (FC_llseek off whence) = Some (void (teadfs_file_llseek K f off whence))"
| "main_fops_table K f (FC_aio_read n pos) = Some (void (teadfs_aio_read_update_atime K f n pos))"
| "main_fops_table K f (FC_aio_write data pos) = Some (void (teadfs_aio_write K f data pos))"
| "main_fops_table K f FC_readdir = Some (void (teadfs_readdir K f))"
| "main_fops_table K f (FC_unlocked_ioctl cmd arg) = Some (void (teadfs_unlocked_ioctl K f cmd arg))"
| "main_fops_table K f (FC_compat_ioctl cmd arg) = Some (void (teadfs_compat_ioctl K f cmd arg))"
| "main_fops_table K f (FC_open i) = Some (void (teadfs_open K i f))"
| "main_fops_table K f (FC_flush td) = Some (void (teadfs_flush K f td))"
| "main_fops_table K f (FC_release i) = Some (void (teadfs_release K i f))"
| "main_fops_table K f (FC_fsync ds) = Some (void (teadfs_fsync K f ds))"
| "main_fops_table K f (FC_fasync fd flag) = Some (void (teadfs_fasync K fd f flag))"

fun symlink_iops_table :: "'w kernel \<Rightarrow> inode_call \<Rightarrow> ('w, unit) op option" where
  "symlink_iops_table K (IC_readlink d n) = Some (void (teadfs_readlink K d n))"
| "symlink_iops_table K (IC_follow_link d nd) = Some (teadfs_follow_link K d nd)"
| "symlink_iops_table K (IC_put_link p) = Some (teadfs_put_link K p)"
| "symlink_iops_table K (IC_permission i msk) = Some (void (teadfs_permission K i msk))"
| "symlink_iops_table K (IC_setattr d ia) = Some (void (teadfs_setattr K d ia))"
| "symlink_iops_table K (IC_getattr d stat) = Some (void (teadfs_getattr_link K d stat))"
| "symlink_iops_table K (IC_setxattr d nm val fl) = Some (void (teadfs_setxattr K d nm val fl))"
| "symlink_iops_table K (IC_getxattr d nm n) = Some (void (teadfs_getxattr K d nm n))"
| "symlink_iops_table K (IC_listxattr d n) = Some (void (teadfs_listxattr K d n))"
| "symlink_iops_table K (IC_removexattr d nm) = Some (void (teadfs_removexattr K d nm))"
| "symlink_iops_table K _ = None"

fun dir_iops_table :: "'w kernel \<Rightarrow> inode_call \<Rightarrow> ('w, unit) op option" where
  "dir_iops_table K (IC_create dir d mode ex) = Some (void (teadfs_create K dir d mode ex))"
| "dir_iops_table K (IC_lookup dir d) = Some (void (teadfs_lookup K dir d))"
| "dir_iops_table K (IC_link od dir nd) = Some (void (teadfs_link K od dir nd))"
| "dir_iops_table K (IC_unlink dir d) = Some (void (teadfs_unlink K dir d))"
| "dir_iops_table K (IC_symlink dir d name) = Some (void (teadfs_symlink K dir d name))"
| "dir_iops_table K (IC_mkdir dir d mode) = Some (void (teadfs_mkdir K dir d mode))"
| "dir_iops_table K (IC_rmdir dir d) = Some (void (teadfs_rmdir K dir d))"
| "dir_iops_table K (IC_mknod dir d mode dev) = Some (void (teadfs_mknod K dir d mode dev))"
| "dir_iops_table K (IC_rename odir od ndir nd) = Some (void (teadfs_rename K odir od ndir nd))"
| "dir_iops_table K (IC_permission i msk) = Some (void (teadfs_permission K i msk))"
| "dir_iops_table K (IC_setattr d ia) = Some (void (teadfs_setattr K d ia))"
| "dir_iops_table K (IC_setxattr d nm val fl) = Some (void (teadfs_setxattr K d nm val fl))"
| "dir_iops_table K (IC_getxattr d nm n) = Some (void (teadfs_getxattr K d nm n))"
| "dir_iops_table K (IC_listxattr d n) = Some (void (teadfs_listxattr K d n))"
| "dir_iops_table K (IC_removexattr d nm) = Some (void (teadfs_removexattr K d nm))"
| "dir_iops_table K _ = None"

fun main_iops_table :: "'w kernel \<Rightarrow> inode_call \<Rightarrow> ('w, unit) op option" where
  "main_iops_table K (IC_permission i msk) = Some (void (teadfs_permission K i msk))"
| "main_iops_table K (IC_setattr d ia) = Some (void (teadfs_setattr K d ia))"
| "main_iops_table K (IC_getattr d stat) = Some (void (teadfs_getattr K d stat))"
| "main_iops_table K (IC_setxattr d nm val fl) = Some (void (teadfs_setxattr K d nm val fl))"
| "main_iops_table K (IC_getxattr d nm n) = Some (void (teadfs_getxattr K d nm n))"
| "main_iops_table K (IC_listxattr d n) = Some (void (teadfs_listxattr K d n))"
| "main_iops_table K (IC_removexattr d nm) = Some (void (teadfs_removexattr K d nm))"
| "main_iops_table K _ = None"

fun aops_table :: "'w kernel \<Rightarrow> page_method \<Rightarrow> ('w, unit) op" where
  "aops_table K (AC_writepage p) = void (teadfs_writepage K p)"
| "aops_table K (AC_readpage f p) = void (teadfs_readpage K f p)"
| "aops_table K (AC_write_begin f h pos fl pp) = void (treadfs_write_begin K f h pos fl pp)"
| "aops_table K (AC_write_end f h pos len copied p) = void (teadfs_write_end K f h pos len copied p)"
| "aops_table K (AC_bmap m b) = void (teadfs_bmap K m b)"

fun sops_table :: "'w kernel \<Rightarrow> super_call \<Rightarrow> ('w, unit) op" where
  "sops_table K SC_alloc_inode = void (teadfs_alloc_inode K)"
| "sops_table K (SC_destroy_inode i) = teadfs_destroy_inode K i"
| "sops_table K (SC_statfs d ty) = void (teadfs_statfs K d ty)"
| "sops_table K (SC_evict_inode i) = teadfs_evict_inode K i"
| "sops_table K (SC_show_options m) = void (teadfs_show_options K m)"

fun dops_table :: "'w kernel \<Rightarrow> dentry_call \<Rightarrow> ('w, unit) op" where
  "dops_table K (DC_revalidate d fl) = void (teadfs_d_revalidate K d fl)"
| "dops_table K (DC_release d) = teadfs_d_release K d"

text \<open>A call of the VFS through one of the tables, and a sequence of calls.\<close>

datatype vfs_call =
    V_main_file ptr file_call | V_dir_file ptr file_call
  | V_symlink inode_call | V_dir inode_call | V_main inode_call
  | V_page page_method | V_super super_call | V_dentry dentry_call

fun vfs_run :: "'w kernel \<Rightarrow> vfs_call \<Rightarrow> ('w, unit) op" where
  "vfs_run K (V_main_file f c) = (case main_fops_table K f c of None \<Rightarrow> ret () | Some m \<Rightarrow> m)"
| "vfs_run K (V_dir_file f c) = (case dir_fops_table K f c of None \<Rightarrow> ret () | Some m \<Rightarrow> m)"
| "vfs_run K (V_symlink c) = (case symlink_iops_table K c of None \<Rightarrow> ret () | Some m \<Rightarrow> m)"
| "vfs_run K (V_dir c) = (case dir_iops_table K c of None \<Rightarrow> ret () | Some m \<Rightarrow> m)"
| "vfs_run K (V_main c) = (case main_iops_table K c of None \<Rightarrow> ret () | Some m \<Rightarrow> m)"
| "vfs_run K (V_page c) = aops_table K c"
| "vfs_run K (V_super c) = sops_table K c"
| "vfs_run K (V_dentry c) = dops_table K c"

fun vfs_calls :: "'w kernel \<Rightarrow> vfs_call list \<Rightarrow> ('w, unit) op" where
  "vfs_calls K [] = ret ()"
| "vfs_calls K (c # cs) = do { vfs_run K c; vfs_calls K cs }"

section \<open>Locks\<close>

lemma holds_file_rest:
  "holds {} (teadfs_readdir K f) {}"
  "holds {} (teadfs_unlocked_ioctl K f cmd arg) {}"
  "holds {} (teadfs_compat_ioctl K f cmd arg) {}"
  "holds {} (teadfs_fasync K fd f flag) {}"
  "holds {} (teadfs_file_llseek K f off whence) {}"
  unfolding teadfs_readdir_def teadfs_unlocked_ioctl_def teadfs_compat_ioctl_def ioctl_lower_def teadfs_fasync_def
    teadfs_file_llseek_def
  by (rule holds_intros | simp)+

lemma holds_inode_rest:
  "holds {} (teadfs_readlink K d n) {}"
  "holds {} (teadfs_put_link K p) {}"
  "holds {} (teadfs_permission K i msk) {}"
  "holds {} (teadfs_getattr_link K d stat) {}"
  "holds {} (teadfs_writepage K p) {}"
  "holds {} (teadfs_bmap K i b) {}"
  "holds {} (teadfs_destroy_inode K i) {}"
  "holds {} (teadfs_evict_inode K i) {}"
  "holds {} (teadfs_show_options K m) {}"
  unfolding teadfs_readlink_def teadfs_put_link_def teadfs_permission_def teadfs_getattr_link_def teadfs_writepage_def
    teadfs_bmap_def teadfs_destroy_inode_def teadfs_i_callback_def teadfs_evict_inode_def teadfs_show_options_def
  by (rule holds_intros | simp)+

lemma holds_file_ops:
  "holds {} (teadfs_open K inode f) {}"
  "holds {} (teadfs_release K inode f) {}"
  "holds {} (teadfs_flush K f td) {}"
  "holds {} (teadfs_fsync K f ds) {}"
  "holds {} (teadfs_aio_read_update_atime K f n pos) {}"
  "holds {} (teadfs_aio_write K f data pos) {}"
  "holds {} (teadfs_readpage K f page) {}"
  "holds {} (treadfs_write_begin K f h p fl pp) {}"
  "holds {} (teadfs_write_end K f h p len copied page) {}"
  unfolding teadfs_open_def teadfs_release_def teadfs_flush_def teadfs_fsync_def
    teadfs_aio_read_update_atime_def teadfs_aio_write_def teadfs_readpage_def treadfs_write_begin_def
    teadfs_write_end_def
  by (rule holds_intros | simp)+

lemma holds_void [holds_intros]: "holds H m H' \<Longrightarrow> holds H (void m) H'"
  by (erule mon_bind) (rule mon_ret)

lemmas holds_ops = holds_file_ops holds_file_rest holds_inode_rest holds_dir_ops holds_attr_ops holds_lookup_ops
  holds_new_inode

fun is_rename :: "vfs_call \<Rightarrow> bool" where
  "is_rename (V_dir (IC_rename odir od ndir nd)) = True"
| "is_rename _ = False"

lemma holds_vfs_run:
  assumes "\<And>d w. \<not> IS_ERR (rv (fst (K (K_ref (K_dget_parent d)) w)))" "\<not> is_rename c"
  shows "holds {} (vfs_run K c) {}"
proof (cases c)
  case (V_main_file f fc)
  then show ?thesis by (cases fc) (simp_all add: holds_void holds_ops)
next
  case (V_dir_file f fc)
  then show ?thesis by (cases fc) (simp_all add: holds_void holds_ops mon_ret)
next
  case (V_symlink ic)
  then show ?thesis by (cases ic) (simp_all add: holds_void holds_ops mon_ret)
next
  case (V_dir ic)
  then show ?thesis
    using assms(2) by (cases ic) (simp_all add: holds_void holds_ops mon_ret holds_create [of K, OF assms(1)])
next
  case (V_main ic)
  then show ?thesis by (cases ic) (simp_all add: holds_void holds_ops mon_ret)
next
  case (V_page pc)
  then show ?thesis by (cases pc) (simp_all add: holds_void holds_ops)
next
  case (V_super sc)
  then show ?thesis by (cases sc) (simp_all add: holds_void holds_ops)
next
  case (V_dentry dc)
  then show ?thesis by (cases dc) (simp_all add: holds_void holds_ops)
qed

end
