(* ===== verification/Vfs_Blocks.thy ===== *)
theory Vfs_Blocks
  imports Vfs_Calls
begin

text \<open>
  Invariants of the module's structures under every call of the VFS. The locale \<open>block_law\<close> is the
  interface: a predicate on heap blocks that the few updates of inode structures in the code keep.
  Inside it, every operation of the module keeps such a predicate for all blocks. The instance is
  the flag \<open>file_decrypt\<close>, which no call ever sets. The properties are about arbitrary sequences of
  calls: this invariant and the lock discipline.
\<close>

section \<open>The interface\<close>

locale block_law =
  fixes P :: "block \<Rightarrow> bool"
  assumes plain_blocks: "P (B_raw b)" "P (B_file f)" "P (B_dentry d)" "P (B_sb sb)" "P (B_ctx c)" "P (B_vfile vd vi)"
    and new_inode: "P (B_inode zero_inode_info)"
    and inode_updates: "P (B_inode x) \<Longrightarrow> P (B_inode (x\<lparr>lower_inode := l\<rparr>))"
      "P (B_inode x) \<Longrightarrow> P (B_inode (x\<lparr>i_decrypt := a\<rparr>))"
      "P (B_inode x) \<Longrightarrow> P (B_inode (x\<lparr>lower_file_count := n\<rparr>))"
      "P (B_inode x) \<Longrightarrow> P (B_inode (x\<lparr>file_decrypt := 0\<rparr>))"

definition all_blocks :: "(block \<Rightarrow> bool) \<Rightarrow> 'w st \<Rightarrow> bool" where
  "all_blocks P s \<longleftrightarrow> (\<forall>p b. heap s p = Some b \<longrightarrow> P b)"

definition kept :: "(block \<Rightarrow> bool) \<Rightarrow> ('w, 'a) op \<Rightarrow> bool" where
  "kept P m \<longleftrightarrow> (\<forall>s. all_blocks P s \<longrightarrow> all_blocks P (snd (run_state m s)))"

named_theorems kept_intros \<open>block invariants of the monad's constructors and of the operations\<close>

lemma kept_ret [kept_intros]: "kept P (ret a)"
  by (simp add: kept_def)

lemma kept_bind [kept_intros]: "kept P m \<Longrightarrow> (\<And>a. kept P (f a)) \<Longrightarrow> kept P (State_Monad.bind m f)"
  by (simp add: kept_def split_beta)

lemma kept_if [kept_intros]: "(b \<Longrightarrow> kept P m) \<Longrightarrow> (\<not> b \<Longrightarrow> kept P n) \<Longrightarrow> kept P (if b then m else n)"
  by simp

lemma kept_option [kept_intros]:
  "(x = None \<Longrightarrow> kept P m) \<Longrightarrow> (\<And>y. x = Some y \<Longrightarrow> kept P (n y)) \<Longrightarrow>
     kept P (case x of None \<Rightarrow> m | Some y \<Rightarrow> n y)"
  by (simp split: option.splits)

lemma kept_Let [kept_intros]: "kept P (f x) \<Longrightarrow> kept P (Let x f)"
  by simp

lemma kept_prod [kept_intros]:
  "(\<And>a b. p = (a, b) \<Longrightarrow> kept P (f a b)) \<Longrightarrow> kept P (case p of (a, b) \<Rightarrow> f a b)"
  by (cases p) simp

lemma kept_State [kept_intros]: "(\<And>s. heap (snd (f s)) = heap s) \<Longrightarrow> kept P (State f)"
  by (simp add: kept_def all_blocks_def)

lemma kept_vfile [kept_intros]:
  "(\<And>d i. kept P (m d i)) \<Longrightarrow> kept P n \<Longrightarrow> kept P (case x of Some (B_vfile d i) \<Rightarrow> m d i | _ \<Rightarrow> n)"
  by (auto split: option.splits block.splits)

lemma kept_call [kept_intros]: "kept P (call K c)"
  by (simp add: kept_def run_call all_blocks_def)

lemma kept_call_rv [kept_intros]: "kept P (call_rv K c)"
  unfolding call_rv_def by (rule kept_intros)+

lemma kept_plain [kept_intros]:
  "kept P (emit c)"
  "kept P (raise_fault f)"
  "kept P (load sel d p)"
  "kept P (deref p)"
  "kept P (peek K p off n)"
  "kept P (f_dentry K f')"
  "kept P (f_inode K f')"
  unfolding emit_def raise_fault_def load_def deref_def peek_def stale_peek_def f_dentry_def f_inode_def
  by (rule kept_vfile kept_intros | simp)+

lemma kept_removal [kept_intros]:
  "kept P (pop_local p)"
  "kept P (teadfs_free p)"
  by (auto simp: kept_def all_blocks_def pop_local_def teadfs_free_def emit_def raise_fault_def)

lemma kept_new:
  "P blk \<Longrightarrow> kept P (push_local blk)"
  "P blk \<Longrightarrow> kept P (teadfs_zalloc K n blk)"
  by (auto simp: kept_def all_blocks_def push_local_def teadfs_zalloc_def call_rv_def run_call)

text \<open>A store keeps the invariant if the stored structure satisfies it.\<close>

lemma kept_store:
  assumes "\<And>h x. (\<And>p b. h p = Some b \<Longrightarrow> P b) \<Longrightarrow> sel (h p) = Some x \<Longrightarrow> P (mk (upd x))"
  shows "kept P (store sel mk upd p)"
  unfolding kept_def
proof (intro allI impI)
  fix s assume "all_blocks P s"
  then show "all_blocks P (snd (run_state (store sel mk upd p) s))"
    using assms [of "heap s"]
    by (cases "sel (heap s p)") (auto simp: store_def raise_fault_def all_blocks_def split: if_splits)
qed

context block_law
begin

lemma kept_stores [kept_intros]:
  "kept P (store file_of B_file uf p)"
  "kept P (store dentry_of B_dentry ud p)"
  "kept P (store sb_of B_sb us p)"
  "kept P (store ctx_of B_ctx uc p)"
  "kept P (store raw_of B_raw ur p)"
  by (rule kept_store, rule plain_blocks)+

lemma kept_store_inode:
  assumes "\<And>x. P (B_inode x) \<Longrightarrow> P (B_inode (u x))"
  shows "kept P (store inode_of B_inode u p)"
  by (rule kept_store, rule assms) (auto elim!: inode_of.elims)

lemma kept_inode_stores [kept_intros]:
  "kept P (store inode_of B_inode (\<lambda>x. x\<lparr>lower_inode := l x\<rparr>) p)"
  "kept P (store inode_of B_inode (\<lambda>x. x\<lparr>i_decrypt := a x\<rparr>) p)"
  "kept P (store inode_of B_inode (\<lambda>x. x\<lparr>lower_file_count := n x\<rparr>) p)"
  "kept P (store inode_of B_inode (\<lambda>x. x\<lparr>file_decrypt := 0\<rparr>) p)"
  by (rule kept_store_inode, erule inode_updates)+

lemma kept_poke [kept_intros]: "kept P (poke p off bs)"
  using plain_blocks(1)
  by (cases "bs = []") (auto simp: kept_def all_blocks_def poke_def raise_fault_def split: option.splits if_splits)

lemmas kept_news [kept_intros] = kept_new [of P, OF plain_blocks(1)] kept_new [of P, OF plain_blocks(2)]
  kept_new [of P, OF plain_blocks(3)] kept_new [of P, OF plain_blocks(4)] kept_new [of P, OF plain_blocks(5)]
  kept_new [of P, OF plain_blocks(6)] kept_new [of P, OF new_inode]

section \<open>The channel\<close>

lemma kept_globals [kept_intros]:
  "kept P teadfs_get_next_msg_id"
  "kept P teadfs_get_msg_queue"
  "kept P teadfs_get_client_pid"
  "kept P (teadfs_set_client_pid p)"
  "kept P teadfs_get_client_connect"
  unfolding teadfs_get_next_msg_id_def teadfs_get_msg_queue_def teadfs_get_client_pid_def
    teadfs_set_client_pid_def teadfs_get_client_connect_def
  by (rule kept_intros | simp)+

lemma kept_netlink [kept_intros]:
  "kept P (teadfs_send_to_user K d n)"
  "kept P (packet_field pk off n)"
  "kept P (stack_bytes K n)"
  unfolding teadfs_send_to_user_def packet_field_def stack_bytes_def by (rule kept_intros | simp)+

lemma kept_receive_parts [kept_intros]:
  "kept P (teadfs_user_request_kernel K pkt)"
  "kept P (store_response K skb c)"
  unfolding teadfs_user_request_kernel_def store_response_def by (rule kept_intros | simp)+

lemma kept_deliver [kept_intros]: "kept P (deliver K skb cs)"
  by (induction cs) (auto intro!: kept_intros)

lemma kept_receive [kept_intros]: "kept P (teadfs_netlink_receive K skb)"
  unfolding teadfs_netlink_receive_def by (rule kept_intros | simp)+

lemma kept_receive_all [kept_intros]: "kept P (receive_all K msgs)"
  by (induction msgs) (auto intro!: kept_intros)

lemma kept_sending [kept_intros]:
  "kept P (finish_without_answer c)"
  "kept P (free_if p)"
  "kept P (copy_out d x)"
  "kept P (path_string K d' m b)"
  unfolding finish_without_answer_def free_if_def copy_out_def path_string_def
  by (rule kept_intros | simp)+

lemma kept_request_send [kept_intros]:
  "kept P (teadfs_request_wait_answer K c)"
  "kept P (begin_request K n ty)"
  unfolding teadfs_request_wait_answer_def begin_request_def teadfs_packet_header_def by (rule kept_intros | simp)+

lemma kept_send [kept_intros]: "kept P (teadfs_request_send K mid n p)"
  unfolding teadfs_request_send_def by (rule kept_intros | simp)+

lemma kept_send_packet [kept_intros]: "kept P (send_packet K n p)"
  unfolding send_packet_def by (rule kept_intros | simp)+

lemma kept_requests [kept_intros]:
  "kept P (teadfs_request_open K path f)"
  "kept P (teadfs_request_release K p n f)"
  "kept P (teadfs_request_read K off src dst k)"
  "kept P (teadfs_request_write K off src dst k)"
  unfolding teadfs_request_open_def teadfs_request_release_def teadfs_request_read_def
    teadfs_request_write_def
  by (rule kept_intros | simp)+

lemma kept_open_requests [kept_intros]:
  "kept P (teadfs_request_open_file K f fi)"
  "kept P (teadfs_request_open_path K d m)"
  unfolding teadfs_request_open_file_def teadfs_request_open_path_def
  by (rule kept_intros | simp)+

section \<open>The operations\<close>

lemma kept_lower_paths [kept_intros]:
  "kept P (teadfs_get_lower_path d)"
  "kept P (teadfs_put_lower_path d)"
  "kept P (teadfs_set_lower_path d x)"
  "kept P (teadfs_get_super_block a)"
  "kept P (teadfs_set_superblock_lower a b)"
  "kept P (teadfs_superblock_to_lower a)"
  "kept P (teadfs_file_to_private a)"
  "kept P (teadfs_file_to_lower a)"
  "kept P (teadfs_dentry_to_private a)"
  "kept P (teadfs_inode_to_lower a)"
  "kept P (teadfs_set_inode_lower a b)"
  "kept P (i_size_read a)"
  "kept P (i_size_write a n)"
  "kept P (teadfs_set_file_private a b)"
  "kept P (teadfs_set_dentry_private a b)"
  unfolding teadfs_get_lower_path_def teadfs_put_lower_path_def teadfs_set_lower_path_def teadfs_get_super_block_def
    teadfs_set_superblock_lower_def teadfs_superblock_to_lower_def teadfs_file_to_private_def teadfs_file_to_lower_def
    teadfs_dentry_to_private_def teadfs_inode_to_lower_def teadfs_set_inode_lower_def i_size_read_def
    i_size_write_def teadfs_set_file_private_def teadfs_set_dentry_private_def
  by (rule kept_intros | simp)+

lemma kept_lower_file [kept_intros]:
  "kept P (teadfs_get_lower_file K d i fl)"
  "kept P (atomic_dec_and_mutex_lock i)"
  "kept P (filemap_write_and_wait K f)"
  unfolding teadfs_get_lower_file_def atomic_dec_and_mutex_lock_def filemap_write_and_wait_def
  by (rule kept_intros | simp)+

lemma kept_put_lower_file [kept_intros]: "kept P (teadfs_put_lower_file K i f)"
  unfolding teadfs_put_lower_file_def by (rule kept_intros | simp)+

lemma kept_lower_io [kept_intros]:
  "kept P (teadfs_read_lower K data off n f)"
  "kept P (teadfs_write_lower K f data off)"
  unfolding teadfs_read_lower_def teadfs_write_lower_def write_payload_def by (rule kept_intros | simp)+

lemma kept_pages [kept_intros]:
  "kept P (set_page p u)"
  "kept P (page_call K c)"
  "kept P (page_bytes p a n)"
  "kept P (fsstack_copy_inode_size K i j)"
  unfolding set_page_def page_call_def page_bytes_def fsstack_copy_inode_size_def by (rule kept_intros | simp)+

lemma kept_fill_page [kept_intros]:
  "kept P (fill_page K f p off)"
  "kept P (teadfs_write K d i data off)"
  unfolding fill_page_def teadfs_write_def by (rule kept_intros | simp)+

lemma kept_truncate_loop [kept_intros]:
  "kept P (truncate_loop K d i b new_size total_size pos rc)"
proof (induction K d i b new_size total_size pos rc rule: truncate_loop.induct)
  case (1 K d i b new_size total_size pos rc)
  show ?case by (subst truncate_loop.simps) (rule 1 kept_intros | simp)+
qed

lemma kept_truncate [kept_intros]:
  "kept P (truncate_upper K d ia lia)"
  "kept P (teadfs_truncate K d n)"
  unfolding truncate_upper_def teadfs_truncate_def by (rule kept_intros | simp)+

lemma kept_mapping [kept_intros]: "kept P (teadfs_replace_copy_address_space K i m)"
  unfolding teadfs_replace_copy_address_space_def read_mapping_def
  by (cases m; simp; (rule kept_intros | simp)+)

lemma kept_open [kept_intros]: "kept P (teadfs_open K inode f)"
proof -
  have "(if OFR_ENCRYPT = OFR_INIT then 1 else if OFR_DECRYPT = OFR_INIT then 1 else 0) = (0 :: int)"
    by (simp add: ofr_defs)
  then show ?thesis unfolding teadfs_open_def by (simp only:) (rule kept_intros | simp)+
qed

lemma kept_file_ops:
  "kept P (teadfs_release K inode f)"
  "kept P (teadfs_flush K f td)"
  "kept P (teadfs_fsync K f ds)"
  "kept P (teadfs_aio_read_update_atime K f n pos)"
  "kept P (teadfs_aio_write K f data pos)"
  "kept P (teadfs_readdir K f)"
  "kept P (teadfs_unlocked_ioctl K f cmd arg)"
  "kept P (teadfs_compat_ioctl K f cmd arg)"
  "kept P (teadfs_fasync K fd f flag)"
  "kept P (teadfs_file_llseek K f off whence)"
  unfolding teadfs_release_def teadfs_flush_def teadfs_fsync_def teadfs_aio_read_update_atime_def
    teadfs_aio_write_def teadfs_readdir_def teadfs_unlocked_ioctl_def teadfs_compat_ioctl_def ioctl_lower_def
    teadfs_fasync_def teadfs_file_llseek_def
  by (rule kept_intros | simp)+

lemma kept_page_ops:
  "kept P (teadfs_readpage K f page)"
  "kept P (treadfs_write_begin K f h q fl pp)"
  "kept P (teadfs_write_end K f h q len copied page)"
  "kept P (teadfs_writepage K page)"
  "kept P (teadfs_bmap K i b)"
  unfolding teadfs_readpage_def treadfs_write_begin_def teadfs_write_end_def teadfs_writepage_def teadfs_bmap_def
  by (rule kept_intros | simp)+

lemma kept_inode_helpers [kept_intros]:
  "kept P (d_inode K d)"
  "kept P (ref K rc)"
  "kept P (attr K ac)"
  "kept P (dcache K dc)"
  unfolding d_inode_def ref_def attr_def dcache_def by (rule kept_intros | simp)+

lemma kept_dir_helpers [kept_intros]:
  "kept P (lock_parent K d)"
  "kept P (unlock_dir K dir)"
  "kept P (copy_dir_attrs K a b)"
  "kept P (d_drop_negative K d)"
  "kept P (generic_fillattr K i stat)"
  unfolding lock_parent_def unlock_dir_def copy_dir_attrs_def d_drop_negative_def generic_fillattr_def
  by (rule kept_intros | simp)+

lemma kept_new_inode [kept_intros]:
  "kept P (teadfs_alloc_inode K)"
  "kept P (teadfs_inode_test i l)"
  "kept P (teadfs_inode_set K i l)"
  unfolding teadfs_alloc_inode_def teadfs_inode_test_def teadfs_inode_set_def by (rule kept_intros | simp)+

lemma kept_get_inode [kept_intros]:
  "kept P (iget5_locked K sb l)"
  "kept P (teadfs_get_inode_locked K l sb)"
  "kept P (teadfs_get_inode K l sb)"
  "kept P (teadfs_interpose K ld d sb)"
  "kept P (teadfs_lookup_interpose K d' ld' di)"
  unfolding iget5_locked_def teadfs_get_inode_locked_def teadfs_get_inode_def teadfs_interpose_def
    teadfs_lookup_interpose_def
  by (rule kept_intros | simp)+

lemma kept_xattr [kept_intros]:
  "kept P (xattr_method K d sl c)"
  "kept P (teadfs_readlink_lower K d)"
  unfolding xattr_method_def teadfs_readlink_lower_def by (rule kept_intros | simp)+

lemma kept_dir_ops:
  "kept P (teadfs_create K dir d mode ex)"
  "kept P (teadfs_link K od dir nd)"
  "kept P (teadfs_unlink K dir d)"
  "kept P (teadfs_symlink K dir d name)"
  "kept P (teadfs_mkdir K dir d mode)"
  "kept P (teadfs_rmdir K dir d)"
  "kept P (teadfs_mknod K dir d mode dev)"
  "kept P (teadfs_rename K odir od ndir nd)"
  unfolding teadfs_create_def teadfs_link_def teadfs_unlink_def teadfs_symlink_def teadfs_mkdir_def
    teadfs_rmdir_def teadfs_mknod_def teadfs_rename_def
  by (rule kept_intros | simp)+

lemma kept_attr_ops:
  "kept P (teadfs_setattr K d ia)"
  "kept P (teadfs_getattr K d stat)"
  "kept P (teadfs_getattr_link K d stat)"
  "kept P (teadfs_setxattr K d nm val fl)"
  "kept P (teadfs_getxattr K d nm n)"
  "kept P (teadfs_listxattr K d n)"
  "kept P (teadfs_removexattr K d nm)"
  "kept P (teadfs_follow_link K d ndt)"
  "kept P (teadfs_readlink K d k)"
  "kept P (teadfs_put_link K ndt)"
  "kept P (teadfs_permission K i msk)"
  unfolding teadfs_setattr_def teadfs_getattr_def teadfs_getattr_link_def teadfs_setxattr_def teadfs_getxattr_def
    teadfs_listxattr_def teadfs_removexattr_def teadfs_follow_link_def teadfs_readlink_def teadfs_put_link_def
    teadfs_permission_def
  by (rule kept_intros | simp)+

lemma kept_super_ops:
  "kept P (teadfs_lookup K di d)"
  "kept P (teadfs_statfs K d ty)"
  "kept P (teadfs_d_revalidate K d fl)"
  "kept P (teadfs_d_release K d)"
  "kept P (teadfs_destroy_inode K i)"
  "kept P (teadfs_evict_inode K i)"
  "kept P (teadfs_show_options K m)"
  unfolding teadfs_lookup_def teadfs_statfs_def teadfs_d_revalidate_def teadfs_d_release_def
    teadfs_destroy_inode_def teadfs_i_callback_def teadfs_evict_inode_def teadfs_show_options_def
  by (rule kept_intros | simp)+

lemma kept_void: "kept P m \<Longrightarrow> kept P (void m)"
  by (rule kept_bind [OF _ kept_ret])

lemmas kept_ops = kept_open kept_file_ops kept_page_ops kept_dir_ops kept_attr_ops kept_super_ops kept_new_inode

lemma kept_vfs_run: "kept P (vfs_run K c)"
proof (cases c)
  case (V_main_file f fc)
  then show ?thesis by (cases fc) (simp_all add: kept_void kept_ops)
next
  case (V_dir_file f fc)
  then show ?thesis by (cases fc) (simp_all add: kept_void kept_ops kept_ret)
next
  case (V_symlink ic)
  then show ?thesis by (cases ic) (simp_all add: kept_void kept_ops kept_ret)
next
  case (V_dir ic)
  then show ?thesis by (cases ic) (simp_all add: kept_void kept_ops kept_ret)
next
  case (V_main ic)
  then show ?thesis by (cases ic) (simp_all add: kept_void kept_ops kept_ret)
next
  case (V_page pc)
  then show ?thesis by (cases pc) (simp_all add: kept_void kept_ops)
next
  case (V_super sc)
  then show ?thesis by (cases sc) (simp_all add: kept_void kept_ops)
next
  case (V_dentry dc)
  then show ?thesis by (cases dc) (simp_all add: kept_void kept_ops)
qed

lemma kept_vfs_calls: "kept P (vfs_calls K cs)"
  by (induction cs) (auto intro: kept_ret kept_bind kept_vfs_run)

end

section \<open>The decrypt flag\<close>

definition flag_clear :: "block \<Rightarrow> bool" where
  "flag_clear b \<longleftrightarrow> (case b of B_inode x \<Rightarrow> file_decrypt x = 0 | _ \<Rightarrow> True)"

interpretation fl: block_law flag_clear
  by unfold_locales (simp_all add: flag_clear_def zero_inode_info_def)

lemma wp_load_any:
  "wp (load sel dflt p) Q s = (case sel (heap s p) of
     None \<Rightarrow> Q dflt (s\<lparr>faults := faults s @ [Bad_access p]\<rparr>) | Some x \<Rightarrow> Q x s)"
  by (simp add: load_def wp_simps split: option.splits)

lemma flag_clear_inode: "all_blocks flag_clear s \<Longrightarrow> inode_of (heap s p) = Some x \<Longrightarrow> file_decrypt x = 0"
  by (fastforce simp: all_blocks_def flag_clear_def elim!: inode_of.elims)

lemma getattr_full_size:
  assumes "all_blocks flag_clear s" "\<And>w. rv (fst (K (K_load F_d_inode d) w)) = inode"
  shows "wp (teadfs_getattr K d stat) (\<lambda>a _. fst a = 0 \<longrightarrow> st_size (snd a) = i_size s inode) s"
  using flag_clear_inode [OF assms(1), of inode]
  unfolding teadfs_getattr_def teadfs_get_lower_path_def teadfs_put_lower_path_def teadfs_dentry_to_private_def
    d_inode_def teadfs_inode_to_lower_def generic_fillattr_def i_size_read_def attr_def call_rv_def deref_def
  by (simp add: wp_simps wp_call wp_load_any assms(2) zero_inode_info_def split: option.splits)

section \<open>Properties\<close>

text \<open>
  C33: every sequence of calls of the VFS through the module's operation tables, apart
  from renames, takes no lock twice, releases only locks it holds, and returns with none held, for
  every kernel and client. For \<open>create\<close> this relies on \<open>dget_parent\<close> not returning an error
  pointer.
\<close>

theorem vfs_calls_locks:
  assumes "\<And>d w. \<not> IS_ERR (rv (fst (K (K_ref (K_dget_parent d)) w)))" "list_all (\<lambda>c. \<not> is_rename c) cs"
  shows "holds {} (vfs_calls K cs) {}"
  using assms(2)
proof (induction cs)
  case Nil
  show ?case by (simp add: mon_ret)
next
  case (Cons c cs)
  then have "holds {} (vfs_run K c) {}" "holds {} (vfs_calls K cs) {}"
    using holds_vfs_run [of K, OF assms(1)] by simp_all
  then show ?case by (simp add: mon_bind)
qed

theorem vfs_calls_locks_witness:
  "holds {} (vfs_calls calm_kernel [V_main_file 9 (FC_open 2), V_dir (IC_create 1 2 3 True), V_main_file 9 (FC_release 2)]) {}"
  by (rule vfs_calls_locks) (simp_all add: calm_kernel_def IS_ERR_def)

text \<open>
  C34: no sequence of calls of the VFS, whatever the client decides, ever sets the flag
  \<open>file_decrypt\<close> of an inode. A successful \<open>getattr\<close> therefore always reports the full size of the
  inode: the branch that takes off the 256 bytes of the label is dead.
\<close>

theorem label_in_size:
  assumes "run_state (vfs_calls K cs) (boot_st w) = (u, s)"
    and "\<And>w. rv (fst (K (K_load F_d_inode d) w)) = inode"
    and "run_state (teadfs_getattr K d stat) s = ((rc, st), t)" "rc = 0"
  shows "all_blocks flag_clear s \<and> st_size st = i_size s inode"
proof -
  have "all_blocks flag_clear (boot_st w)" by (simp add: all_blocks_def boot_st_def)
  then have s: "all_blocks flag_clear s"
    using fl.kept_vfs_calls [of K cs] assms(1) unfolding kept_def by (metis snd_conv)
  show ?thesis using s wp_run [OF getattr_full_size [of s K d inode stat, OF s assms(2)] assms(3)] assms(4) by simp
qed

text \<open>A kernel in which calls of the lower file system succeed and an inode that was just allocated.\<close>

definition stat_kernel :: "unit kernel" where
  "stat_kernel c w = (KRet (case c of K_vfs _ \<Rightarrow> 0 | _ \<Rightarrow> 1) [] [], w)"

definition stat_st :: "unit st" where
  "stat_st = snd (run_state (vfs_calls stat_kernel [V_super SC_alloc_inode]) (boot_st ()))"

lemma stat_getattr: "wp (teadfs_getattr stat_kernel d stat) (\<lambda>a _. fst a = 0) s"
  unfolding teadfs_getattr_def teadfs_get_lower_path_def teadfs_put_lower_path_def teadfs_dentry_to_private_def
    deref_def wp_bind
  by (simp add: wp_simps wp_call wp_load_any wp_all stat_kernel_def split: option.splits)

theorem label_in_size_witness:
  "st_size (snd (fst (run_state (teadfs_getattr stat_kernel 5 \<lparr>st_mode = 0, st_size = 7, st_blocks = 0\<rparr>) stat_st))) =
     i_size stat_st 1"
proof -
  let ?g = "teadfs_getattr stat_kernel 5 \<lparr>st_mode = 0, st_size = 7, st_blocks = 0\<rparr>"
  have "fst (fst (run_state ?g stat_st)) = 0" using stat_getattr unfolding wp_def .
  then show ?thesis
    using label_in_size [of stat_kernel "[V_super SC_alloc_inode]" "()" "()" stat_st 5 1
        "\<lparr>st_mode = 0, st_size = 7, st_blocks = 0\<rparr>" "fst (fst (run_state ?g stat_st))"
        "snd (fst (run_state ?g stat_st))" "snd (run_state ?g stat_st)"]
    by (simp add: stat_kernel_def stat_st_def prod_eq_iff del: vfs_calls.simps)
qed

end
