(* ===== verification/Release_Props.thy ===== *)
theory Release_Props
  imports Vfs_Calls Channel_Props
begin

text \<open>
  Closing a file (\<open>teadfs_release\<close> and \<open>teadfs_put_lower_file\<close> of \<open>file.c\<close>): the memory of the
  open file is given back, the inode's count of open files goes down, the client is told, and
  what becomes of the lower file.
\<close>

section \<open>Releases of files in the trace\<close>

fun fputs :: "(kcall \<times> int) list \<Rightarrow> ptr list" where
  "fputs [] = []"
| "fputs ((K_ref (K_fput p), r) # cs) = p # fputs cs"
| "fputs (_ # cs) = fputs cs"

lemma fputs_append [simp]: "fputs (xs @ ys) = fputs xs @ fputs ys"
  by (induction xs rule: fputs.induct) simp_all

text \<open>The monitor that rejects every release of a file.\<close>

fun fput_step :: "unit monitor" where
  "fput_step H (K_ref (K_fput p), r) = None"
| "fput_step H _ = Some H"

interpretation fp: neutral_monitor fput_step
  by unfold_locales simp_all

lemma fput_run: "mon_run fput_step H cs = Some H' \<Longrightarrow> fputs cs = []"
  by (induction cs arbitrary: H rule: fputs.induct) simp_all

lemma no_fput_request:
  "wp (teadfs_request_release K p n f) (\<lambda>_ t. fputs (trace t) = fputs (trace s)) s"
proof -
  have "mon fput_step () (teadfs_request_release K p n f) (\<lambda>_. ())"
    by (rule mon_intros | simp)+
  from mon_wp [OF this] show ?thesis by (rule wp_mono) (auto dest: fput_run)
qed

section \<open>The effect of a close\<close>

text \<open>
  \<open>closed s inode y lfs t\<close>: no fault, the inode has the contents \<open>y\<close>, the files \<open>lfs\<close> were
  released, and memory that existed before is unchanged otherwise, pending requests apart.
\<close>

definition closed :: "'w st \<Rightarrow> ptr \<Rightarrow> teadfs_inode_info \<Rightarrow> ptr list \<Rightarrow> 'w st \<Rightarrow> bool" where
  "closed s inode y lfs t \<longleftrightarrow> faults t = faults s \<and> private_data t = private_data s \<and> d_fsdata t = d_fsdata s \<and>
     msg_ctx_queue t = msg_ctx_queue s \<and> heap t inode = Some (B_inode y) \<and>
     fputs (trace t) = fputs (trace s) @ lfs \<and>
     (\<forall>p. heap s p \<noteq> None \<longrightarrow> p \<notin> set (msg_ctx_queue s) \<longrightarrow> p \<noteq> inode \<longrightarrow> heap t p = heap s p)"

lemma chan_ok_inode:
  assumes "chan_ok s" "heap s inode = Some (B_inode y)"
    and "heap t = (heap s)(inode \<mapsto> B_inode z)" "msg_ctx_queue t = msg_ctx_queue s" "brk t = brk s"
  shows "chan_ok t"
proof -
  have "inode \<notin> set (msg_ctx_queue s)" using chan_okD [OF assms(1)] assms(2) by fastforce
  then have r: "resp t c = resp s c" if "c \<in> set (msg_ctx_queue s)" for c
    using that assms(3) by (auto simp: resp_def)
  have "answered t x" if "answered s x" for x
    using that assms by (auto simp: answered_def)
  then show ?thesis
    using assms r unfolding chan_ok_def heap_ok_def by (auto 0 3)
qed

lemma request_release_closed:
  assumes "nlmsg_put_fits K" "msgs_ok K" "chan_ok s" "heap s inode = Some (B_inode y)"
    and "n = 0 \<or> heap s p = Some (B_raw b) \<and> n \<le> length b"
    and "\<And>rc t. closed s inode y [] t \<Longrightarrow> Q rc t"
  shows "wp (teadfs_request_release K p n f) Q s"
proof -
  have q: "inode \<notin> set (msg_ctx_queue s)" using chan_okD [OF assms(3)] assms(4) by fastforce
  have l: "q < brk s" if "heap s q \<noteq> None" for q
    using that chan_ok_heap [OF assms(3)] by (auto simp: heap_ok_def)
  have "wp (teadfs_request_release K p n f) (\<lambda>_ t. req_ok s t \<and> fputs (trace t) = fputs (trace s)) s"
    using request_release_safe [OF assms(1-3,5)] no_fput_request unfolding wp_def by blast
  then show ?thesis
    by (rule wp_mono) (rule assms(6), use q l assms(4) in \<open>auto simp: closed_def req_ok_def delivered_def frame_def\<close>)
qed

lemma wp_atomic_dec [wp_simps]:
  "heap s inode = Some (B_inode y) \<Longrightarrow> wp (atomic_dec_and_mutex_lock inode) Q s =
     Q (lower_file_count y = 1)
       (s\<lparr>trace := trace s @ (if lower_file_count y = 1 then [(K_lock (L_lower_file inode), 0)] else []),
          heap := (heap s)(inode \<mapsto> B_inode (y\<lparr>lower_file_count := lower_file_count y - 1\<rparr>))\<rparr>)"
  by (simp add: atomic_dec_and_mutex_lock_def wp_simps)

lemma path_of_closed:
  assumes "path_of s d = Some q" "closed s inode y lfs t" "heap s inode = Some (B_inode z)" "chan_ok s"
  shows "path_of t d = Some q"
proof -
  obtain x where x: "heap s (d_fsdata s d) = Some (B_dentry x)"
    using assms(1) by (auto simp: path_of_def split: option.splits elim!: dentry_of.elims)
  then have "d_fsdata s d \<notin> set (msg_ctx_queue s)" "d_fsdata s d \<noteq> inode"
    using chan_okD [OF assms(4)] assms(3) by fastforce+
  then show ?thesis using assms(1,2) x by (simp add: path_of_def closed_def)
qed

text \<open>The last close: the client is told, under the inode's mutex.\<close>

lemma last_close:
  assumes K: "nlmsg_put_fits K" "msgs_ok K" and s: "chan_ok s" "heap s inode = Some (B_inode y)"
    and f: "private_data s f = fi" "heap s fi = Some (B_file x)"
    and path: "nat (file_path_length x) = 0 \<or>
      heap s (file_path x) = Some (B_raw b) \<and> nat (file_path_length x) \<le> length b"
    and "\<And>t. closed s inode y [] t \<Longrightarrow> Q () t"
  shows "wp (do {
      mode \<leftarrow> call_rv K (K_load F_i_mode inode);
      (if S_ISREG mode then do {
         p \<leftarrow> teadfs_file_to_private f;
         fi \<leftarrow> load file_of zero_file_info p;
         teadfs_request_release K (file_path fi) (nat (file_path_length fi)) f;
         ret ()
       }
       else ret ());
      emit (K_unlock (L_lower_file inode))
    }) Q s"
  unfolding wp_bind
proof (rule wp_call_rvI)
  fix mode w
  let ?s = "s\<lparr>world := w, trace := trace s @ [(K_load F_i_mode inode, mode)]\<rparr>"
  have s': "chan_ok ?s" by (rule chan_ok_cong [OF s(1)]) simp_all
  have q: "closed s inode y [] (t\<lparr>trace := trace t @ [(K_unlock (L_lower_file inode), 0)]\<rparr>)"
    if "closed ?s inode y [] t" for t
    using that by (simp add: closed_def)
  have "closed ?s inode y [] ?s" using s(2) by (simp add: closed_def)
  note triv = q [OF this]
  have "wp (teadfs_request_release K (file_path x) (nat (file_path_length x)) f)
      (\<lambda>_ t. Q () (t\<lparr>trace := trace t @ [(K_unlock (L_lower_file inode), 0)]\<rparr>)) ?s"
    by (rule request_release_closed [OF K s', of inode y]) (use s(2) path q assms(8) in auto)
  then show "wp (if S_ISREG mode then do {
         p \<leftarrow> teadfs_file_to_private f;
         fi \<leftarrow> load file_of zero_file_info p;
         teadfs_request_release K (file_path fi) (nat (file_path_length fi)) f;
         ret ()
       }
       else ret ()) (\<lambda>_. wp (emit (K_unlock (L_lower_file inode))) Q) ?s"
    using f assms(8) [OF triv] by (simp add: wp_simps teadfs_file_to_private_def)
qed

lemma close_tail:
  assumes K: "nlmsg_put_fits K" "msgs_ok K" and s: "chan_ok s" "heap s inode = Some (B_inode y)"
    and f: "private_data s f = fi" "heap s fi = Some (B_file x)"
    and path: "nat (file_path_length x) = 0 \<or>
      heap s (file_path x) = Some (B_raw b) \<and> nat (file_path_length x) \<le> length b"
    and d: "path_of s d = Some q"
    and Q: "\<And>t. closed s inode y [] t \<Longrightarrow> Q () t"
  shows "wp (if was_last then do {
      mode \<leftarrow> call_rv K (K_load F_i_mode inode);
      (if S_ISREG mode then do {
         p \<leftarrow> teadfs_file_to_private f;
         fi \<leftarrow> load file_of zero_file_info p;
         teadfs_request_release K (file_path fi) (nat (file_path_length fi)) f;
         ret ()
       }
       else ret ());
      emit (K_unlock (L_lower_file inode))
    } else ret ()) (\<lambda>_. wp (teadfs_put_lower_path d) Q) s"
proof -
  have q: "wp (teadfs_put_lower_path d) Q t" if "closed s inode y [] t" for t
    unfolding wp_put_lower_path [OF path_of_closed [OF d that s(2,1)]]
    by (rule Q) (use that in \<open>simp add: closed_def\<close>)
  have "closed s inode y [] s" using s(2) by (simp add: closed_def)
  then have "wp (teadfs_put_lower_path d) Q s" by (rule q)
  then show ?thesis
    using last_close [OF K s f path, of "\<lambda>_. wp (teadfs_put_lower_path d) Q"] q
    by (cases was_last) (simp_all only: if_True if_False wp_ret)
qed

lemma put_lower_file_closed:
  assumes K: "nlmsg_put_fits K" "msgs_ok K" and s: "chan_ok s" "heap s inode = Some (B_inode y)" "inode \<noteq> 0"
    and f: "private_data s f = fi" "heap s fi = Some (B_file x)" "heap s f = None"
    and path: "nat (file_path_length x) = 0 \<or>
      heap s (file_path x) = Some (B_raw b) \<and> nat (file_path_length x) \<le> length b"
    and d: "\<And>w. rv (fst (K (K_load F_f_dentry f) w)) = d" "path_of s d = Some (ld, lm)" "lm \<noteq> 0"
    and other: "other \<longleftrightarrow> cur_pid s \<noteq> 0 \<and> cur_pid s \<noteq> client_pid s"
  shows "wp (teadfs_put_lower_file K inode f) (\<lambda>_. closed s inode
      (if other then y\<lparr>lower_file_count := lower_file_count y - 1\<rparr> else y)
      (if other then [] else [lower_file x])) s"
proof (cases other)
  case False
  then have "cur_pid s = 0 \<or> cur_pid s = client_pid s" using other by blast
  then show ?thesis
    using False s f unfolding teadfs_put_lower_file_def filemap_write_and_wait_def teadfs_file_to_lower_def
      teadfs_file_to_private_def teadfs_get_client_pid_def call_rv_def
    by (auto simp: wp_simps wp_call closed_def)
next
  case True
  have ld: "ld \<noteq> 0" using d(2) by (auto simp: path_of_def split: option.splits if_splits)
  have e: "(fst (ld, lm) = 0 \<or> snd (ld, lm) = 0) = False" using ld d(3) by simp
  let ?y = "y\<lparr>lower_file_count := lower_file_count y - 1\<rparr>"
  let ?rest = "\<lambda>was_last. if was_last then do {
      mode \<leftarrow> call_rv K (K_load F_i_mode inode);
      (if S_ISREG mode then do {
         p \<leftarrow> teadfs_file_to_private f;
         fi \<leftarrow> load file_of zero_file_info p;
         teadfs_request_release K (file_path fi) (nat (file_path_length fi)) f;
         ret ()
       }
       else ret ());
      emit (K_unlock (L_lower_file inode))
    } else ret ()"
  have tail: "wp (?rest was_last) (\<lambda>_. wp (teadfs_put_lower_path d) (\<lambda>_. closed s inode ?y [])) t"
    if t: "heap t = (heap s)(inode \<mapsto> B_inode ?y)" "fputs (trace t) = fputs (trace s)" "faults t = faults s"
      "private_data t = private_data s" "d_fsdata t = d_fsdata s" "msg_ctx_queue t = msg_ctx_queue s" "brk t = brk s"
    for was_last t
  proof (rule close_tail [OF K])
    show "chan_ok t" by (rule chan_ok_inode [OF s(1,2) t(1,6,7)])
    show "path_of t d = Some (ld, lm)" using d(2) s(2) t by (auto simp: path_of_def)
    show "closed s inode ?y [] u" if "closed t inode ?y [] u" for u
      using that t by (auto simp: closed_def)
  qed (use t s(2) f path in \<open>auto split: if_splits\<close>)
  show ?thesis
    using True other s f d ld
    unfolding teadfs_put_lower_file_def teadfs_file_to_lower_def f_dentry_def
    apply (simp add: wp_bind wp_get_client_pid wp_State wp_load wp_call call_rv_def teadfs_file_to_private_def
      wp_get_lower_path wp_atomic_dec wp_Let wp_ret split del: if_split)
    apply (unfold e if_False State_Monad.bind_left_identity)
    apply (rule tail; simp)
    done
qed

section \<open>Properties\<close>

text \<open>
  C31: closing a regular file whose path buffer was allocated returns 0, causes no memory fault, frees
  the file's private structure and path buffer, clears the pointer to it and changes no other memory
  that existed before, except pending requests and the inode's count of open files. That count goes
  down by one when a process other than the client closes the file, and stays as it is when the client
  (or a kernel thread, with process id 0) does. The lower file is released only in the second case:
  for every other process the reference taken by the open is never given back, since its release is
  tied to the lower path being absent. Messages that arrive meanwhile are well formed; the client may
  answer anything or nothing.
\<close>

theorem release_frees:
  assumes "nlmsg_put_fits K" "msgs_ok K" "chan_ok s" "heap s inode = Some (B_inode y)"
    and "private_data s f = fi" "heap s fi = Some (B_file x)" "heap s f = None"
    and "heap s (file_path_buf x) = Some (B_raw b)" "file_path x = file_path_buf x"
      "file_path_length x \<le> int (length b)"
    and "\<And>w. rv (fst (K (K_load F_f_dentry f) w)) = d" "path_of s d = Some (ld, lm)" "lm \<noteq> 0"
    and "other \<longleftrightarrow> cur_pid s \<noteq> 0 \<and> cur_pid s \<noteq> client_pid s"
    and "run_state (teadfs_release K inode f) s = (rc, t)"
  shows "rc = 0 \<and> faults t = faults s \<and> private_data t f = 0 \<and> heap t fi = None \<and> heap t (file_path_buf x) = None \<and>
    heap t inode = Some (B_inode (if other then y\<lparr>lower_file_count := lower_file_count y - 1\<rparr> else y)) \<and>
    (\<forall>p. heap s p \<noteq> None \<longrightarrow> p \<notin> set (msg_ctx_queue s) \<union> {inode, fi, file_path_buf x} \<longrightarrow> heap t p = heap s p) \<and>
    fputs (trace t) = fputs (trace s) @ (if other then [] else [lower_file x])"
proof -
  have n: "inode \<noteq> 0" "fi \<noteq> 0" "file_path_buf x \<noteq> 0"
    using assms(4,6,8) heap_ok_null [OF chan_ok_heap [OF assms(3)]] by auto
  have q: "fi \<notin> set (msg_ctx_queue s)" "file_path_buf x \<notin> set (msg_ctx_queue s)"
    "fi \<noteq> inode" "file_path_buf x \<noteq> inode" "file_path_buf x \<noteq> fi"
    using chan_okD [OF assms(3)] assms(4,6,8) by fastforce+
  have "wp (teadfs_put_lower_file K inode f) (\<lambda>_. closed s inode
      (if other then y\<lparr>lower_file_count := lower_file_count y - 1\<rparr> else y)
      (if other then [] else [lower_file x])) s"
    using assms(8-10) by (intro put_lower_file_closed [OF assms(1-4) n(1) assms(5-7) _ assms(11-14)]) auto
  then have "wp (teadfs_release K inode f) (\<lambda>rc t.
      rc = 0 \<and> faults t = faults s \<and> private_data t f = 0 \<and> heap t fi = None \<and> heap t (file_path_buf x) = None \<and>
      heap t inode = Some (B_inode (if other then y\<lparr>lower_file_count := lower_file_count y - 1\<rparr> else y)) \<and>
      (\<forall>p. heap s p \<noteq> None \<longrightarrow> p \<notin> set (msg_ctx_queue s) \<union> {inode, fi, file_path_buf x} \<longrightarrow> heap t p = heap s p) \<and>
      fputs (trace t) = fputs (trace s) @ (if other then [] else [lower_file x])) s"
    using assms(5) n(2) unfolding teadfs_release_def teadfs_file_to_private_def
    apply (simp add: wp_bind wp_State wp_ret split del: if_split)
    apply (erule wp_mono)
    using n q assms(6,8)
    by (auto simp: closed_def wp_simps teadfs_set_file_private_def split del: if_split)
  then show ?thesis by (rule wp_run [OF _ assms(15)])
qed

text \<open>An open file \<open>30\<close> of a connected client's module, closed by another process.\<close>

definition closing_st :: "unit st" where
  "closing_st = (boot_st ())\<lparr>heap := [1 \<mapsto> B_dentry \<lparr>lower_path_dentry = 7, lower_path_mnt = 8\<rparr>,
       2 \<mapsto> B_inode (zero_inode_info\<lparr>lower_file_count := 1\<rparr>),
       3 \<mapsto> B_file \<lparr>lower_file = 9, access = OFR_DECRYPT, file_path = 4, file_path_length = 3, file_path_buf = 4\<rparr>,
       4 \<mapsto> B_raw [47, 97, 0]], brk := 5, client_connect := 1, client_pid := 50,
     d_fsdata := (\<lambda>_. 0)(1 := 1), private_data := (\<lambda>_. 0)(30 := 3)\<rparr>"

lemma closing_chan_ok: "chan_ok closing_st"
  by (simp add: chan_ok_def heap_ok_def closing_st_def boot_st_def)

theorem release_frees_witness:
  "heap (snd (run_state (teadfs_release calm_kernel 2 30) closing_st)) 3 = None \<and>
   heap (snd (run_state (teadfs_release calm_kernel 2 30) closing_st)) 4 = None \<and>
   fputs (trace (snd (run_state (teadfs_release calm_kernel 2 30) closing_st))) = []"
  using release_frees [OF calm_fits closing_chan_ok, of 2 "zero_inode_info\<lparr>lower_file_count := 1\<rparr>" 30 3
      "\<lparr>lower_file = 9, access = OFR_DECRYPT, file_path = 4, file_path_length = 3, file_path_buf = 4\<rparr>"
      "[47, 97, 0]" 1 7 8 True "fst (run_state (teadfs_release calm_kernel 2 30) closing_st)"
      "snd (run_state (teadfs_release calm_kernel 2 30) closing_st)"]
  by (simp add: closing_st_def boot_st_def path_of_def calm_kernel_def IS_ERR_def)

end
