(* ===== verification/Forward_Props.thy ===== *)
theory Forward_Props
  imports Stack_Monitors
begin

text \<open>
  Transparency of the directory operations (\<open>inode.c\<close>): each of them calls the lower file system
  exactly once, with the lower objects that belong to its arguments, and hands its error on.
\<close>

section \<open>Calls of the lower file system\<close>

fun vfs_of :: "(kcall \<times> int) list \<Rightarrow> (vfs_call \<times> int) list" where
  "vfs_of [] = []"
| "vfs_of ((K_vfs c, r) # cs) = (c, r) # vfs_of cs"
| "vfs_of (_ # cs) = vfs_of cs"

lemma vfs_of_append [simp]: "vfs_of (xs @ ys) = vfs_of xs @ vfs_of ys"
  by (induction xs rule: vfs_of.induct) simp_all

text \<open>The monitor that rejects calls of the lower file system.\<close>

fun silent_step :: "unit monitor" where
  "silent_step H (K_vfs c, r) = None"
| "silent_step H _ = Some H"

interpretation si: upper_monitor silent_step
  by unfold_locales simp_all

lemma silent_run: "mon_run silent_step H cs = Some H' \<Longrightarrow> vfs_of cs = []"
  by (induction cs arbitrary: H rule: vfs_of.induct) simp_all

abbreviation silent :: "('w, 'a) op \<Rightarrow> bool" where
  "silent m \<equiv> mon silent_step () m (\<lambda>_. ())"

lemma silent_helpers [mon_intros]:
  "(\<And>p. c \<noteq> K_dget_parent p) \<Longrightarrow> silent (ref K c)"
  "silent (unlock_dir K dir)"
  unfolding unlock_dir_def ref_def by (rule mon_intros | simp)+

section \<open>What an operation returns\<close>

definition yields :: "('w, 'a) op \<Rightarrow> ('a \<Rightarrow> bool) \<Rightarrow> bool" where
  "yields m P \<longleftrightarrow> (\<forall>s. P (fst (run_state m s)))"

named_theorems yields_intros \<open>what an operation returns, by its last step\<close>

lemma yields_rules [yields_intros]:
  "P a \<Longrightarrow> yields (ret a) P"
  "(b \<Longrightarrow> yields m P) \<Longrightarrow> (\<not> b \<Longrightarrow> yields n P) \<Longrightarrow> yields (if b then m else n) P"
  by (simp_all add: yields_def)

lemma yields_bind: "(\<And>a. yields (f a) P) \<Longrightarrow> yields (State_Monad.bind m f) P"
  by (simp add: yields_def split_beta)

lemma yields_bind_if: "b \<Longrightarrow> yields (State_Monad.bind m f) P \<Longrightarrow> yields (State_Monad.bind (if b then m else n) f) P"
  by simp

lemma yields_bind_assoc:
  "yields (State_Monad.bind m (\<lambda>a. State_Monad.bind (f a) g)) P \<Longrightarrow> yields (State_Monad.bind (State_Monad.bind m f) g) P"
  by simp

lemma yields_bind_ret: "yields (f a) P \<Longrightarrow> yields (State_Monad.bind (ret a) f) P"
  by simp

lemma silent_wp:
  assumes "silent m" "yields m P"
    and "\<And>a t. P a \<Longrightarrow> vfs_of (trace t) = vfs_of (trace s) \<Longrightarrow> Q a t"
  shows "wp m Q s"
  using mon_wp [OF assms(1), of s] assms(2,3) unfolding wp_def yields_def by (auto dest!: silent_run)

section \<open>Up to the call of the lower file system\<close>

text \<open>
  \<open>early s t\<close>: nothing was called in the lower file system and the module's memory is as in \<open>s\<close>.
\<close>

definition early :: "'w st \<Rightarrow> 'w st \<Rightarrow> bool" where
  "early s t \<longleftrightarrow> vfs_of (trace t) = vfs_of (trace s) \<and> heap t = heap s \<and> d_fsdata t = d_fsdata s"

lemma early_refl [simp]: "early s s"
  by (simp add: early_def)

named_theorems early_rules \<open>steps before the call of the lower file system\<close>

lemma early_path [early_rules]:
  assumes "early s t" "path_of s d = Some p" "\<And>u. early s u \<Longrightarrow> wp (f p) Q u"
  shows "wp (teadfs_get_lower_path d \<bind> f) Q t"
proof -
  have "path_of t d = Some p" using assms(1,2) by (simp add: path_of_def early_def)
  then show ?thesis using assms(1,3) by (simp add: wp_bind wp_get_lower_path early_def)
qed

lemma early_call:
  assumes "early s t" "\<And>r u. early s u \<Longrightarrow> r = rv (fst (K c (world t))) \<Longrightarrow> wp (f r) Q u" "vfs_of [(c, 0)] = []"
  shows "wp (call_rv K c \<bind> f) Q t"
proof -
  have "vfs_of [(c, r)] = []" for r using assms(3) by (cases c) simp_all
  then show ?thesis using assms(1,2) by (simp add: wp_bind wp_simps wp_call call_rv_def early_def)
qed

lemma early_d_inode [early_rules]:
  assumes "early s t" "\<And>r u. early s u \<Longrightarrow> r = rv (fst (K (K_load F_d_inode d) (world t))) \<Longrightarrow> wp (f r) Q u"
  shows "wp (d_inode K d \<bind> f) Q t"
  unfolding d_inode_def by (rule early_call [OF assms]) simp_all

lemma early_lock_parent [early_rules]:
  assumes "early s t" "\<And>r u. early s u \<Longrightarrow> r = rv (fst (K (K_ref (K_dget_parent d)) (world t))) \<Longrightarrow> wp (f r) Q u"
  shows "wp (lock_parent K d \<bind> f) Q t"
  using assms unfolding lock_parent_def by (simp add: wp_simps wp_call call_rv_def early_def)

lemma early_silent [early_rules]:
  assumes "early s t" "\<And>u. early s u \<Longrightarrow> wp f Q u"
  shows "wp (ref K c \<bind> (\<lambda>_. f)) Q t" "wp (emit (K_lock l) \<bind> (\<lambda>_. f)) Q t"
  using assms unfolding ref_def by (simp_all add: wp_simps wp_call early_def)

lemma early_size [early_rules]:
  "early s t \<Longrightarrow> (\<And>n u. early s u \<Longrightarrow> wp (f n) Q u) \<Longrightarrow> wp (i_size_read i \<bind> f) Q t"
  unfolding i_size_read_def by (simp add: wp_simps)

lemma early_to_lower [early_rules]:
  assumes "early s t" "heap s i = Some (B_inode y)" "\<And>u. early s u \<Longrightarrow> wp (f (lower_inode y)) Q u"
  shows "wp (teadfs_inode_to_lower i \<bind> f) Q t"
  using assms unfolding teadfs_inode_to_lower_def by (simp add: wp_simps early_def)

lemma early_if: "\<not> b \<Longrightarrow> wp (n \<bind> f) Q t \<Longrightarrow> wp ((if b then m else n) \<bind> f) Q t"
  by simp

lemma early_assoc: "wp (m \<bind> (\<lambda>a. f a \<bind> g)) Q t \<Longrightarrow> wp ((m \<bind> f) \<bind> g) Q t"
  by simp

section \<open>Forwarding\<close>

text \<open>
  \<open>forwards s m c\<close>: run in \<open>s\<close>, the operation calls the lower file system once, by \<open>c\<close>, and returns
  its error if there is one. \<open>relays s m c\<close>: it returns its code in any case.
\<close>

definition forwards :: "'w st \<Rightarrow> ('w, int) op \<Rightarrow> vfs_call \<Rightarrow> bool" where
  "forwards s m c \<longleftrightarrow> wp m (\<lambda>rc t. \<exists>r. vfs_of (trace t) = vfs_of (trace s) @ [(c, r)] \<and> (r \<noteq> 0 \<longrightarrow> rc = r)) s"

definition relays :: "'w st \<Rightarrow> ('w, int) op \<Rightarrow> vfs_call \<Rightarrow> bool" where
  "relays s m c \<longleftrightarrow> wp m (\<lambda>rc t. vfs_of (trace t) = vfs_of (trace s) @ [(c, rc)]) s"

lemma vfs_call_forward:
  assumes "early s t" "\<And>r. silent (f r)" "\<And>r. r \<noteq> 0 \<Longrightarrow> yields (f r) (\<lambda>rc. rc = r)"
  shows "wp (call_rv K (K_vfs c) \<bind> f)
    (\<lambda>rc t. \<exists>r. vfs_of (trace t) = vfs_of (trace s) @ [(c, r)] \<and> (r \<noteq> 0 \<longrightarrow> rc = r)) t"
proof -
  have "wp (f r) (\<lambda>rc t. \<exists>r. vfs_of (trace t) = vfs_of (trace s) @ [(c, r)] \<and> (r \<noteq> 0 \<longrightarrow> rc = r)) u"
    if "vfs_of (trace u) = vfs_of (trace s) @ [(c, r)]" for u r
    by (rule silent_wp [OF assms(2), where P = "\<lambda>rc. r \<noteq> 0 \<longrightarrow> rc = r"])
      (use assms(3) that in \<open>auto simp: yields_def\<close>)
  then show ?thesis using assms(1) by (simp add: wp_bind wp_simps wp_call call_rv_def early_def)
qed

lemma vfs_call_relay:
  assumes "early s t" "\<And>r. silent (f r)" "\<And>r. yields (f r) (\<lambda>rc. rc = r)"
  shows "wp (call_rv K (K_vfs c) \<bind> f) (\<lambda>rc t. vfs_of (trace t) = vfs_of (trace s) @ [(c, rc)]) t"
proof -
  have "wp (f r) (\<lambda>rc t. vfs_of (trace t) = vfs_of (trace s) @ [(c, rc)]) u"
    if "vfs_of (trace u) = vfs_of (trace s) @ [(c, r)]" for u r
    by (rule silent_wp [OF assms(2,3)]) (use that in auto)
  then show ?thesis using assms(1) by (simp add: wp_bind wp_simps wp_call call_rv_def early_def)
qed

text \<open>
  The lower objects: the dentry \<open>d\<close> lies over \<open>ld\<close>, whose parent directory \<open>pd\<close> has the inode \<open>di\<close>.
\<close>

definition lower_objs :: "'w kernel \<Rightarrow> 'w st \<Rightarrow> ptr \<Rightarrow> ptr \<Rightarrow> ptr \<Rightarrow> ptr \<Rightarrow> bool" where
  "lower_objs K s d ld pd di \<longleftrightarrow> (\<exists>lm. path_of s d = Some (ld, lm)) \<and>
     (\<forall>w. rv (fst (K (K_ref (K_dget_parent ld)) w)) = pd) \<and> (\<forall>w. rv (fst (K (K_load F_d_inode pd) w)) = di)"

lemma lower_objsD:
  assumes "lower_objs K s d ld pd di"
  shows "\<exists>lm. path_of s d = Some (ld, lm)" "rv (fst (K (K_ref (K_dget_parent ld)) w)) = pd"
    "rv (fst (K (K_load F_d_inode pd) w)) = di"
  using assms by (auto simp: lower_objs_def)

lemma ops_forward:
  assumes o: "lower_objs K s d ld pd di" and o': "lower_objs K s d' ld' pd' di'"
  shows "forwards s (teadfs_mkdir K dir d mode) (K_vfs_mkdir di ld mode)"
    "forwards s (teadfs_mknod K dir d mode dev) (K_vfs_mknod di ld mode dev)"
    "forwards s (teadfs_symlink K dir d name) (K_vfs_symlink di ld name)"
    "forwards s (teadfs_link K d' dir d) (K_vfs_link ld' di ld)"
proof -
  obtain lm lm' where p: "path_of s d = Some (ld, lm)" "path_of s d' = Some (ld', lm')"
    using o o' by (auto simp: lower_objs_def)
  note steps = early_path [OF _ p(1)] early_path [OF _ p(2)] early_lock_parent early_d_inode early_silent early_size
    vfs_call_forward
  show "forwards s (teadfs_mkdir K dir d mode) (K_vfs_mkdir di ld mode)"
    "forwards s (teadfs_mknod K dir d mode dev) (K_vfs_mknod di ld mode dev)"
    "forwards s (teadfs_symlink K dir d name) (K_vfs_symlink di ld name)"
    "forwards s (teadfs_link K d' dir d) (K_vfs_link ld' di ld)"
    unfolding forwards_def teadfs_mkdir_def teadfs_mknod_def teadfs_symlink_def teadfs_link_def Let_def
    by ((rule steps, (assumption | rule early_refl)) | simp only: fst_conv lower_objsD(2,3) [OF o]
      | (rule yields_bind_if, (simp; fail)) | rule mon_intros yields_bind_ret yields_bind_assoc yields_bind yields_intros | simp)+
qed

lemma ops_relay:
  assumes o: "lower_objs K s d ld pd di" and o': "lower_objs K s d' ld' pd' di'" and y: "heap s dir = Some (B_inode y)"
  shows "relays s (teadfs_rmdir K dir d) (K_vfs_rmdir di ld)"
    "relays s (teadfs_unlink K dir d) (K_vfs_unlink (lower_inode y) ld)"
    "relays s (teadfs_permission K dir msk) (K_inode_permission (lower_inode y) msk)"
proof -
  obtain lm where p: "path_of s d = Some (ld, lm)" using o by (auto simp: lower_objs_def)
  note steps = early_path [OF _ p] early_lock_parent early_d_inode early_silent early_to_lower [OF _ y]
    vfs_call_relay
  show "relays s (teadfs_rmdir K dir d) (K_vfs_rmdir di ld)"
    "relays s (teadfs_unlink K dir d) (K_vfs_unlink (lower_inode y) ld)"
    unfolding relays_def teadfs_rmdir_def teadfs_unlink_def Let_def
    by ((rule steps, (assumption | rule early_refl)) | simp only: fst_conv lower_objsD(2,3) [OF o]
      | (rule yields_bind_if, (simp; fail)) | rule mon_intros yields_bind_ret yields_bind_assoc yields_bind yields_intros | simp)+
  show "relays s (teadfs_permission K dir msk) (K_inode_permission (lower_inode y) msk)"
    using y unfolding relays_def teadfs_permission_def teadfs_inode_to_lower_def
    by (simp add: wp_simps wp_call call_rv_def)
qed

text \<open>Renaming, unless one of the dentries is an ancestor of the other.\<close>

lemma rename_relays:
  assumes o: "lower_objs K s d ld pd di" and o': "lower_objs K s d' ld' pd' di'"
    and t: "\<And>w. rv (fst (K (K_dcache (K_lock_rename pd pd')) w)) \<noteq> ld"
      "\<And>w. rv (fst (K (K_dcache (K_lock_rename pd pd')) w)) \<noteq> ld'"
  shows "relays s (teadfs_rename K od d nd d') (K_vfs_rename di ld di' ld')"
proof -
  obtain lm lm' where p: "path_of s d = Some (ld, lm)" "path_of s d' = Some (ld', lm')"
    using o o' by (auto simp: lower_objs_def)
  note steps = early_path [OF _ p(1)] early_path [OF _ p(2)] early_d_inode early_silent vfs_call_relay early_call
  show ?thesis
    unfolding relays_def teadfs_rename_def Let_def
    by ((rule steps, (assumption | rule early_refl)) | simp only: fst_conv lower_objsD(2,3) [OF o] lower_objsD(2,3) [OF o']
      | (rule early_if, (simp add: t; fail)) | rule early_assoc | (rule yields_bind_if, (simp; fail))
      | rule mon_intros yields_bind_ret yields_bind_assoc yields_bind yields_intros | simp)+
qed

text \<open>Extended attributes, where the lower inode has the method.\<close>

lemma xattr_relays:
  assumes p: "\<exists>lm. path_of s d = Some (ld, lm)"
    and has: "\<And>w. rv (fst (K (K_load F_op_getxattr ld) w)) \<noteq> 0" "\<And>w. rv (fst (K (K_load F_op_listxattr ld) w)) \<noteq> 0"
      "\<And>w. rv (fst (K (K_load F_op_removexattr ld) w)) \<noteq> 0" "\<And>w. rv (fst (K (K_load F_op_setxattr ld) w)) \<noteq> 0"
  shows "relays s (teadfs_getxattr K d name n) (K_getxattr ld name n)"
    "relays s (teadfs_listxattr K d n) (K_listxattr ld n)"
    "relays s (teadfs_removexattr K d name) (K_removexattr ld name)"
    "relays s (teadfs_setxattr K d name val flags) (K_vfs_setxattr ld name val flags)"
proof -
  obtain lm where q: "path_of s d = Some (ld, lm)" using p by blast
  show "relays s (teadfs_getxattr K d name n) (K_getxattr ld name n)"
    "relays s (teadfs_listxattr K d n) (K_listxattr ld n)"
    "relays s (teadfs_removexattr K d name) (K_removexattr ld name)"
    "relays s (teadfs_setxattr K d name val flags) (K_vfs_setxattr ld name val flags)"
    unfolding relays_def teadfs_getxattr_def teadfs_listxattr_def teadfs_removexattr_def xattr_method_def
      teadfs_setxattr_def Let_def
    by ((rule early_path [OF _ q] early_silent vfs_call_relay early_call, (assumption | rule early_refl)) | simp only: fst_conv
      | (rule early_if, (simp add: has; fail)) | rule early_assoc | (rule yields_bind_if, (simp; fail))
      | rule mon_intros yields_bind_ret yields_bind_assoc yields_bind yields_intros | simp)+
qed

text \<open>
  Creating a file: when the upper inode cannot be had, the new lower file is removed again, and
  the operation still returns the 0 of \<open>vfs_create\<close>.
\<close>

definition creates :: "'w st \<Rightarrow> ('w, int) op \<Rightarrow> vfs_call \<Rightarrow> vfs_call \<Rightarrow> bool" where
  "creates s m c undo \<longleftrightarrow> wp m (\<lambda>rc t. vfs_of (trace t) = vfs_of (trace s) @ [(c, rc)] \<or>
     rc = 0 \<and> (\<exists>r. vfs_of (trace t) = vfs_of (trace s) @ [(c, 0), (undo, r)])) s"

lemma silent_bind:
  assumes "silent m" "\<And>a t. vfs_of (trace t) = vfs_of (trace s) \<Longrightarrow> wp (f a) Q t"
  shows "wp (m \<bind> f) Q s"
  unfolding wp_bind by (rule silent_wp [OF assms(1), where P = "\<lambda>_. True"]) (simp_all add: yields_def assms(2))

lemma create_rest:
  assumes pd: "\<And>w. rv (fst (K (K_load F_d_inode pd) w)) = di"
    and u: "vfs_of (trace u) = V @ [(c, r)]"
  shows "wp ((if r \<noteq> 0 then ret ()
      else do {
        li \<leftarrow> d_inode K ld;
        sb \<leftarrow> call_rv K (K_load F_i_sb dir);
        (inode, new) \<leftarrow> teadfs_get_inode_locked K li sb;
        if IS_ERR inode then do {
          pi' \<leftarrow> d_inode K pd;
          call K (K_vfs (K_vfs_unlink pi' ld));
          ret ()
        }
        else do {
          copy_dir_attrs K dir pd;
          dcache K (K_unlock_new_inode inode);
          dcache K (K_d_instantiate d inode)
        }
      }) \<bind> (\<lambda>_. do { unlock_dir K pd; teadfs_put_lower_path d; ret r }))
    (\<lambda>rc t. vfs_of (trace t) = V @ [(c, rc)] \<or>
       rc = 0 \<and> (\<exists>q. vfs_of (trace t) = V @ [(c, 0), (K_vfs_unlink di ld, q)])) u"
    (is "wp ((if _ then _ else ?m) \<bind> _) ?Q u")
proof -
  let ?last = "do { unlock_dir K pd; teadfs_put_lower_path d; ret r }"
  have last: "wp ?last Q t" if "\<And>v. vfs_of (trace v) = vfs_of (trace t) \<Longrightarrow> Q r v" for Q t
    by (rule silent_wp [where P = "\<lambda>rc. rc = r"])
      (rule mon_intros yields_bind yields_intros that | simp add: that)+
  have kept: "wp ?last ?Q t" if "vfs_of (trace t) = vfs_of (trace u)" for t
    by (rule last) (simp add: that u)
  have undo: "wp (do { pi' \<leftarrow> d_inode K pd; call K (K_vfs (K_vfs_unlink pi' ld)); ?last }) ?Q t"
    if "vfs_of (trace t) = vfs_of (trace u)" "r = 0" for t
    unfolding d_inode_def call_rv_def
    by (simp add: wp_bind wp_call wp_ret pd) (rule last [unfolded wp_bind wp_ret], simp add: that u)
  have branch: "wp ((if IS_ERR inode then do { pi' \<leftarrow> d_inode K pd; call K (K_vfs (K_vfs_unlink pi' ld)); ret () }
      else do { copy_dir_attrs K dir pd; dcache K (K_unlock_new_inode inode); dcache K (K_d_instantiate d inode) })
      \<bind> (\<lambda>_. ?last)) ?Q t"
    if t: "vfs_of (trace t) = vfs_of (trace u)" "r = 0" for t inode
  proof (cases "IS_ERR inode")
    case True
    then show ?thesis using undo [OF t] by simp
  next
    case False
    have "silent (do { copy_dir_attrs K dir pd; dcache K (K_unlock_new_inode inode); dcache K (K_d_instantiate d inode) })"
      by (rule mon_intros | simp)+
    moreover have "wp ?last ?Q v" if "vfs_of (trace v) = vfs_of (trace t)" for v
      by (rule kept) (simp add: that t(1))
    ultimately show ?thesis using False by (simp only: if_False) (rule silent_bind)
  qed
  have iget: "silent (teadfs_get_inode_locked K li sb)" for li sb by (rule mon_intros)
  have load: "silent (d_inode K x)" "silent (call_rv K (K_load F_i_sb x))" for x by (rule mon_intros | simp)+
  show ?thesis
  proof (cases "r = 0")
    case False
    then show ?thesis using kept [of u] by simp
  next
    case True
    have "wp (?m \<bind> (\<lambda>_. ?last)) ?Q u"
      apply (rule early_assoc, rule silent_bind [OF load(1)])
      apply (rule early_assoc, rule silent_bind [OF load(2)])
      apply (rule early_assoc, rule silent_bind [OF iget])
      apply (simp only: prod.case_distrib split_beta)
      apply (rule branch)
       apply (simp_all add: True)
      done
    then show ?thesis using True by simp
  qed
qed

lemma create_creates:
  assumes o: "lower_objs K s d ld pd di" and e: "\<not> IS_ERR pd"
  shows "creates s (teadfs_create K dir d mode ex) (K_vfs_create di ld mode ex) (K_vfs_unlink di ld)"
proof -
  obtain lm where p: "path_of s d = Some (ld, lm)" using o by (auto simp: lower_objs_def)
  show ?thesis
    unfolding creates_def teadfs_create_def Let_def
    apply (rule early_path [OF early_refl p])
    apply (simp only: fst_conv)
    apply (rule early_lock_parent, assumption)
    apply (simp only: lower_objsD(2,3) [OF o] e if_False not_False_eq_True if_True)
    apply (rule early_assoc)
    apply (rule early_d_inode, assumption)
    apply (simp only: lower_objsD(2,3) [OF o])
    apply (rule early_assoc)
    apply (simp only: wp_bind [of "call_rv K (K_vfs c)" for c])
    apply (rule wp_call_rvI)
    apply (simp only: State_Monad.bind_assoc State_Monad.bind_left_identity)
    apply (rule create_rest)
    apply (simp_all add: early_def lower_objsD(3) [OF o])
    done
qed

section \<open>Properties\<close>

text \<open>
  C12: operations on directory entries, permissions and extended attributes are
  transparent. Making a directory, a device node, a symbolic or a hard link, removing, renaming,
  checking a permission and the four attribute operations call the lower file system exactly once,
  with the lower dentry of the argument and the inode of that dentry's parent, and return the lower
  error if there is one; removing, renaming, permissions and the attribute operations return the
  lower code in every case. Creating a file hands on the lower error too, but without an upper inode
  it makes a second call, which removes the new lower file again, and reports success. Renaming is
  covered for entries that are not ancestors of each other, the attribute operations for a lower
  inode that has them.
\<close>

theorem ops_forwarded:
  assumes "lower_objs K s d ld pd di" "lower_objs K s d' ld' pd' di'" "heap s dir = Some (B_inode y)" "\<not> IS_ERR pd"
    and "\<And>w. rv (fst (K (K_dcache (K_lock_rename pd pd')) w)) \<noteq> ld"
      "\<And>w. rv (fst (K (K_dcache (K_lock_rename pd pd')) w)) \<noteq> ld'"
    and "\<And>w. rv (fst (K (K_load F_op_getxattr ld) w)) \<noteq> 0" "\<And>w. rv (fst (K (K_load F_op_listxattr ld) w)) \<noteq> 0"
      "\<And>w. rv (fst (K (K_load F_op_removexattr ld) w)) \<noteq> 0" "\<And>w. rv (fst (K (K_load F_op_setxattr ld) w)) \<noteq> 0"
  shows "creates s (teadfs_create K dir d mode ex) (K_vfs_create di ld mode ex) (K_vfs_unlink di ld) \<and>
    forwards s (teadfs_mkdir K dir d mode) (K_vfs_mkdir di ld mode) \<and>
    forwards s (teadfs_mknod K dir d mode dev) (K_vfs_mknod di ld mode dev) \<and>
    forwards s (teadfs_symlink K dir d name) (K_vfs_symlink di ld name) \<and>
    forwards s (teadfs_link K d' dir d) (K_vfs_link ld' di ld) \<and>
    relays s (teadfs_rmdir K dir d) (K_vfs_rmdir di ld) \<and>
    relays s (teadfs_unlink K dir d) (K_vfs_unlink (lower_inode y) ld) \<and>
    relays s (teadfs_rename K od d nd d') (K_vfs_rename di ld di' ld') \<and>
    relays s (teadfs_permission K dir msk) (K_inode_permission (lower_inode y) msk) \<and>
    relays s (teadfs_getxattr K d name n) (K_getxattr ld name n) \<and>
    relays s (teadfs_listxattr K d n) (K_listxattr ld n) \<and>
    relays s (teadfs_removexattr K d name) (K_removexattr ld name) \<and>
    relays s (teadfs_setxattr K d name val flags) (K_vfs_setxattr ld name val flags)"
  by (intro conjI create_creates [OF assms(1,4)] ops_forward [OF assms(1,2)] ops_relay [OF assms(1-3)]
      rename_relays [OF assms(1,2,5,6)] xattr_relays [OF lower_objsD(1) [OF assms(1)] assms(7-10)])

text \<open>Two dentries, \<open>20\<close> over the lower dentry \<open>7\<close> and \<open>21\<close> over \<open>8\<close>, in the directory \<open>3\<close>.\<close>

definition dir_st :: "unit st" where
  "dir_st = (boot_st ())\<lparr>heap := [1 \<mapsto> B_dentry \<lparr>lower_path_dentry = 7, lower_path_mnt = 4\<rparr>,
       2 \<mapsto> B_dentry \<lparr>lower_path_dentry = 8, lower_path_mnt = 4\<rparr>, 3 \<mapsto> B_inode (zero_inode_info\<lparr>lower_inode := 9\<rparr>)],
     brk := 4, d_fsdata := (\<lambda>_. 0)(20 := 1, 21 := 2)\<rparr>"

theorem ops_forwarded_witness:
  "forwards dir_st (teadfs_mkdir calm_kernel 3 20 493) (K_vfs_mkdir 1 7 493) \<and>
   relays dir_st (teadfs_unlink calm_kernel 3 20) (K_vfs_unlink 9 7) \<and>
   relays dir_st (teadfs_rename calm_kernel 3 20 3 21) (K_vfs_rename 1 7 1 8)"
  using ops_forwarded [of calm_kernel dir_st 20 7 1 1 21 8 1 1 3 "zero_inode_info\<lparr>lower_inode := 9\<rparr>" 493 True 0 "[]" 3 3 0 0 "[]" 0]
  by (simp add: dir_st_def lower_objs_def path_of_def calm_kernel_def IS_ERR_def)

end
