(* ===== verification/Stacking_Props.thy ===== *)
theory Stacking_Props
  imports Module_Main
begin

text \<open>
  The stacking of the upper on the lower file system (\<open>lookup.c\<close>, \<open>main.c\<close>): what a lookup and a
  mount leave behind. Upper objects are hooked onto the lower objects they stand for, and what
  a failed operation built is taken down again.
\<close>

section \<open>Growing memory\<close>

text \<open>The calls that make an object visible and those that take a path or give it back.\<close>

fun is_mark :: "kcall \<Rightarrow> bool" where
  "is_mark (K_dcache (K_d_add d i)) = True"
| "is_mark (K_dcache (K_d_make_root i)) = True"
| "is_mark (K_ref (K_path_put d m)) = True"
| "is_mark (K_sb (K_kern_path name)) = True"
| "is_mark _ = False"

definition marks :: "'w st \<Rightarrow> kcall list" where
  "marks s = filter is_mark (map fst (trace s))"

text \<open>
  \<open>extends s t\<close>: since \<open>s\<close> only new memory was written, no fault occurred and nothing was marked.
\<close>

definition extends :: "'w st \<Rightarrow> 'w st \<Rightarrow> bool" where
  "extends s t \<longleftrightarrow> faults t = faults s \<and> d_fsdata t = d_fsdata s \<and> s_fs_info t = s_fs_info s \<and> marks t = marks s \<and>
     heap_ok t \<and> brk s \<le> brk t \<and> (\<forall>p. p < brk s \<longrightarrow> heap t p = heap s p)"

lemma extends_refl: "heap_ok s \<Longrightarrow> extends s s"
  by (simp add: extends_def)

lemma marks_call [simp]:
  "marks (s\<lparr>trace := trace s @ cs\<rparr>) = marks s @ filter is_mark (map fst cs)"
  "marks (s\<lparr>world := w\<rparr>) = marks s" "marks (s\<lparr>heap := h\<rparr>) = marks s" "marks (s\<lparr>brk := b\<rparr>) = marks s"
  "marks (s\<lparr>i_size := z\<rparr>) = marks s" "marks (s\<lparr>d_fsdata := f\<rparr>) = marks s" "marks (s\<lparr>s_fs_info := f\<rparr>) = marks s"
  "marks (s\<lparr>dead := e\<rparr>) = marks s"
  by (simp_all add: marks_def)

lemma extends_trans: "extends s t \<Longrightarrow> extends t u \<Longrightarrow> extends s u"
  by (auto simp: extends_def)

text \<open>The part of the state that \<open>extends\<close> is about; most calls keep it.\<close>

definition core :: "'w st \<Rightarrow> _" where
  "core s = (faults s, heap s, brk s, d_fsdata s, s_fs_info s, marks s)"

lemma core_eq:
  "core u = core t \<longleftrightarrow> faults u = faults t \<and> heap u = heap t \<and> brk u = brk t \<and> d_fsdata u = d_fsdata t \<and>
     s_fs_info u = s_fs_info t \<and> marks u = marks t"
  by (auto simp: core_def)

lemma extends_core: "core u = core t \<Longrightarrow> extends s u = extends s t"
  by (simp add: core_eq extends_def heap_ok_def)

lemma keeps_core_call [keeps_intros]:
  assumes "\<not> is_mark c"
  shows "keeps core (call K c)" "keeps core (call_rv K c)"
  using assms by (simp_all add: keeps_def core_eq marks_def call_rv_def run_call split_beta)

lemma keeps_core_emit [keeps_intros]: "\<not> is_mark c \<Longrightarrow> keeps core (emit c)"
  by (simp add: keeps_def core_eq marks_def emit_def)

lemma keeps_core_size [keeps_intros]:
  "keeps core (i_size_write i n)" "keeps core (fsstack_copy_inode_size K i l)"
proof -
  show w: "keeps core (i_size_write i n)" for n by (simp add: keeps_def core_eq marks_def i_size_write_def)
  show "keeps core (fsstack_copy_inode_size K i l)"
    unfolding fsstack_copy_inode_size_def by (rule keeps_intros w | simp)+
qed

lemma core_step:
  "core t = c \<Longrightarrow> keeps core m \<Longrightarrow> (\<And>a u. core u = c \<Longrightarrow> Q a u) \<Longrightarrow> wp m Q t"
  by (simp add: keeps_def wp_def)

lemma wp_call_rv_core:
  "\<not> is_mark c \<Longrightarrow> (\<And>u. core u = core t \<Longrightarrow> Q (rv (fst (K c (world t)))) u) \<Longrightarrow> wp (call_rv K c) Q t"
  by (simp add: call_rv_def wp_bind wp_ret wp_call core_eq marks_def)

lemma wp_call_rv_mark:
  "(\<And>u. core u = core (t\<lparr>trace := trace t @ [(c, rv (fst (K c (world t))))]\<rparr>) \<Longrightarrow> Q (rv (fst (K c (world t)))) u) \<Longrightarrow>
     wp (call_rv K c) Q t"
  by (simp add: call_rv_def wp_bind wp_ret wp_call core_eq marks_def)

lemma zalloc_ext:
  assumes "heap_ok t"
    and "\<And>u. core u = core t \<Longrightarrow> Q 0 u"
    and "\<And>u. core u = core (t\<lparr>heap := (heap t)(brk t \<mapsto> blk), brk := brk t + 1\<rparr>) \<Longrightarrow> Q (brk t) u"
  shows "wp (teadfs_zalloc K n blk) Q t"
  by (rule wp_zallocI) (rule assms; simp add: core_eq marks_def)+

lemma extends_new:
  assumes "extends s t"
  shows "extends s (t\<lparr>heap := (heap t)(brk t \<mapsto> blk), brk := brk t + 1\<rparr>)"
proof -
  let ?u = "t\<lparr>heap := (heap t)(brk t \<mapsto> blk), brk := brk t + 1\<rparr>"
  have t: "0 < brk t" "\<And>p. heap t p \<noteq> None \<Longrightarrow> 0 < p \<and> p < brk t"
    using assms by (auto simp: extends_def heap_ok_def)
  have "0 < p \<and> p < brk ?u" if "heap ?u p \<noteq> None" for p
    by (cases "p = brk t") (use that t(1) t(2) [of p] in simp_all)
  moreover have "0 < brk ?u" using t(1) by simp
  ultimately have "heap_ok ?u" unfolding heap_ok_def by blast
  then show ?thesis using assms by (simp add: extends_def)
qed

lemma extends_upd:
  assumes "extends s t" "heap t p \<noteq> None" "brk s \<le> p"
  shows "extends s (t\<lparr>heap := (heap t)(p \<mapsto> blk)\<rparr>)"
  using assms unfolding extends_def heap_ok_def by (auto simp del: not_None_eq)

section \<open>The upper inode of a lower inode\<close>

definition upper_of :: "'w st \<Rightarrow> ptr \<Rightarrow> ptr \<Rightarrow> bool" where
  "upper_of s inode lower \<longleftrightarrow> (\<exists>y. heap s inode = Some (B_inode y) \<and> lower_inode y = lower)"

lemma upper_of_valid: "upper_of s i l \<Longrightarrow> heap_ok s \<Longrightarrow> 0 < i"
  unfolding upper_of_def heap_ok_def by blast

text \<open>The inodes that the kernel finds in its cache are the module's own.\<close>

definition cached_own :: "'w kernel \<Rightarrow> 'w st \<Rightarrow> bool" where
  "cached_own K s \<longleftrightarrow> (\<forall>sb l w. let r = rv (fst (K (K_dcache (K_iget5_locked sb l)) w))
     in r = 0 \<or> (\<exists>y. heap s r = Some (B_inode y)))"

lemma inode_set_ext:
  assumes "extends s t" "heap t i = Some (B_inode y)" "brk s \<le> i"
    and "\<And>a u. extends s u \<Longrightarrow> upper_of u i l \<Longrightarrow> Q a u"
  shows "wp (teadfs_inode_set K i l) Q t"
proof -
  let ?t = "t\<lparr>heap := (heap t)(i \<mapsto> B_inode (y\<lparr>lower_inode := l\<rparr>))\<rparr>"
  have e: "extends s ?t" by (rule extends_upd [OF assms(1)]) (use assms(2,3) in simp_all)
  have q: "Q a u" if "core u = core ?t" for a u
    by (rule assms(4)) (use e extends_core [OF that] that in \<open>simp_all add: core_eq upper_of_def\<close>)
  have s: "inode_of (heap t i) = Some y" using assms(2) by simp
  show ?thesis
    unfolding teadfs_inode_set_def teadfs_set_inode_lower_def
    apply (subst wp_bind)
    apply (simp only: wp_store [of inode_of, OF s])
    apply (rule keeps_wp [where g = core])
     apply (rule keeps_intros | simp only: is_mark.simps not_False_eq_True)+
    apply (erule q)
    done
qed

lemma alloc_inode_ext:
  assumes "extends s t"
    and "\<And>u. core u = core t \<Longrightarrow> Q 0 u"
    and "\<And>u y. extends s u \<Longrightarrow> heap u (brk t) = Some (B_inode y) \<Longrightarrow> 0 < brk t \<Longrightarrow> Q (brk t) u"
  shows "wp (teadfs_alloc_inode K) Q t"
proof -
  have t: "heap_ok t" "0 < brk t" using assms(1) by (simp_all add: extends_def heap_ok_def)
  let ?n = "t\<lparr>heap := (heap t)(brk t \<mapsto> B_inode zero_inode_info), brk := brk t + 1\<rparr>"
  have "Q (brk t) (u\<lparr>heap := (heap u)(brk t \<mapsto> B_inode x), i_size := z\<rparr>)" if "core u = core ?n" for u x z
  proof (rule assms(3) [OF _ _ t(2)])
    have "extends s (?n\<lparr>heap := (heap ?n)(brk t \<mapsto> B_inode x)\<rparr>)"
      by (rule extends_upd [OF extends_new [OF assms(1)]]) (use assms(1) in \<open>simp_all add: extends_def\<close>)
    then show "extends s (u\<lparr>heap := (heap u)(brk t \<mapsto> B_inode x), i_size := z\<rparr>)"
      by (rule extends_core [THEN iffD2, rotated]) (use that in \<open>simp add: core_eq\<close>)
  qed simp
  then show ?thesis
    unfolding teadfs_alloc_inode_def wp_bind
    by (intro zalloc_ext t(1)) (use assms(2) t(2) in \<open>auto simp: wp_simps core_eq\<close>)
qed

lemma iget_ext:
  fixes s :: "'w st"
  assumes "extends s t" "cached_own K s" "heap_ok s"
    and none: "\<And>u. extends s u \<Longrightarrow> Q (0, False) u"
    and got: "\<And>u i new. extends s u \<Longrightarrow> upper_of u i l \<Longrightarrow> Q (i, new) u"
  shows "wp (iget5_locked K sb l) Q t"
proof -
  let ?r = "rv (fst (K (K_dcache (K_iget5_locked sb l)) (world t)))"
  have new: "wp (do {
      inode \<leftarrow> teadfs_alloc_inode K;
      if inode = 0 then ret (0, False) else do { teadfs_inode_set K inode l; ret (inode, True) } }) Q u"
    if u: "extends s u" for u
    unfolding wp_bind
  proof (rule alloc_inode_ext [OF u])
    fix v :: "'w st" assume "core v = core u"
    then have "extends s v" using u extends_core by blast
    then show "wp (if (0::ptr) = 0 then ret (0, False) else do { teadfs_inode_set K 0 l; ret (0, True) }) Q v"
      using none by (simp add: wp_simps)
  next
    fix v y assume v: "extends s v" "heap v (brk u) = Some (B_inode y)" "0 < brk u"
    have "brk s \<le> brk u" using u by (simp add: extends_def)
    then have "wp (teadfs_inode_set K (brk u) l) (\<lambda>_. Q (brk u, True)) v"
      by (rule inode_set_ext [OF v(1,2)]) (rule got)
    then show "wp (if brk u = 0 then ret (0, False) else do { teadfs_inode_set K (brk u) l; ret (brk u, True) }) Q v"
      using v(3) by (simp add: wp_bind wp_ret)
  qed
  have "?r = 0 \<or> (\<exists>y. heap s ?r = Some (B_inode y))" using assms(2) by (simp add: cached_own_def Let_def)
  moreover have "heap t ?r = heap s ?r" if "heap s ?r = Some (B_inode y)" for y
    using assms(1,3) that by (auto simp: extends_def heap_ok_def)
  ultimately have r: "?r = 0 \<or> (\<exists>y. heap t ?r = Some (B_inode y))" by metis
  have step: "extends s (t\<lparr>world := w, trace := trace t @ [(K_dcache (K_iget5_locked sb l), q)]\<rparr>)" for w q
    using assms(1) by (rule extends_core [THEN iffD2, rotated]) (simp add: core_eq marks_def)
  show ?thesis
    unfolding iget5_locked_def teadfs_inode_test_def teadfs_inode_to_lower_def call_rv_def
    using r new [OF step] got [OF step]
    by (auto simp: wp_bind wp_ret wp_call wp_if wp_load upper_of_def)
qed

lemma extends_calls:
  "extends s t \<Longrightarrow> filter is_mark (map fst cs) = [] \<Longrightarrow> extends s (t\<lparr>world := w, trace := trace t @ cs\<rparr>)"
  by (erule extends_core [THEN iffD2, rotated]) (simp add: core_eq marks_def)

lemma get_inode_locked_ext:
  assumes "extends s t" "cached_own K s" "heap_ok s" "heap t (s_fs_info t sb) = Some (B_sb z)"
    and err: "\<And>u e new. extends s u \<Longrightarrow> IS_ERR e \<Longrightarrow> Q (e, new) u"
    and got: "\<And>u i new. extends s u \<Longrightarrow> upper_of u i l \<Longrightarrow> Q (i, new) u"
  shows "wp (teadfs_get_inode_locked K l sb) Q t"
proof -
  have e: "IS_ERR (- EXDEV)" "IS_ERR (- ESTALE)" "IS_ERR (- EACCES)" by (simp_all add: IS_ERR_def errno_defs)
  have put: "wp (do { call K (K_ref (K_iput l)); ret (i, new) }) Q u" if "extends s u" "\<And>v. extends s v \<Longrightarrow> heap v = heap u \<Longrightarrow> Q (i, new) v" for u i new
    by (simp add: wp_bind wp_call wp_ret) (rule that(2), rule extends_calls [OF that(1)], simp_all)
  have rest: "wp (do {
         (inode, new) \<leftarrow> iget5_locked K sb l;
         if inode = 0 then do { call K (K_ref (K_iput l)); ret (- EACCES, False) }
         else if \<not> new then do { call K (K_ref (K_iput l)); ret (inode, new) }
         else ret (inode, new) }) Q u" if u: "extends s u" for u
    unfolding wp_bind
  proof (rule iget_ext [OF u assms(2,3)])
    fix v i new assume v: "extends s v" "upper_of v i l"
    have "0 < i" using v upper_of_valid by (auto simp: extends_def)
    moreover have "Q (i, new) x" if "extends s x" "heap x = heap v" for x
      using got [OF that(1)] that(2) v(2) by (simp add: upper_of_def)
    ultimately show "wp (case (i, new) of (inode, new) \<Rightarrow>
        if inode = 0 then do { call K (K_ref (K_iput l)); ret (- EACCES, False) }
        else if \<not> new then do { call K (K_ref (K_iput l)); ret (inode, new) } else ret (inode, new)) Q v"
      using put [OF v(1), of i new] v(1) by (cases new) (simp_all add: wp_ret)
  qed (simp add: put err e)
  show ?thesis
    unfolding teadfs_get_inode_locked_def teadfs_superblock_to_lower_def teadfs_get_super_block_def call_rv_def
    using assms(4)
    by (auto simp: wp_bind wp_ret wp_State wp_load wp_if wp_call
        intro!: rest [unfolded wp_bind] err e extends_calls assms(1))
qed

section \<open>Lookup\<close>

text \<open>
  \<open>hooked s d li rc t\<close>: as \<open>extends\<close>, but on success the dentry \<open>d\<close> was added to the cache with no
  inode, if the lower dentry has none, and with an upper inode of \<open>li\<close> otherwise.
\<close>

definition hooked :: "'w st \<Rightarrow> ptr \<Rightarrow> ptr \<Rightarrow> int \<Rightarrow> 'w st \<Rightarrow> bool" where
  "hooked s d li rc t \<longleftrightarrow> faults t = faults s \<and> d_fsdata t = d_fsdata s \<and> (\<forall>p. p < brk s \<longrightarrow> heap t p = heap s p) \<and>
     (if rc = 0 then \<exists>i. marks t = marks s @ [K_dcache (K_d_add d i)] \<and> (if li = 0 then i = 0 else upper_of t i li)
      else marks t = marks s)"

lemma hook_ok:
  assumes t: "extends s t" "cached_own K s" "heap_ok s" "heap t (s_fs_info t sb) = Some (B_sb z)"
    and K: "\<And>w. rv (fst (K (K_load F_d_inode ld) w)) = li" "\<And>w. rv (fst (K (K_load F_i_sb dir) w)) = sb"
  shows "wp (do {
      i \<leftarrow> call_rv K (K_load F_d_inode ld);
      if i = 0 then do { call K (K_dcache (K_d_add d 0)); ret 0 }
      else do {
        sb \<leftarrow> call_rv K (K_load F_i_sb dir);
        (inode, new) \<leftarrow> teadfs_get_inode_locked K li sb;
        if IS_ERR inode then ret inode
        else do {
          (if new then do { call K (K_dcache (K_unlock_new_inode inode)); ret () } else ret ());
          call K (K_dcache (K_d_add d inode));
          ret 0
        }
      } }) (hooked s d li) t"
proof -
  have get: "wp (do {
        (inode, new) \<leftarrow> teadfs_get_inode_locked K li sb;
        if IS_ERR inode then ret inode
        else do {
          (if new then do { call K (K_dcache (K_unlock_new_inode inode)); ret () } else ret ());
          call K (K_dcache (K_d_add d inode));
          ret 0
        } }) (hooked s d li) u"
    if u: "extends s u" "heap u (s_fs_info u sb) = Some (B_sb z)" "li \<noteq> 0" for u
    unfolding wp_bind
  proof (rule get_inode_locked_ext [OF u(1) t(2,3) u(2)], goal_cases)
    case (1 v e new)
    then show ?case by (auto simp: wp_ret hooked_def extends_def IS_ERR_def)
  next
    case (2 v i new)
    then have "\<not> IS_ERR i" using upper_of_valid [of v i li] by (auto simp: extends_def IS_ERR_def)
    then show ?case
      using 2 u(3) by (auto simp: wp_bind wp_ret wp_call wp_if hooked_def extends_def upper_of_def marks_def)
  qed
  show ?thesis
  proof (cases "li = 0")
    case True
    then show ?thesis
      using t(1) by (simp add: wp_bind wp_ret wp_call wp_if call_rv_def K hooked_def extends_def marks_def)
  next
    case False
    have "extends s (t\<lparr>world := w, trace := trace t @ [(K_load F_d_inode ld, li), (K_load F_i_sb dir, sb)]\<rparr>)" for w
      by (rule extends_calls [OF t(1)]) simp
    from get [OF this _ False] show ?thesis
      using t(4) False by (simp add: wp_bind wp_ret wp_call call_rv_def K)
  qed
qed

text \<open>The lower path of the new dentry: the looked-up lower dentry and the parent's lower mount.\<close>

lemma set_path_ok:
  assumes h: "heap t q = Some (B_dentry x)" "d_fsdata t parent = q" "lower_path_dentry x \<noteq> 0" "\<not> IS_ERR (lower_path_dentry x)"
    and p: "heap t p = Some (B_dentry zero_dentry_info)" "d_fsdata t d = p" "p \<noteq> q"
    and K: "\<And>w. rv (fst (K (K_ref (K_dget_parent d)) w)) = parent" and ld: "ld \<noteq> 0" "\<not> IS_ERR ld"
    and Q: "\<And>lm u. core u = core (t\<lparr>heap := (heap t)(p \<mapsto> B_dentry \<lparr>lower_path_dentry = ld, lower_path_mnt = lm\<rparr>)\<rparr>) \<Longrightarrow>
      wp rest Q u"
  shows "wp (do {
      parent \<leftarrow> call_rv K (K_ref (K_dget_parent d));
      lower_parent_path \<leftarrow> teadfs_get_lower_path parent;
      lower_mnt \<leftarrow> call_rv K (K_ref (K_mntget (snd lower_parent_path)));
      parent_inode \<leftarrow> call_rv K (K_load F_d_inode parent);
      call K (K_attr (K_copy_attr_atime dir parent_inode));
      teadfs_put_lower_path parent;
      call K (K_ref (K_dput parent));
      teadfs_set_lower_path d (ld, lower_mnt);
      rest }) Q t"
  using h p ld
  by (simp add: wp_bind wp_ret wp_call call_rv_def wp_emit wp_load wp_store wp_State wp_deref K lower_path_defs zero_dentry_info_def)
    (rule Q; simp add: core_eq marks_def)

definition looked :: "'w st \<Rightarrow> ptr \<Rightarrow> ptr \<Rightarrow> ptr \<Rightarrow> int \<Rightarrow> 'w st \<Rightarrow> bool" where
  "looked s d ld li rc t \<longleftrightarrow> faults t = faults s \<and> (\<forall>p. p < brk s \<longrightarrow> heap t p = heap s p) \<and>
     (\<forall>e. e \<noteq> d \<longrightarrow> d_fsdata t e = d_fsdata s e) \<and>
     (if rc = 0 then (\<exists>lm. path_of t d = Some (ld, lm)) \<and>
        (\<exists>i. marks t = marks s @ [K_dcache (K_d_add d i)] \<and> (if li = 0 then i = 0 else upper_of t i li))
      else d_fsdata t d = 0 \<and> marks t = marks s)"

lemma heap_ok_upd:
  assumes "heap_ok t" "heap t p \<noteq> None"
  shows "heap_ok (t\<lparr>heap := (heap t)(p \<mapsto> v)\<rparr>)"
proof -
  have t: "0 < brk t" "\<And>q. heap t q \<noteq> None \<Longrightarrow> 0 < q \<and> q < brk t"
    using assms(1) unfolding heap_ok_def by blast+
  have "0 < q \<and> q < brk t" if "((heap t)(p \<mapsto> v)) q \<noteq> None" for q
    by (rule t(2)) (cases "q = p"; use assms(2) that in simp)
  then show ?thesis using t(1) unfolding heap_ok_def by simp
qed

lemma cached_own_mono:
  "cached_own K s \<Longrightarrow> (\<And>p y. heap s p = Some (B_inode y) \<Longrightarrow> heap t p = heap s p) \<Longrightarrow> cached_own K t"
  unfolding cached_own_def Let_def by metis

lemma heap_ok_core: "core u = core t \<Longrightarrow> heap_ok u = heap_ok t"
  by (simp add: core_eq heap_ok_def)

lemma wp_set_dentry_private:
  "wp (teadfs_set_dentry_private d p) Q s = Q () (s\<lparr>d_fsdata := (d_fsdata s)(d := p)\<rparr>)"
  by (simp add: teadfs_set_dentry_private_def wp_State)

text \<open>The end of a lookup: a failed one frees the dentry's structure.\<close>

lemma looked_end:
  assumes s: "p = brk s" "0 < p" and v: "faults v = faults s" "d_fsdata v = (d_fsdata s)(d := p)" "marks v = marks s" "p < brk v"
      "heap v p = Some (B_dentry \<lparr>lower_path_dentry = ld, lower_path_mnt = lm\<rparr>)" "\<And>r. r < p \<Longrightarrow> heap v r = heap s r"
    and ld: "ld \<noteq> 0" "\<not> IS_ERR ld" and h: "hooked v d li rc t"
  shows "wp (do {
      (if rc \<noteq> 0 then do {
         p \<leftarrow> teadfs_dentry_to_private d;
         teadfs_free p;
         teadfs_set_dentry_private d 0
       }
       else ret ());
      ret rc }) (looked s d ld li) t"
proof -
  have t: "faults t = faults v" "d_fsdata t = d_fsdata v" "\<And>r. r < brk v \<Longrightarrow> heap t r = heap v r"
    using h by (simp_all add: hooked_def)
  show ?thesis
  proof (cases "rc = 0")
    case True
    have "path_of t d = Some (ld, lm)" using t v ld by (simp add: path_of_def)
    then show ?thesis using True h t v s by (auto simp: wp_bind wp_ret looked_def hooked_def)
  next
    case False
    then show ?thesis
      using h t v s by (simp add: wp_bind wp_ret wp_State wp_free looked_def hooked_def teadfs_dentry_to_private_def
          teadfs_set_dentry_private_def marks_def)
  qed
qed

lemma lookup_no_info:
  assumes "core u = core s" "d_fsdata s d = 0"
  shows "wp (do {
      (if - ENOMEM \<noteq> 0 then do {
         p \<leftarrow> teadfs_dentry_to_private d;
         teadfs_free p;
         teadfs_set_dentry_private d 0
       }
       else ret ());
      ret (- ENOMEM) }) (looked s d ld li) u"
  using assms by (simp add: wp_bind wp_ret wp_State wp_free_null looked_def teadfs_dentry_to_private_def
      teadfs_set_dentry_private_def marks_def core_eq ENOMEM_def)

text \<open>From the lower path on: the inode, the dentry cache and the end.\<close>

lemma lookup_hook:
  assumes s: "heap_ok s" "cached_own K s" "heap s (s_fs_info s sb) = Some (B_sb z)" and ld: "ld \<noteq> 0" "\<not> IS_ERR ld"
    and K: "\<And>w. rv (fst (K (K_load F_d_inode ld) w)) = li" "\<And>w. rv (fst (K (K_load F_i_sb dir) w)) = sb"
    and v: "core v = core (s\<lparr>heap := (heap s)(brk s \<mapsto> B_dentry \<lparr>lower_path_dentry = ld, lower_path_mnt = lm\<rparr>), brk := brk s + 1,
      d_fsdata := (d_fsdata s)(d := brk s)\<rparr>)"
  shows "wp (do {
      i \<leftarrow> call_rv K (K_load F_d_inode ld);
      if i = 0 then do { call K (K_dcache (K_d_add d 0)); ret 0 }
      else do {
        sb \<leftarrow> call_rv K (K_load F_i_sb dir);
        (inode, new) \<leftarrow> teadfs_get_inode_locked K li sb;
        if IS_ERR inode then ret inode
        else do {
          (if new then do { call K (K_dcache (K_unlock_new_inode inode)); ret () } else ret ());
          call K (K_dcache (K_d_add d inode));
          ret 0
        }
      } }) (\<lambda>rc. wp (do {
      (if rc \<noteq> 0 then do {
         p \<leftarrow> teadfs_dentry_to_private d;
         teadfs_free p;
         teadfs_set_dentry_private d 0
       }
       else ret ());
      ret rc }) (looked s d ld li)) v"
proof -
  have b: "0 < brk s" "s_fs_info s sb < brk s" using s(1,3) by (auto simp: heap_ok_def)
  have ok: "heap_ok v"
    using extends_new [OF extends_refl [OF s(1)], of "B_dentry \<lparr>lower_path_dentry = ld, lower_path_mnt = lm\<rparr>"] v
    by (simp add: extends_def heap_ok_def core_eq)
  have own: "cached_own K v"
    by (rule cached_own_mono [OF s(2)]) (use v s(1) in \<open>auto simp: core_eq heap_ok_def\<close>)
  have sb: "heap v (s_fs_info v sb) = Some (B_sb z)" using v b s(3) by (simp add: core_eq)
  show ?thesis
    apply (rule wp_mono)
     apply (rule hook_ok [OF extends_refl [OF ok] own ok sb K])
    apply (rule looked_end [of "brk s" s v d ld lm])
    using v b ld by (simp_all add: core_eq)
qed

lemma lookup_interpose_ok:
  assumes s: "heap_ok s" "cached_own K s" "path_of s parent = Some (lpd, lpm)" "d \<noteq> parent" "d_fsdata s d = 0"
      "heap s (s_fs_info s sb) = Some (B_sb z)"
    and K: "\<And>w. rv (fst (K (K_ref (K_dget_parent d)) w)) = parent" "\<And>w. rv (fst (K (K_load F_d_inode ld) w)) = li"
      "\<And>w. rv (fst (K (K_load F_i_sb dir) w)) = sb"
    and ld: "ld \<noteq> 0" "\<not> IS_ERR ld"
  shows "wp (teadfs_lookup_interpose K d ld dir) (looked s d ld li) s"
proof -
  let ?p = "brk s"
  obtain x where x: "heap s (d_fsdata s parent) = Some (B_dentry x)" "lower_path_dentry x \<noteq> 0" "\<not> IS_ERR (lower_path_dentry x)"
    using s(3) by (auto simp: path_of_def split: option.splits if_splits elim!: dentry_of.elims)
  have b: "0 < ?p" "d_fsdata s parent < ?p" using s(1) x(1) by (auto simp: heap_ok_def)
  show ?thesis
    unfolding teadfs_lookup_interpose_def
  proof (subst wp_bind, rule wp_call_rv_core, simp, subst wp_bind, rule zalloc_ext, goal_cases)
    case (1 u)
    then show ?case using s(1) heap_ok_core by blast
  next
    case (2 u v)
    then have v: "core v = core s" by simp
    show ?case
      apply (subst wp_bind)
      apply (simp only: refl if_True)
      apply (subst wp_bind)
      apply (rule core_step [OF v], rule keeps_intros, simp)
      apply (simp only: wp_ret)
      apply (erule lookup_no_info [OF _ s(5)])
      done
  next
    case (3 u v)
    have v: "core v = core (s\<lparr>heap := (heap s)(?p \<mapsto> B_dentry zero_dentry_info), brk := ?p + 1\<rparr>)" "brk u = ?p"
      using 3 by (simp_all add: core_eq)
    have "brk u \<noteq> 0" using v(2) b(1) by simp
    then show ?case
      apply (subst wp_bind)
      apply (simp only: if_False v(2) K(2))
      apply (subst wp_bind)
      apply (simp only: wp_set_dentry_private)
      apply (rule set_path_ok [where q = "d_fsdata s parent" and p = ?p and x = x and parent = parent])
      using v b x s(4) ld K(1) apply (simp_all add: core_eq) [10]
      apply (rule lookup_hook [OF s(1,2,6) ld K(2,3)])
      using v apply (simp add: core_eq)
      done
  qed
qed

lemma core_calls: "filter is_mark (map fst cs) = [] \<Longrightarrow> core (t\<lparr>world := w, trace := trace t @ cs\<rparr>) = core t"
  by (simp add: core_eq marks_def)

lemma core_path:
  assumes "core t = core s" "path_of s d = Some q" "\<And>u. core u = core s \<Longrightarrow> Q q u"
  shows "wp (teadfs_get_lower_path d) Q t"
proof -
  have "path_of t d = Some q" using assms(1,2) by (simp add: core_eq path_of_def)
  then show ?thesis using assms(1,3) by (simp add: wp_get_lower_path core_eq marks_def)
qed

lemma core_put_path:
  assumes "core t = core s" "path_of s d = Some q" "\<And>u. core u = core s \<Longrightarrow> Q () u"
  shows "wp (teadfs_put_lower_path d) Q t"
proof -
  have "path_of t d = Some q" using assms(1,2) by (simp add: core_eq path_of_def)
  then show ?thesis using assms(1,3) by (simp add: wp_put_lower_path core_eq marks_def)
qed

lemma looked_core: "core u = core t \<Longrightarrow> looked s d ld li rc u = looked s d ld li rc t"
  by (simp add: looked_def core_eq path_of_def upper_of_def)

lemma looked_from: "core s' = core s \<Longrightarrow> looked s' d ld li rc t = looked s d ld li rc t"
  by (simp add: looked_def core_eq)

lemma lookup_ok:
  assumes s: "heap_ok s" "cached_own K s" "path_of s parent = Some (lpd, lpm)" "d \<noteq> parent" "d_fsdata s d = 0"
      "heap s (s_fs_info s sb) = Some (B_sb z)"
    and K: "\<And>w. rv (fst (K (K_ref (K_dget_parent d)) w)) = parent" "\<And>w. rv (fst (K (K_load F_d_inode ld) w)) = li"
      "\<And>w. rv (fst (K (K_load F_i_sb dir) w)) = sb" "\<And>w. rv (fst (K (K_dcache (K_lookup_one_len d lpd)) w)) = ld"
    and ld: "ld \<noteq> 0"
  shows "wp (teadfs_lookup K dir d) (\<lambda>rc t. if IS_ERR ld then rc = ld \<and> core t = core s else looked s d ld li rc t) s"
proof -
  have path: "path_of t parent = Some (lpd, lpm)" if "looked s d ld li rc t" for rc t
  proof -
    obtain x where x: "heap s (d_fsdata s parent) = Some (B_dentry x)"
      using s(3) by (auto simp: path_of_def split: option.splits elim!: dentry_of.elims)
    then have "d_fsdata s parent < brk s" using s(1) by (auto simp: heap_ok_def)
    then show ?thesis using that s(3,4) by (simp add: looked_def path_of_def)
  qed
  have last: "wp (do { call K (K_ref (K_dput parent)); teadfs_put_lower_path parent; ret rc }) (looked s d ld li) t"
    if t: "looked s d ld li rc t" for rc t
  proof -
    have u: "core (t\<lparr>world := w, trace := trace t @ cs\<rparr>) = core t" if "filter is_mark (map fst cs) = []" for w cs
      by (rule core_calls [OF that])
    show ?thesis
      using path [OF t] looked_core [OF u, of _ s d ld li] t
      by (simp add: wp_bind wp_ret wp_call wp_put_lower_path path_of_def)
  qed
  have main: "wp (do { rc \<leftarrow> teadfs_lookup_interpose K d ld dir;
      call K (K_ref (K_dput parent)); teadfs_put_lower_path parent; ret rc }) (looked s d ld li) u"
    if u: "core u = core s" "\<not> IS_ERR ld" for u
  proof -
    have *: "heap_ok u" "cached_own K u" "path_of u parent = Some (lpd, lpm)" "d_fsdata u d = 0"
      "heap u (s_fs_info u sb) = Some (B_sb z)"
      using u(1) s heap_ok_core [OF u(1)] by (simp_all add: core_eq path_of_def cached_own_def)
    show ?thesis
      apply (subst wp_bind)
      apply (rule wp_mono [OF lookup_interpose_ok [OF *(1-3) s(4) *(4,5) K(1-3) ld u(2)]])
      apply (rule last)
      apply (simp add: looked_from [OF u(1)])
      done
  qed
  have failed: "wp (do { rc \<leftarrow> ret ld; call K (K_ref (K_dput parent)); teadfs_put_lower_path parent; ret rc })
      (\<lambda>rc t. rc = ld \<and> core t = core s) u" if "core u = core s" for u
    unfolding wp_bind wp_ret
    by (rule core_step [OF that], rule keeps_intros, simp, rule core_put_path [OF _ s(3)]) simp_all
  show ?thesis
    unfolding teadfs_lookup_def
    apply (subst wp_bind, rule wp_call_rv_core, simp, simp only: K(1))
    apply (subst wp_bind, rule core_path [OF _ s(3)], assumption)
    apply (simp only: Let_def fst_conv)
    apply (subst wp_bind, rule core_step, assumption, rule keeps_intros, simp)
    apply (subst wp_bind, rule wp_call_rv_core, simp, simp only: K(4))
    apply (subst wp_bind, rule core_step, assumption, rule keeps_intros, simp)
    apply (cases "IS_ERR ld")
     apply (use failed in \<open>simp only: if_True\<close>)
    apply (simp only: if_False)
    apply (rule main, assumption, simp)
    done
qed

text \<open>
  C13: a lookup hooks the upper dentry onto the lower one. If it succeeds, the
  dentry's lower path is the lower dentry that was found, and it entered the cache exactly once: as
  a negative dentry if the lower one is negative, and otherwise with an upper inode whose lower
  inode is the one of the lower dentry. If it fails, the dentry has no private structure and did
  not enter the cache; if the lower lookup failed, its error is returned and nothing was changed.
  In every case there is no memory fault and older memory and other dentries are untouched. The
  references to the lower dentry and mount are not accounted for: they are lost when the inode
  cannot be obtained (lookup.c:137).
\<close>

theorem lookup_stacks:
  assumes "heap_ok s" "cached_own K s" "path_of s parent = Some (lpd, lpm)" "d \<noteq> parent" "d_fsdata s d = 0"
      "heap s (s_fs_info s sb) = Some (B_sb z)"
    and "\<And>w. rv (fst (K (K_ref (K_dget_parent d)) w)) = parent" "\<And>w. rv (fst (K (K_load F_d_inode ld) w)) = li"
      "\<And>w. rv (fst (K (K_load F_i_sb dir) w)) = sb" "\<And>w. rv (fst (K (K_dcache (K_lookup_one_len d lpd)) w)) = ld"
    and "ld \<noteq> 0" "run_state (teadfs_lookup K dir d) s = (rc, t)"
  shows "faults t = faults s \<and> (\<forall>p. p < brk s \<longrightarrow> heap t p = heap s p) \<and> (\<forall>e. e \<noteq> d \<longrightarrow> d_fsdata t e = d_fsdata s e) \<and>
    (if IS_ERR ld then rc = ld \<and> heap t = heap s \<and> d_fsdata t = d_fsdata s \<and> marks t = marks s
     else if rc = 0 then (\<exists>lm. path_of t d = Some (ld, lm)) \<and>
       (\<exists>i. marks t = marks s @ [K_dcache (K_d_add d i)] \<and> (if li = 0 then i = 0 else upper_of t i li))
     else d_fsdata t d = 0 \<and> marks t = marks s)"
  using wp_run [OF lookup_ok [OF assms(1-11)] assms(12)] by (auto simp: looked_def core_eq split: if_splits)

text \<open>A directory \<open>1\<close> and a dentry \<open>20\<close> in it, with the module's structures for the directory.\<close>

definition lookup_st :: "unit st" where
  "lookup_st = (boot_st ())\<lparr>heap := [1 \<mapsto> B_inode (zero_inode_info\<lparr>lower_inode := 1\<rparr>),
       2 \<mapsto> B_dentry \<lparr>lower_path_dentry = 7, lower_path_mnt = 4\<rparr>, 3 \<mapsto> B_sb \<lparr>lower_sb = 1\<rparr>],
     brk := 4, d_fsdata := (\<lambda>_. 0)(1 := 2), s_fs_info := (\<lambda>_. 0)(1 := 3)\<rparr>"

theorem lookup_stacks_witness:
  "faults (snd (run_state (teadfs_lookup calm_kernel 1 20) lookup_st)) = [] \<and>
   d_fsdata (snd (run_state (teadfs_lookup calm_kernel 1 20) lookup_st)) 1 = 2"
  using lookup_stacks [of lookup_st calm_kernel 1 7 4 20 1 "\<lparr>lower_sb = 1\<rparr>" 1 1 1
      "fst (run_state (teadfs_lookup calm_kernel 1 20) lookup_st)" "snd (run_state (teadfs_lookup calm_kernel 1 20) lookup_st)"]
  by (simp add: lookup_st_def boot_st_def heap_ok_def cached_own_def path_of_def calm_kernel_def IS_ERR_def)

section \<open>Mount\<close>

text \<open>
  A mount that failed after it took \<open>p\<close> for the super block's structure and hooked it in: what
  the clean-up finds. \<open>ms\<close> are the marked calls so far.
\<close>

definition tearable :: "'w st \<Rightarrow> ptr \<Rightarrow> ptr \<Rightarrow> kcall list \<Rightarrow> 'w st \<Rightarrow> bool" where
  "tearable s sb p ms t \<longleftrightarrow> faults t = faults s \<and> s_fs_info t sb = p \<and> (\<exists>z. heap t p = Some (B_sb z)) \<and>
     (\<forall>q. q < p \<longrightarrow> heap t q = heap s q) \<and> marks t = marks s @ ms"

definition torn :: "'w st \<Rightarrow> ptr \<Rightarrow> kcall list \<Rightarrow> 'w st \<Rightarrow> bool" where
  "torn s p ms t \<longleftrightarrow> faults t = faults s \<and> heap t p = None \<and> (\<forall>q. q < p \<longrightarrow> heap t q = heap s q) \<and>
     marks t = marks s @ ms"

lemma kill_torn:
  assumes "tearable s sb p ms t" "p \<noteq> 0"
  shows "wp (teadfs_kill_block_super K bdi sb) (\<lambda>_. torn s p ms) t"
  using assms unfolding teadfs_kill_block_super_def tearable_def torn_def
  by (auto simp: wp_bind wp_ret wp_call wp_State wp_if wp_store wp_free lower_path_defs marks_def)

lemma cleanup_torn:
  assumes "tearable s sb p ms t" "p \<noteq> 0" "sb \<noteq> 0" "\<not> IS_ERR sb"
    and "\<And>w. rv (fst (K (K_sb (K_deactivate_locked_super sb)) w)) \<noteq> 0"
  shows "wp (mount_cleanup K bdi rc sb 0 None) (\<lambda>r u. r = rc \<and> torn s p ms u) t"
    "wp (mount_cleanup K bdi rc sb 0 (Some (ld, lm))) (\<lambda>r u. r = rc \<and> torn s p (ms @ [K_ref (K_path_put ld lm)]) u) t"
proof -
  have *: "wp (deactivate_locked_super K bdi sb) (\<lambda>_. torn s p ns) u" if "tearable s sb p ns u" for ns u
  proof -
    have "tearable s sb p ns (u\<lparr>world := w, trace := trace u @ [(K_sb (K_deactivate_locked_super sb), r)]\<rparr>)" for w r
      using that by (simp add: tearable_def marks_def)
    from kill_torn [OF this assms(2)] show ?thesis
      unfolding deactivate_locked_super_def call_rv_def by (simp add: wp_bind wp_ret wp_call assms(5))
  qed
  have put: "tearable s sb p (ms @ [K_ref (K_path_put ld lm)]) (t\<lparr>world := w, trace := trace t @ [(K_ref (K_path_put ld lm), r)]\<rparr>)" for w r
    using assms(1) by (simp add: tearable_def marks_def)
  show "wp (mount_cleanup K bdi rc sb 0 None) (\<lambda>r u. r = rc \<and> torn s p ms u) t"
    "wp (mount_cleanup K bdi rc sb 0 (Some (ld, lm))) (\<lambda>r u. r = rc \<and> torn s p (ms @ [K_ref (K_path_put ld lm)]) u) t"
    unfolding mount_cleanup_def using * [OF assms(1)] * [OF put] assms(3,4)
    by (simp_all add: wp_bind wp_ret wp_call wp_deref)
qed

text \<open>What the body of a mount leaves: a mounted file system, or something to clean up.\<close>

definition mounted :: "'w st \<Rightarrow> ptr \<Rightarrow> ptr \<Rightarrow> ptr \<times> ptr \<Rightarrow> ptr \<Rightarrow> ptr \<Rightarrow> kcall \<Rightarrow> ptr \<Rightarrow> 'w st \<Rightarrow> bool" where
  "mounted s sb p path lsb li kern root t \<longleftrightarrow> faults t = faults s \<and> (\<forall>q. q < p \<longrightarrow> heap t q = heap s q) \<and>
     path_of t root = Some path \<and> s_fs_info t sb = p \<and> heap t p = Some (B_sb \<lparr>lower_sb = lsb\<rparr>) \<and>
     (\<exists>i. marks t = marks s @ [kern, K_dcache (K_d_make_root i)] \<and> upper_of t i li)"

fun body_post :: "'w st \<Rightarrow> ptr \<Rightarrow> ptr \<Rightarrow> ptr \<times> ptr \<Rightarrow> ptr \<Rightarrow> ptr \<Rightarrow> kcall \<Rightarrow> mount_result \<Rightarrow> 'w st \<Rightarrow> bool" where
  "body_post s sb p path lsb li kern (Mounted root) t = mounted s sb p path lsb li kern root t"
| "body_post s sb p path lsb li kern (Failed rc s' sbi path') t =
     (IS_ERR rc \<and> s' = sb \<and> sbi = 0 \<and> path' = Some path \<and>
      (\<exists>ms. tearable s sb p (kern # ms) t \<and> (ms = [] \<or> (\<exists>i. ms = [K_dcache (K_d_make_root i)]))))"

lemma mount_errs: "IS_ERR (- ENOMEM)" "IS_ERR (- EINVAL)"
  by (simp_all add: IS_ERR_def errno_defs)

lemma tearable_ext:
  assumes "tearable s sb p ms b" "extends b t" "p < brk b"
  shows "tearable s sb p ms t"
  using assms by (auto simp: tearable_def extends_def)

lemma set_field_keeps [keeps_intros]: "keeps core (set_field K f q v)"
  unfolding set_field_def by (rule keeps_intros | simp)+

text \<open>The root dentry: its structure is new, and its lower path is the one that was mounted.\<close>

lemma root_info_ok:
  assumes t: "tearable s sb p [kern, K_dcache (K_d_make_root i)] t" "p < brk t" "heap t p = Some (B_sb \<lparr>lower_sb = lsb\<rparr>)"
      "heap_ok t" "upper_of t i li"
    and ld: "ld \<noteq> 0" "\<not> IS_ERR ld"
  shows "wp (mount_root_info K sb fl (ld, lm) root) (body_post s sb p (ld, lm) lsb li kern) t"
  unfolding mount_root_info_def
proof (subst wp_bind, rule zalloc_ext [OF t(4)], goal_cases)
  case (1 u)
  then show ?case using t(1) by (auto simp: wp_ret tearable_def core_eq mount_errs)
next
  case (2 u)
  have "0 < brk t" "i < brk t" using t(4,5) by (auto simp: heap_ok_def upper_of_def)
  then show ?case
    using 2 t ld by (auto simp: wp_bind wp_ret wp_call wp_State wp_emit wp_load wp_store wp_deref set_field_def lower_path_defs
        mounted_def path_of_def upper_of_def tearable_def core_eq marks_def)
qed

lemma root_ok:
  assumes b: "tearable s sb p [kern] b" "p < brk b" "heap b p = Some (B_sb \<lparr>lower_sb = lsb\<rparr>)"
    and t: "extends b t" "IS_ERR i \<or> upper_of t i li" and ld: "ld \<noteq> 0" "\<not> IS_ERR ld"
  shows "wp (mount_root K sb fl (ld, lm) i) (body_post s sb p (ld, lm) lsb li kern) t"
proof -
  have t': "tearable s sb p [kern] t" "p < brk t" "heap_ok t" "heap t p = Some (B_sb \<lparr>lower_sb = lsb\<rparr>)"
    using tearable_ext [OF b(1) t(1) b(2)] b(2,3) t(1) by (auto simp: extends_def)
  show ?thesis
  proof (cases "IS_ERR i")
    case True
    then show ?thesis using t'(1) by (auto simp: mount_root_def wp_ret)
  next
    case False
    have "wp (if root = 0 then ret (Failed (- ENOMEM) sb 0 (Some (ld, lm))) else mount_root_info K sb fl (ld, lm) root)
        (body_post s sb p (ld, lm) lsb li kern) u"
      if u: "core u = core (t\<lparr>trace := trace t @ [(K_dcache (K_d_make_root i), r)]\<rparr>)" for u root r
    proof -
      have u': "tearable s sb p [kern, K_dcache (K_d_make_root i)] u" "p < brk u" "heap u p = Some (B_sb \<lparr>lower_sb = lsb\<rparr>)"
        "heap_ok u" "upper_of u i li"
        using u t' t(2) False by (simp_all add: tearable_def core_eq marks_def heap_ok_def upper_of_def)
      show ?thesis using root_info_ok [OF u' ld] u'(1) by (auto simp: wp_ret mount_errs)
    qed
    then show ?thesis
      using False unfolding mount_root_def
      apply (simp only: if_False)
      apply (subst wp_bind, rule wp_call_rvI)
      apply (subst wp_bind, rule core_step [OF refl], rule keeps_intros)
      apply (simp add: core_eq marks_def)
      done
  qed
qed

lemma get_inode_ext:
  assumes "extends s t" "cached_own K s" "heap_ok s" "heap t (s_fs_info t sb) = Some (B_sb z)"
    and Q: "\<And>u i. extends s u \<Longrightarrow> IS_ERR i \<or> upper_of u i l \<Longrightarrow> Q i u"
  shows "wp (teadfs_get_inode K l sb) Q t"
  unfolding teadfs_get_inode_def wp_bind
proof (rule get_inode_locked_ext [OF assms(1-4)], goal_cases)
  case (1 u e new)
  then show ?case using Q by (simp add: wp_ret)
next
  case (2 u i new)
  have "extends s (u\<lparr>world := w, trace := trace u @ [(K_dcache (K_unlock_new_inode i), r)]\<rparr>)" for w r
    by (rule extends_calls [OF 2(1)]) simp
  then show ?case using Q 2 by (simp add: wp_bind wp_ret wp_call wp_if upper_of_def)
qed

lemma mount_lower_ok:
  assumes t: "tearable s sb p [kern] t" "heap_ok t" "cached_own K t" "p < brk t" "heap t p = Some (B_sb z)"
    and K: "\<And>w. rv (fst (K (K_load F_d_sb ld) w)) = lsb" "\<And>w. rv (fst (K (K_load F_d_inode ld) w)) = li"
      "\<And>w. rv (fst (K (K_load F_s_is_teadfs lsb) w)) = own"
    and ld: "ld \<noteq> 0" "\<not> IS_ERR ld"
  shows "wp (mount_lower K flags sb (ld, lm))
    (\<lambda>r u. body_post s sb p (ld, lm) lsb li kern r u \<and> (own \<noteq> 0 \<longrightarrow> (\<forall>root. r \<noteq> Mounted root))) t"
proof -
  let ?t = "t\<lparr>heap := (heap t)(p \<mapsto> B_sb \<lparr>lower_sb = lsb\<rparr>)\<rparr>"
  have p: "s_fs_info t sb = p" using t(1) by (simp add: tearable_def)
  have b: "tearable s sb p [kern] b \<and> p < brk b \<and> heap b p = Some (B_sb \<lparr>lower_sb = lsb\<rparr>) \<and> heap_ok b \<and> cached_own K b"
    if "core b = core ?t" for b
  proof -
    have "heap_ok ?t" by (rule heap_ok_upd [OF t(2)]) (simp add: t(5))
    then have "heap_ok b" using heap_ok_core [OF that] by simp
    moreover have "cached_own K b" by (rule cached_own_mono [OF t(3)]) (use that t(5) in \<open>auto simp: core_eq\<close>)
    ultimately show ?thesis using that t(1,4) by (simp add: core_eq tearable_def)
  qed
  have set: "wp (teadfs_set_superblock_lower sb lsb) Q u" if "core u = core t" "\<And>b. core b = core ?t \<Longrightarrow> Q () b" for Q u
  proof -
    have z: "z\<lparr>lower_sb := lsb\<rparr> = \<lparr>lower_sb = lsb\<rparr>" by (cases z) simp
    show ?thesis
      using that p t(5) by (auto simp: z wp_bind wp_State wp_store lower_path_defs core_eq intro!: that(2))
  qed
  have get: "wp (do { inode \<leftarrow> teadfs_get_inode K li sb; mount_root K sb fl (ld, lm) inode })
      (body_post s sb p (ld, lm) lsb li kern) c" if c: "core c = core ?t" for c fl
  proof -
    note bb = b [OF c]
    have "heap c (s_fs_info c sb) = Some (B_sb \<lparr>lower_sb = lsb\<rparr>)" using bb by (simp add: tearable_def)
    then show ?thesis
      by (subst wp_bind, intro get_inode_ext [of c c]) (use bb extends_refl ld root_ok in blast)+
  qed
  show ?thesis
    unfolding mount_lower_def fst_conv
    apply (subst wp_bind, rule wp_call_rv_core, simp, simp only: K(1))
    apply (subst wp_bind, rule wp_call_rv_core, simp, simp only: K(3))
    apply (rule wp_ifI)
    using t(1) apply (force simp: wp_ret tearable_def core_eq mount_errs)
    apply (subst wp_bind, rule set, simp)
    apply (subst wp_bind, rule core_step, assumption, rule keeps_intros, simp)
    apply (simp only: Let_def)
    apply (subst wp_bind, rule core_step, assumption, rule keeps_intros)
    apply (subst wp_bind, rule core_step, assumption, rule keeps_intros, simp)
    apply (subst wp_bind, rule core_step, assumption, rule keeps_intros)
    apply (subst wp_bind, rule core_step, assumption, rule keeps_intros, simp)
    apply (subst wp_bind, rule core_step, assumption, rule keeps_intros)
    apply (subst wp_bind, rule core_step, assumption, rule keeps_intros)
    apply (subst wp_bind, rule wp_call_rv_core, simp, simp only: K(2))
    apply (rule wp_mono, rule get; simp)
    done
qed

text \<open>
  The marked calls of a failed mount: the path is given back exactly if \<open>kern_path\<close>, whose result
  is \<open>kp\<close>, took it.
\<close>

definition path_balanced :: "kcall \<Rightarrow> kcall \<Rightarrow> int \<Rightarrow> kcall list \<Rightarrow> bool" where
  "path_balanced kern put kp ms \<longleftrightarrow> ms = [] \<or> (kp \<noteq> 0 \<and> ms = [kern]) \<or>
     (kp = 0 \<and> (\<exists>mk. ms = kern # mk @ [put] \<and> (mk = [] \<or> (\<exists>i. mk = [K_dcache (K_d_make_root i)]))))"

definition mount_post ::
  "'w st \<Rightarrow> ptr \<Rightarrow> ptr \<times> ptr \<Rightarrow> ptr \<Rightarrow> ptr \<Rightarrow> int \<Rightarrow> bytes \<Rightarrow> int \<Rightarrow> ptr \<Rightarrow> 'w st \<Rightarrow> bool"
where
  "mount_post s sb path lsb li own name kp rc t \<longleftrightarrow>
     own = 0 \<and> kp = 0 \<and> mounted s sb (brk s) path lsb li (K_sb (K_kern_path name)) rc t \<or>
     IS_ERR rc \<and> (\<exists>ms. torn s (brk s) ms t \<and>
        path_balanced (K_sb (K_kern_path name)) (K_ref (K_path_put (fst path) (snd path))) kp ms)"

lemma mount_tail_ok:
  assumes t: "core t = core (s\<lparr>heap := (heap s)(brk s \<mapsto> B_sb zero_sb_info), brk := brk s + 1, s_fs_info := (s_fs_info s)(sb := brk s)\<rparr>)"
    and s: "heap_ok s" "cached_own K s" "sb \<noteq> 0" "\<not> IS_ERR sb" and ld: "ld \<noteq> 0" "\<not> IS_ERR ld"
    and K: "\<And>w. rv (fst (K (K_sb (K_kern_path name)) w)) = kp" "\<And>w. rv (fst (K (K_sb K_path_dentry) w)) = ld"
      "\<And>w. rv (fst (K (K_sb K_path_mnt) w)) = lm" "\<And>w. rv (fst (K (K_load F_d_sb ld) w)) = lsb"
      "\<And>w. rv (fst (K (K_load F_d_inode ld) w)) = li"
      "\<And>w. rv (fst (K (K_sb (K_deactivate_locked_super sb)) w)) \<noteq> 0"
      "\<And>w. rv (fst (K (K_load F_s_is_teadfs lsb) w)) = own" "kp = 0 \<or> IS_ERR kp"
  shows "wp (do {
      rc \<leftarrow> call_rv K (K_sb (K_kern_path name));
      if rc \<noteq> 0 then ret (Failed rc sb 0 None)
      else do {
        ld \<leftarrow> call_rv K (K_sb K_path_dentry);
        lm \<leftarrow> call_rv K (K_sb K_path_mnt);
        mount_lower K flags sb (ld, lm)
      } }) (\<lambda>r. wp (case r of Mounted root \<Rightarrow> ret root | Failed rc s sbi path \<Rightarrow> mount_cleanup K bdi rc s sbi path)
        (mount_post s sb (ld, lm) lsb li own name kp)) t"
proof -
  let ?p = "brk s" and ?kern = "K_sb (K_kern_path name)"
  let ?clean = "\<lambda>r. wp (case r of Mounted root \<Rightarrow> ret root | Failed rc s sbi path \<Rightarrow> mount_cleanup K bdi rc s sbi path)
        (mount_post s sb (ld, lm) lsb li own name kp)"
  have p: "?p \<noteq> 0" using s(1) by (simp add: heap_ok_def)
  have tear: "tearable s sb ?p [?kern] u \<and> heap_ok u \<and> cached_own K u \<and> ?p < brk u \<and> heap u ?p = Some (B_sb zero_sb_info)"
    if "core u = core (t\<lparr>trace := trace t @ [(?kern, r)]\<rparr>)" for u r
  proof -
    have "heap_ok u"
      using extends_new [OF extends_refl [OF s(1)], of "B_sb zero_sb_info"] t that by (simp add: extends_def heap_ok_def core_eq)
    moreover have "cached_own K u"
      by (rule cached_own_mono [OF s(2)]) (use t that s(1) in \<open>auto simp: core_eq\<close>)
    ultimately show ?thesis using t that by (simp add: core_eq tearable_def marks_def)
  qed
  have good: "?clean r u" if g: "body_post s sb ?p (ld, lm) lsb li ?kern r u" "kp = 0" "own \<noteq> 0 \<longrightarrow> (\<forall>root. r \<noteq> Mounted root)" for r u
  proof (cases r)
    case (Mounted root)
    then show ?thesis using g by (simp add: wp_ret mount_post_def)
  next
    case (Failed rc s' sbi path')
    then obtain ms where ms: "tearable s sb ?p (?kern # ms) u" "ms = [] \<or> (\<exists>i. ms = [K_dcache (K_d_make_root i)])"
      and r: "r = Failed rc sb 0 (Some (ld, lm))" "IS_ERR rc" using g(1) by auto
    have "wp (mount_cleanup K bdi rc sb 0 (Some (ld, lm))) (\<lambda>r u. r = rc \<and> torn s ?p ((?kern # ms) @ [K_ref (K_path_put ld lm)]) u) u"
      by (rule cleanup_torn(2) [OF ms(1) p s(3,4)]) (rule K(6))
    then show ?thesis unfolding r(1) mount_result.case
      by (rule wp_mono) (use ms(2) g(2) r(2) in \<open>fastforce simp: mount_post_def path_balanced_def\<close>)
  qed
  have bad: "?clean (Failed kp sb 0 None) u" if "core u = core (t\<lparr>trace := trace t @ [(?kern, kp)]\<rparr>)" "kp \<noteq> 0" for u
  proof -
    have "wp (mount_cleanup K bdi kp sb 0 None) (\<lambda>r v. r = kp \<and> torn s ?p [?kern] v) u"
      by (rule cleanup_torn(1) [OF _ p s(3,4)]) (use tear [OF that(1)] K(6) in simp_all)
    then show ?thesis by (simp, elim wp_mono) (use that(2) K(8) in \<open>auto simp: mount_post_def path_balanced_def\<close>)
  qed
  have main: "wp (mount_lower K flags sb (ld, lm)) ?clean u" if u: "core u = core (t\<lparr>trace := trace t @ [(?kern, kp)]\<rparr>)" "kp = 0" for u
    using tear [OF u(1)] good [OF _ u(2)] ld
    by (intro wp_mono [OF mount_lower_ok [OF _ _ _ _ _ K(4,5,7)]]) auto
  show ?thesis
    apply (subst wp_bind, rule wp_call_rv_mark, simp only: K(1))
    apply (rule wp_ifI)
     apply (simp only: wp_ret)
     apply (rule bad, assumption, assumption)
    apply (subst wp_bind, rule wp_call_rv_core, simp, simp only: K(2))
    apply (subst wp_bind, rule wp_call_rv_core, simp, simp only: K(3))
    apply (rule main; simp)
    done
qed

lemma mount_ok:
  assumes s: "heap_ok s" "cached_own K s" "s_fs_info s sb = 0" "sb \<noteq> 0" "\<not> IS_ERR sb" and ld: "ld \<noteq> 0" "\<not> IS_ERR ld"
    and K: "\<And>w. rv (fst (K (K_sb (K_kern_path name)) w)) = kp" "\<And>w. rv (fst (K (K_sb K_path_dentry) w)) = ld"
      "\<And>w. rv (fst (K (K_sb K_path_mnt) w)) = lm" "\<And>w. rv (fst (K (K_load F_d_sb ld) w)) = lsb"
      "\<And>w. rv (fst (K (K_load F_d_inode ld) w)) = li"
      "\<And>w. rv (fst (K (K_sb (K_deactivate_locked_super sb)) w)) \<noteq> 0"
      "\<And>w. rv (fst (K (K_load F_s_is_teadfs lsb) w)) = own" "kp = 0 \<or> IS_ERR kp"
      "\<And>w. rv (fst (K (K_sb (K_sget flags)) w)) = sb"
      "\<And>sbi w. let rc = rv (fst (K (K_sb (K_bdi_setup_and_register sbi)) w)) in rc = 0 \<or> IS_ERR rc"
  shows "wp (teadfs_mount K bdi flags name) (mount_post s sb (ld, lm) lsb li own name kp) s"
proof -
  let ?p = "brk s"
  let ?clean = "\<lambda>r. wp (case r of Mounted root \<Rightarrow> ret root | Failed rc s sbi path \<Rightarrow> mount_cleanup K bdi rc s sbi path)
        (mount_post s sb (ld, lm) lsb li own name kp)"
  let ?t = "s\<lparr>heap := (heap s)(?p \<mapsto> B_sb zero_sb_info), brk := ?p + 1\<rparr>"
  have p: "?p \<noteq> 0" "heap s ?p = None" using s(1) by (simp_all add: heap_ok_def)
  have bdi: "keeps core (if bdi then set_field K F_s_bdi sb q else ret ())" for q
    by (rule keeps_intros | simp)+
  have reg: "wp (if bdi then call_rv K (K_sb (K_bdi_setup_and_register q)) else ret 0) Q u"
    if u: "core u = core ?t" and Q: "\<And>rc v. rc = 0 \<or> IS_ERR rc \<Longrightarrow> core v = core ?t \<Longrightarrow> Q rc v" for q Q u
    by (intro wp_ifI wp_call_rv_core) (use u K(10) Q in \<open>simp_all add: Let_def wp_ret\<close>)
  have none: "?clean (Failed (- ENOMEM) 0 0 None) u" if "core u = core s" for u
    using that p by (auto simp: wp_bind wp_ret mount_cleanup_def mount_post_def torn_def path_balanced_def core_eq mount_errs)
  have unhooked: "?clean (Failed rc sb ?p None) u" if "core u = core ?t" "IS_ERR rc" for u rc
    using that p s(3-5)
    by (auto simp: wp_bind wp_ret wp_call wp_deref wp_State wp_free mount_cleanup_def deactivate_locked_super_def call_rv_def K(6)
        teadfs_kill_block_super_def teadfs_get_super_block_def mount_post_def torn_def path_balanced_def core_eq marks_def)
  show ?thesis
    unfolding teadfs_mount_def
    apply (subst wp_bind)
    unfolding mount_body_def
    apply (subst wp_bind)
    apply (rule zalloc_ext [OF s(1)])
     apply (simp only: refl if_True wp_ret)
     apply (erule none)
    apply (simp only: p(1) if_False)
    apply (subst wp_bind, rule wp_call_rv_core, simp, simp only: K(9) s(5) if_False)
    apply (subst wp_bind, erule reg)
    apply (rule wp_ifI)
     apply (simp only: wp_ret)
     apply (rule unhooked; simp)
    apply (subst wp_bind, rule core_step, assumption, rule bdi)
    apply (subst wp_bind)
    apply (simp only: teadfs_set_lower_super_def wp_State)
    apply (subst wp_bind, rule core_step [OF refl], rule keeps_intros)
    apply (subst wp_bind, rule core_step, assumption, rule keeps_intros)
    apply (rule mount_tail_ok [OF _ s(1,2,4,5) ld K(1-8)])
    apply (simp add: core_eq)
    done
qed

text \<open>
  C14: a mount for which \<open>sget\<close> finds a super block succeeds or is undone. If it succeeds, the lower
  directory is not one of this file system, the super block's structure points to the lower super
  block, the root dentry's lower path is the path that was looked up and its inode is hooked onto
  the lower directory's inode. If it fails, an error is returned, the super block's structure is
  freed, and the path is given back exactly if it was taken. In both cases there is no memory fault
  and older memory is untouched. If \<open>sget\<close> fails, main.c:132 releases its error pointer: that case is
  not covered.
\<close>

theorem mount_stacks:
  assumes "heap_ok s" "cached_own K s" "s_fs_info s sb = 0" "sb \<noteq> 0" "\<not> IS_ERR sb" "ld \<noteq> 0" "\<not> IS_ERR ld"
    and "\<And>w. rv (fst (K (K_sb (K_kern_path name)) w)) = kp" "\<And>w. rv (fst (K (K_sb K_path_dentry) w)) = ld"
      "\<And>w. rv (fst (K (K_sb K_path_mnt) w)) = lm" "\<And>w. rv (fst (K (K_load F_d_sb ld) w)) = lsb"
      "\<And>w. rv (fst (K (K_load F_d_inode ld) w)) = li"
      "\<And>w. rv (fst (K (K_sb (K_deactivate_locked_super sb)) w)) \<noteq> 0"
      "\<And>w. rv (fst (K (K_load F_s_is_teadfs lsb) w)) = own" "kp = 0 \<or> IS_ERR kp"
      "\<And>w. rv (fst (K (K_sb (K_sget flags)) w)) = sb"
      "\<And>sbi w. let rc = rv (fst (K (K_sb (K_bdi_setup_and_register sbi)) w)) in rc = 0 \<or> IS_ERR rc"
    and "run_state (teadfs_mount K bdi flags name) s = (rc, t)"
  shows "faults t = faults s \<and> (\<forall>q. q < brk s \<longrightarrow> heap t q = heap s q) \<and>
    (kp = 0 \<and> own = 0 \<and> path_of t rc = Some (ld, lm) \<and> heap t (s_fs_info t sb) = Some (B_sb \<lparr>lower_sb = lsb\<rparr>) \<and>
       (\<exists>i. marks t = marks s @ [K_sb (K_kern_path name), K_dcache (K_d_make_root i)] \<and> upper_of t i li) \<or>
     IS_ERR rc \<and> heap t (brk s) = None \<and>
       (\<exists>ms. marks t = marks s @ ms \<and> path_balanced (K_sb (K_kern_path name)) (K_ref (K_path_put ld lm)) kp ms))"
  using wp_run [OF mount_ok [OF assms(1-17)] assms(18)]
  by (auto simp: mount_post_def mounted_def torn_def)

text \<open>A kernel whose lower directory \<open>1\<close> can be mounted; no upper inode is cached yet.\<close>

fun mount_kernel :: "unit kernel" where
  "mount_kernel (K_sb (K_kern_path name)) w = (KRet 0 [] [], w)"
| "mount_kernel (K_load F_s_is_teadfs p) w = (KRet 0 [] [], w)"
| "mount_kernel (K_dcache (K_iget5_locked sb l)) w = (KRet 0 [] [], w)"
| "mount_kernel (K_sb (K_bdi_setup_and_register p)) w = (KRet 0 [] [], w)"
| "mount_kernel _ w = (KRet 1 [] [], w)"

theorem mount_stacks_witness:
  "(let (rc, t) = run_state (teadfs_mount mount_kernel True 0 [47]) (boot_st ()) in path_of t rc = Some (1, 1)) \<and>
   faults (snd (run_state (teadfs_mount mount_kernel True 0 [47]) (boot_st ()))) = []"
proof -
  let ?r = "run_state (teadfs_mount mount_kernel True 0 [47]) (boot_st ())"
  have "wp (teadfs_mount mount_kernel True 0 [47]) (\<lambda>rc t. \<not> IS_ERR rc) (boot_st ())"
    unfolding teadfs_mount_def mount_body_def mount_lower_def mount_root_def mount_root_info_def
      teadfs_get_inode_def teadfs_get_inode_locked_def iget5_locked_def teadfs_alloc_inode_def
      teadfs_inode_set_def teadfs_zalloc_def call_rv_def set_field_def boot_st_def lower_path_defs
    by (simp add: wp_simps wp_call IS_ERR_def fsstack_copy_inode_size_def i_size_write_def call_rv_def
        S_ISLNK_def S_ISDIR_def special_file_def)
  then have "\<not> IS_ERR (fst ?r)" by (simp add: wp_def split_beta)
  then show ?thesis
    using mount_stacks [of "boot_st ()" mount_kernel 1 1 "[47]" 0 1 1 1 0 0 True "fst ?r" "snd ?r"]
    by (auto simp: boot_st_def heap_ok_def cached_own_def IS_ERR_def split_beta)
qed

text \<open>When \<open>sget\<close> fails, the clean-up releases its error pointer.\<close>

lemma mount_sget_fault:
  assumes "heap_ok s" "\<And>n w. rv (fst (K (K_mem (K_kzalloc n)) w)) \<noteq> 0" "IS_ERR sb"
    and "\<And>w. rv (fst (K (K_sb (K_sget flags)) w)) = sb"
  shows "wp (teadfs_mount K bdi flags name) (\<lambda>rc t. faults t \<noteq> faults s) s"
proof -
  have "sb \<noteq> 0" "brk s \<noteq> 0" using assms(1,3) by (auto simp: IS_ERR_def heap_ok_def)
  then show ?thesis
    using assms(2-4) by (auto simp: teadfs_mount_def mount_body_def mount_cleanup_def deactivate_locked_super_def teadfs_kill_block_super_def lower_path_defs teadfs_zalloc_def call_rv_def deref_def raise_fault_def store_def teadfs_free_def emit_def wp_call wp_simps split: option.splits)
qed

end
