(* ===== verification/Log_Props.thy ===== *)
theory Log_Props
  imports Log Mmap_Props
begin

text \<open>
  What logging does (\<open>teadfs_log.c\<close>): which lines reach the log file, that the module's state is
  untouched, and what happens when the log file could not be opened.
\<close>

text \<open>A run of log calls, each with its level and its text.\<close>

primrec log_all :: "'w kernel \<Rightarrow> ptr \<Rightarrow> (TEADFS_LOG_LEVEL \<times> bytes) list \<Rightarrow> ('w, unit) op" where
  "log_all K g_file [] = ret ()"
| "log_all K g_file (m # ms) = do { teadfs_log K g_file (fst m) (snd m); log_all K g_file ms }"

definition logged :: "(TEADFS_LOG_LEVEL \<times> bytes) list \<Rightarrow> bytes list" where
  "logged ms = map (log_line \<circ> snd) (filter (\<lambda>m. fst m \<noteq> TLL_DBG) ms)"

lemma logged_simps [simp]:
  "logged [] = []"
  "logged (m # ms) = (if fst m = TLL_DBG then [] else [log_line (snd m)]) @ logged ms"
  by (simp_all add: logged_def)

lemma writes_of_append [simp]: "writes_of (xs @ ys) = writes_of xs @ writes_of ys"
  by (induction xs rule: writes_of.induct) simp_all

lemma length_log_line: "length (log_line text) < LOG_MAX_BUF"
  unfolding log_line_def
  by (rule le_less_trans [OF length_takeWhile_le]) (simp add: LOG_MAX_BUF_def)

text \<open>The effect of log calls that wrote the lines \<open>ls\<close>.\<close>

definition log_done :: "ptr \<Rightarrow> bytes list \<Rightarrow> 'w st \<Rightarrow> 'w st \<Rightarrow> bool" where
  "log_done g_file ls s t \<longleftrightarrow> t = s\<lparr>world := world t, trace := trace t, faults := faults t\<rparr> \<and>
     (\<exists>new. trace t = trace s @ new \<and> map (\<lambda>(f, d, off). (f, d)) (writes_of new) = map (Pair g_file) ls) \<and>
     faults t = faults s @ (if g_file = 0 \<or> IS_ERR g_file then replicate (length ls) (Bad_pointer g_file) else [])"

lemma log_done_refl: "log_done g [] s s"
  by (simp add: log_done_def)

lemma log_done_trans:
  assumes "log_done g ls s t" "log_done g ms t u"
  shows "log_done g (ls @ ms) s u"
proof -
  have "\<exists>new. trace u = trace s @ new \<and> map (\<lambda>(f, d, off). (f, d)) (writes_of new) = map (Pair g) (ls @ ms)"
    using assms unfolding log_done_def by fastforce
  moreover have "u = s\<lparr>world := world u, trace := trace u, faults := faults u\<rparr>"
    using assms unfolding log_done_def by (cases s; cases t; cases u) simp
  ultimately show ?thesis
    using assms by (simp add: log_done_def replicate_add)
qed

lemma log_done_log:
  assumes "level \<noteq> TLL_CNT"
  shows "wp (teadfs_log K g level text) (\<lambda>_. log_done g (logged [(level, text)]) s) s"
  using assms unfolding teadfs_log_def teadfs_write_log_def deref_def call_rv_def log_done_def
  by (cases level) (simp_all add: wp_simps wp_call)

lemma log_done_all:
  assumes "\<forall>m \<in> set ms. fst m \<noteq> TLL_CNT"
  shows "wp (log_all K g ms) (\<lambda>_. log_done g (logged ms) s) s"
  using assms
proof (induction ms arbitrary: s)
  case Nil
  show ?case by (simp add: wp_simps log_done_refl)
next
  case (Cons m ms)
  have "wp (log_all K g ms) (\<lambda>_. log_done g (logged (m # ms)) s) t" if "log_done g (logged [m]) s t" for t
    by (rule wp_mono [OF Cons.IH]) (use Cons.prems log_done_trans [OF that] in simp_all)
  then show ?case
    using wp_mono [OF log_done_log [of "fst m" K g "snd m" s]] Cons.prems by (simp add: wp_bind)
qed

section \<open>Properties\<close>

text \<open>
  C37: a run of log calls on the levels the module uses changes nothing of the module's
  state. With an open log file it causes no fault and writes exactly one line per call above the
  debug level, in order and to the log file, each cut to less than 4096 bytes. If the log file could
  not be opened, the first such call dereferences the error pointer; without one there is no fault.
\<close>

theorem log_lines:
  assumes "\<forall>m \<in> set ms. fst m \<noteq> TLL_CNT" "run_state (log_all K g_file ms) s = (u, t)"
    and "lines = map (log_line \<circ> snd) (filter (\<lambda>m. fst m \<noteq> TLL_DBG) ms)"
  shows "t = s\<lparr>world := world t, trace := trace t, faults := faults t\<rparr> \<and>
    (if lines = [] then faults t = faults s
     else if g_file = 0 \<or> IS_ERR g_file then \<exists>more. faults t = faults s @ Bad_pointer g_file # more
     else faults t = faults s \<and> list_all (\<lambda>l. length l < LOG_MAX_BUF) lines \<and>
       map (\<lambda>(f, d, off). (f, d)) (writes_of (new_calls s t)) = map (Pair g_file) lines)"
proof -
  have "log_done g_file lines s t"
    using wp_run [OF log_done_all [OF assms(1)] assms(2)] assms(3) by (simp add: logged_def)
  moreover have "list_all (\<lambda>l. length l < LOG_MAX_BUF) lines"
    by (simp add: assms(3) list_all_iff length_log_line)
  ultimately show ?thesis
    by (cases lines) (auto simp: log_done_def new_calls_def)
qed

theorem log_lines_witness:
  "map (\<lambda>(f, d, off). (f, d)) (writes_of (new_calls (boot_st ())
     (snd (run_state (log_all calm_kernel 9 [(TLL_INF, [65, 66]), (TLL_DBG, [67]), (TLL_ERR, [68, 0, 69])]) (boot_st ()))))) =
     [(9, [65, 66]), (9, [68])]"
  using log_lines [where K = calm_kernel and g_file = 9 and s = "boot_st ()" and u = "()" and
      ms = "[(TLL_INF, [65, 66]), (TLL_DBG, [67]), (TLL_ERR, [68, 0, 69])]", OF _ _ refl]
  by (simp add: prod_eq_iff IS_ERR_def log_line_def LOG_MAX_BUF_def)

end
