(* ===== verification/Miscdev_Race.thy ===== *)
theory Miscdev_Race
  imports Miscdev
begin

text \<open>
  Opening the misc device from several threads at once (\<open>miscdev.c\<close>). The two accesses of
  \<open>teadfs_miscdev_open\<close> to the connection flag are separate critical sections; between them another
  thread may run.
\<close>

section \<open>Interleaved opens\<close>

text \<open>Where a thread is in \<open>teadfs_miscdev_open\<close>: before it reads the flag, before it sets it, or back with a result.\<close>

datatype open_pc = O_get | O_set | O_ret int

inductive open_step :: "nat \<Rightarrow> 'w st \<times> (nat \<Rightarrow> open_pc) \<Rightarrow> 'w st \<times> (nat \<Rightarrow> open_pc) \<Rightarrow> bool" for i where
  read_flag: "pcs i = O_get \<Longrightarrow> run_state teadfs_get_client_connect s = (rc, t) \<Longrightarrow>
    open_step i (s, pcs) (t, pcs(i := if rc \<noteq> 0 then O_ret (- EBUSY) else O_set))"
| set_flag: "pcs i = O_set \<Longrightarrow> run_state (teadfs_set_clinet_connect 1) s = (u, t) \<Longrightarrow>
    open_step i (s, pcs) (t, pcs(i := O_ret 0))"

inductive_cases open_stepE: "open_step i x y"

inductive opens :: "'w st \<Rightarrow> 'w st \<times> (nat \<Rightarrow> open_pc) \<Rightarrow> bool" for s where
  opens_start: "opens s (s, \<lambda>_. O_get)"
| opens_next: "opens s x \<Longrightarrow> open_step i x y \<Longrightarrow> opens s y"

section \<open>Lemmas\<close>

lemma run_connect [simp]:
  "run_state teadfs_get_client_connect s = (client_connect s, s\<lparr>trace := trace s @ global_section\<rparr>)"
  "run_state (teadfs_set_clinet_connect n) s = ((), s\<lparr>client_connect := n, trace := trace s @ global_section\<rparr>)"
  using wp_get_client_connect [of "\<lambda>a t. a = client_connect s \<and> t = s\<lparr>trace := trace s @ global_section\<rparr>" s]
    wp_set_clinet_connect [of n "\<lambda>_ t. t = s\<lparr>client_connect := n, trace := trace s @ global_section\<rparr>" s]
  by (simp_all add: wp_def prod_eq_iff)

lemma step_get:
  "pcs i = O_get \<Longrightarrow> open_step i (s, pcs) (s\<lparr>trace := trace s @ global_section\<rparr>,
     pcs(i := if client_connect s \<noteq> 0 then O_ret (- EBUSY) else O_set))"
  by (rule read_flag) simp_all

lemma step_set:
  "pcs i = O_set \<Longrightarrow> open_step i (s, pcs)
     (s\<lparr>client_connect := 1, trace := trace s @ global_section\<rparr>, pcs(i := O_ret 0))"
  by (rule set_flag) simp_all

text \<open>The flag is set exactly if an open has succeeded, and without that no open is refused.\<close>

definition flag_ok :: "'w st \<times> (nat \<Rightarrow> open_pc) \<Rightarrow> bool" where
  "flag_ok x \<longleftrightarrow> client_connect (fst x) = (if \<exists>i. snd x i = O_ret 0 then 1 else 0) \<and>
    (\<forall>i rc. snd x i = O_ret rc \<longrightarrow> rc = 0 \<or> rc = - EBUSY \<and> client_connect (fst x) = 1)"

lemma opens_flag:
  assumes "opens s x" "client_connect s = 0"
  shows "flag_ok x"
  using assms
proof (induction rule: opens.induct)
  case (opens_next x i y)
  have x: "flag_ok x" using opens_next by simp
  from opens_next.hyps(2) show ?case
  proof (cases rule: open_step.cases)
    case (read_flag pcs t rc u)
    have "(\<exists>j. (snd y) j = O_ret 0) \<longleftrightarrow> (\<exists>j. pcs j = O_ret 0)"
      using read_flag(2,3) by (auto simp: EBUSY_def) (metis open_pc.distinct(3))+
    then show ?thesis using x read_flag by (auto simp: flag_ok_def split: if_splits)
  next
    case (set_flag pcs t v u)
    then show ?thesis using x by (auto simp: flag_ok_def split: if_splits)
  qed
qed (simp add: flag_ok_def)

text \<open>An open that is not interrupted.\<close>

lemma open_alone:
  assumes "pcs i = O_get" "run_state teadfs_miscdev_open s = (rc, t)"
  shows "(open_step i)\<^sup>*\<^sup>* (s, pcs) (t, pcs(i := O_ret rc))"
proof -
  note get = step_get [of pcs i s, OF assms(1)]
  show ?thesis
  proof (cases "client_connect s = 0")
    case True
    have "open_step i (s\<lparr>trace := trace s @ global_section\<rparr>, pcs(i := O_set))
        (s\<lparr>client_connect := 1, trace := trace s @ global_section @ global_section\<rparr>, (pcs(i := O_set))(i := O_ret 0))"
      using step_set [of "pcs(i := O_set)" i "s\<lparr>trace := trace s @ global_section\<rparr>"] by simp
    moreover have "rc = 0" "t = s\<lparr>client_connect := 1, trace := trace s @ global_section @ global_section\<rparr>"
      using assms(2) True by (simp_all add: teadfs_miscdev_open_def)
    ultimately show ?thesis using get True by (auto intro: rtranclp.rtrancl_into_rtrancl)
  next
    case False
    then show ?thesis using get assms(2) by (auto simp: teadfs_miscdev_open_def)
  qed
qed

text \<open>Threads that all read the flag before one of them sets it.\<close>

lemma all_read:
  assumes "client_connect s = 0"
  shows "\<exists>t. opens s (t, \<lambda>i. if i < n then O_set else O_get) \<and> client_connect t = 0"
proof (induction n)
  case 0
  then show ?case using opens_start [of s] assms by auto
next
  case (Suc n)
  then obtain t where t: "opens s (t, \<lambda>i. if i < n then O_set else O_get)" "client_connect t = 0" by blast
  have "open_step n (t, \<lambda>i. if i < n then O_set else O_get)
      (t\<lparr>trace := trace t @ global_section\<rparr>, (\<lambda>i. if i < n then O_set else O_get)(n := O_set))"
    using step_get [of "\<lambda>i. if i < n then O_set else O_get" n t] t(2) by simp
  moreover have "(\<lambda>i. if i < n then O_set else O_get)(n := O_set) = (\<lambda>i. if i < Suc n then O_set else O_get)" by auto
  ultimately show ?case using opens_next [OF t(1)] t(2) by fastforce
qed

lemma all_set:
  assumes "opens s (t, \<lambda>i. if i < n then O_set else O_get)" "k \<le> n"
  shows "\<exists>u. opens s (u, \<lambda>i. if i < k then O_ret 0 else if i < n then O_set else O_get)"
  using assms(2)
proof (induction k)
  case 0
  then show ?case using assms(1) by auto
next
  case (Suc k)
  let ?f = "\<lambda>k i. if i < k then O_ret 0 else if i < n then O_set else O_get"
  obtain u where u: "opens s (u, ?f k)" using Suc by auto
  have "open_step k (u, ?f k) (u\<lparr>client_connect := 1, trace := trace u @ global_section\<rparr>, (?f k)(k := O_ret 0))"
    using step_set [of "?f k" k u] Suc.prems by simp
  moreover have "(?f k)(k := O_ret 0) = ?f (Suc k)" by auto
  ultimately have "open_step k (u, ?f k) (u\<lparr>client_connect := 1, trace := trace u @ global_section\<rparr>, ?f (Suc k))" by simp
  then show ?case by (intro exI) (rule opens_next [OF u])
qed

section \<open>Properties\<close>

text \<open>
  C16: opens of the device that overlap are not exclusive. Any number of threads that read
  the connection flag before one of them sets it are all granted the device. What does hold in every
  interleaving: an open that starts after another one succeeded is refused, and an open is refused
  only if another one succeeded. An open that is not interrupted does what \<open>teadfs_miscdev_open\<close> does.
\<close>

theorem open_race:
  fixes s :: "'w st"
  assumes "client_connect s = 0"
  shows "(\<exists>t pcs. opens s (t, pcs) \<and> (\<forall>i < n. pcs i = O_ret 0)) \<and>
    (\<forall>t pcs i j u qcs. opens s (t, pcs) \<longrightarrow> pcs j = O_ret 0 \<longrightarrow> pcs i = O_get \<longrightarrow> open_step i (t, pcs) (u, qcs) \<longrightarrow>
       qcs i = O_ret (- EBUSY)) \<and>
    (\<forall>t pcs i rc. opens s (t, pcs) \<longrightarrow> pcs i = O_ret rc \<longrightarrow> rc = 0 \<or> rc = - EBUSY \<and> (\<exists>j. pcs j = O_ret 0)) \<and>
    (\<forall>t pcs i rc u. pcs i = O_get \<longrightarrow> run_state teadfs_miscdev_open (t :: 'w st) = (rc, u) \<longrightarrow>
       (open_step i)\<^sup>*\<^sup>* (t, pcs) (u, pcs(i := O_ret rc)))"
proof (intro conjI allI impI)
  obtain t where "opens s (t, \<lambda>i. if i < n then O_set else O_get)" using all_read [OF assms] by blast
  from all_set [OF this order.refl] show "\<exists>t pcs. opens s (t, pcs) \<and> (\<forall>i < n. pcs i = O_ret 0)"
    by (elim exE) (intro exI conjI, assumption, simp)
next
  fix t u :: "'w st" and pcs qcs i j
  assume a: "opens s (t, pcs)" "pcs j = O_ret 0" "pcs i = O_get" "open_step i (t, pcs) (u, qcs)"
  have "client_connect t = 1" using opens_flag [OF a(1) assms] a(2) by (auto simp: flag_ok_def)
  then show "qcs i = O_ret (- EBUSY)" using a(3,4) by (auto elim!: open_stepE)
next
  fix t :: "'w st" and pcs i rc
  assume "opens s (t, pcs)" "pcs i = O_ret rc"
  then show "rc = 0 \<or> rc = - EBUSY \<and> (\<exists>j. pcs j = O_ret 0)"
    using opens_flag [OF _ assms] by (fastforce simp: flag_ok_def split: if_splits)
qed (rule open_alone)

theorem open_race_witness: "\<exists>t pcs. opens (boot_st ()) (t, pcs) \<and> pcs 0 = O_ret 0 \<and> pcs 1 = O_ret 0"
proof -
  have "client_connect (boot_st ()) = 0" by (simp add: boot_st_def)
  from open_race [OF this, of 2] show ?thesis by (metis one_less_numeral_iff semiring_norm(76) zero_less_numeral)
qed

end
