(* ===== verification/Build_Config.thy ===== *)
theory Build_Config
  imports Module_Main
begin

text \<open>
  The build options (\<open>config.h\<close>): which alternatives of the source a kernel version selects, and
  why the model has only one of each.
\<close>

section \<open>Options\<close>

definition KERNEL_VERSION :: "nat \<Rightarrow> nat \<Rightarrow> nat \<Rightarrow> nat" where
  "KERNEL_VERSION a b c = a * 2 ^ 16 + b * 2 ^ 8 + c"

definition CONFIG_BDICONFIG_BDI :: "nat \<Rightarrow> bool" where
  "CONFIG_BDICONFIG_BDI LINUX_VERSION_CODE \<longleftrightarrow> LINUX_VERSION_CODE > KERNEL_VERSION 3 11 0"

definition CONFIG_VFS_UNLINK_3_PARAM :: "nat \<Rightarrow> bool" where
  "CONFIG_VFS_UNLINK_3_PARAM LINUX_VERSION_CODE \<longleftrightarrow> \<not> LINUX_VERSION_CODE > KERNEL_VERSION 3 11 0"

definition CONFIG_ITERATE_DIR :: "nat \<Rightarrow> bool" where
  "CONFIG_ITERATE_DIR LINUX_VERSION_CODE \<longleftrightarrow> \<not> LINUX_VERSION_CODE < KERNEL_VERSION 3 11 0"

definition CONFIG_VFS_LINK_4_PARAM :: "nat \<Rightarrow> bool" where
  "CONFIG_VFS_LINK_4_PARAM LINUX_VERSION_CODE \<longleftrightarrow> LINUX_VERSION_CODE < KERNEL_VERSION 3 11 0"

definition CONFIG_VFS_UNLINK_4_PARAM :: "nat \<Rightarrow> bool" where
  "CONFIG_VFS_UNLINK_4_PARAM LINUX_VERSION_CODE \<longleftrightarrow> LINUX_VERSION_CODE < KERNEL_VERSION 3 11 0"

definition CONFIG_VFS_RENAME_6_PARAM :: "nat \<Rightarrow> bool" where
  "CONFIG_VFS_RENAME_6_PARAM LINUX_VERSION_CODE \<longleftrightarrow> LINUX_VERSION_CODE < KERNEL_VERSION 3 11 0"

definition CONFIG_INDOE_HAS_IO_LIST :: "nat \<Rightarrow> bool" where
  "CONFIG_INDOE_HAS_IO_LIST LINUX_VERSION_CODE \<longleftrightarrow> LINUX_VERSION_CODE \<ge> KERNEL_VERSION 4 3 0"

lemmas config_defs = CONFIG_BDICONFIG_BDI_def CONFIG_VFS_UNLINK_3_PARAM_def CONFIG_ITERATE_DIR_def
  CONFIG_VFS_LINK_4_PARAM_def CONFIG_VFS_UNLINK_4_PARAM_def CONFIG_VFS_RENAME_6_PARAM_def
  CONFIG_INDOE_HAS_IO_LIST_def KERNEL_VERSION_def

text \<open>\<open>teadfs_readdir\<close> uses its local \<open>buf\<close> in every build but declares it only without \<open>CONFIG_ITERATE_DIR\<close>.\<close>

definition builds :: "nat \<Rightarrow> bool" where
  "builds LINUX_VERSION_CODE \<longleftrightarrow> \<not> CONFIG_ITERATE_DIR LINUX_VERSION_CODE"

text \<open>
  All builds that compile select the same alternatives: no backing device, and the kernel
  interface with the additional arguments of \<open>vfs_link\<close>, \<open>vfs_unlink\<close> and \<open>vfs_rename\<close>.
\<close>

lemma one_build:
  assumes "builds v"
  shows "\<not> CONFIG_BDICONFIG_BDI v" "CONFIG_VFS_UNLINK_3_PARAM v" "CONFIG_VFS_LINK_4_PARAM v"
    "CONFIG_VFS_UNLINK_4_PARAM v" "CONFIG_VFS_RENAME_6_PARAM v" "\<not> CONFIG_INDOE_HAS_IO_LIST v"
  using assms by (simp_all add: builds_def config_defs)

lemma build_exists: "builds (KERNEL_VERSION 3 10 0)" "\<not> builds (KERNEL_VERSION 3 11 0)"
  by (simp_all add: builds_def config_defs)

lemma mount_as_built:
  "builds v \<Longrightarrow> teadfs_mount K (CONFIG_BDICONFIG_BDI v) flags name = teadfs_mount K False flags name"
  by (simp add: one_build)

end
