(* ===== verification/Events.thy ===== *)
theory Events
  imports TPrelude
begin

text \<open>
  The events of the client library (\<open>pevents.cpp\<close>, built without \<open>WFMO\<close> and \<open>PULSE\<close>): a flag, a
  mutex and a condition variable shared by any number of threads. Each operation is a step
  relation with one rule per access to shared memory and one program counter per thread.
  The invariant is mutual exclusion together with the absence of lost wake-ups; an atomic event is
  the specification that the steps refine.
\<close>

unbundle bit_operations_syntax

section \<open>State\<close>

definition WAIT_TIMEOUT :: int where "WAIT_TIMEOUT = 110"
definition WAIT_INFINITE :: u64 where "WAIT_INFINITE = NOT 0"

text \<open>
  Where a thread is. \<open>W\<close>: in a wait, with the time-out in milliseconds; \<open>S\<close>: in \<open>SetEvent\<close>;
  \<open>R\<close>: in \<open>ResetEvent\<close>. A sleeping thread is inside \<open>pthread_cond_timedwait\<close> or
  \<open>pthread_cond_wait\<close> and does not hold the mutex; \<open>W_relock\<close> is the same call, woken with a
  result and waiting for the mutex.
\<close>

datatype ev_pc =
    Idle
  | W_poll u64 | W_fast u64 | W_fast2 u64 | W_lock u64
  | W_check u64 | W_sleep u64 | W_relock int u64 | W_test int u64 | W_unlock int
  | S_lock | S_store | S_unlock | S_signal
  | R_store
  | Returned int

text \<open>\<open>neosmart_event_t_\<close> and the threads that use it.\<close>

record neosmart_event =
  AutoReset :: bool
  ev_State :: bool
  Mutex :: "nat option"
  pc :: "nat \<Rightarrow> ev_pc"

definition CreateEvent :: "bool \<Rightarrow> bool \<Rightarrow> neosmart_event" where
  "CreateEvent manualReset initialState =
     \<lparr>AutoReset = \<not> manualReset, ev_State = initialState, Mutex = None, pc = (\<lambda>_. Idle)\<rparr>"

abbreviation goto :: "nat \<Rightarrow> ev_pc \<Rightarrow> neosmart_event \<Rightarrow> neosmart_event" where
  "goto i p e \<equiv> e\<lparr>pc := (pc e)(i := p)\<rparr>"

fun sleeping :: "ev_pc \<Rightarrow> bool" where
  "sleeping (W_sleep ms) = True"
| "sleeping p = False"

section \<open>Operations\<close>

text \<open>
  Acquiring a set event resets it if it is an auto-reset event. The flag is read and written under
  the mutex; the only write without it, in \<open>ResetEvent\<close>, also writes \<open>false\<close>.
\<close>

definition take_event :: "bool \<Rightarrow> bool \<Rightarrow> bool" where
  "take_event auto st = (st \<and> \<not> auto)"

text \<open>
  The absolute deadline that \<open>UnlockedWaitForEvent\<close> computes from the time of day, in 64-bit
  arithmetic: seconds and nanoseconds.
\<close>

definition deadline :: "u64 \<Rightarrow> u64 \<Rightarrow> u64 \<Rightarrow> u64 \<times> u64" where
  "deadline tv_sec tv_usec milliseconds =
     (let nanoseconds = tv_sec * 1000 * 1000 * 1000 + milliseconds * 1000 * 1000 + tv_usec * 1000;
          ts_sec = nanoseconds div 1000 div 1000 div 1000
      in (ts_sec, nanoseconds - ts_sec * 1000 * 1000 * 1000))"

text \<open>
  The mutex is held on entry. A sleeper wakes by a signal (in \<open>SetEvent\<close>), spuriously, or by its
  time-out if it has one.
\<close>

inductive UnlockedWaitForEvent :: "nat \<Rightarrow> neosmart_event \<Rightarrow> neosmart_event \<Rightarrow> bool" for i where
  check_zero: "pc e i = W_check 0 \<Longrightarrow> \<not> ev_State e \<Longrightarrow>
    UnlockedWaitForEvent i e (goto i (W_unlock WAIT_TIMEOUT) e)"
| check_sleep: "pc e i = W_check ms \<Longrightarrow> ms \<noteq> 0 \<Longrightarrow> \<not> ev_State e \<Longrightarrow>
    UnlockedWaitForEvent i e (goto i (W_sleep ms) e\<lparr>Mutex := None\<rparr>)"
| check_take: "pc e i = W_check ms \<Longrightarrow> ev_State e \<Longrightarrow>
    UnlockedWaitForEvent i e (goto i (W_unlock 0) e\<lparr>ev_State := take_event (AutoReset e) True\<rparr>)"
| spurious: "pc e i = W_sleep ms \<Longrightarrow> UnlockedWaitForEvent i e (goto i (W_relock 0 ms) e)"
| timed_out: "pc e i = W_sleep ms \<Longrightarrow> ms \<noteq> WAIT_INFINITE \<Longrightarrow>
    UnlockedWaitForEvent i e (goto i (W_relock WAIT_TIMEOUT ms) e)"
| relock: "pc e i = W_relock r ms \<Longrightarrow> Mutex e = None \<Longrightarrow>
    UnlockedWaitForEvent i e (goto i (W_test r ms) e\<lparr>Mutex := Some i\<rparr>)"
| test_again: "pc e i = W_test 0 ms \<Longrightarrow> \<not> ev_State e \<Longrightarrow>
    UnlockedWaitForEvent i e (goto i (W_sleep ms) e\<lparr>Mutex := None\<rparr>)"
| test_take: "pc e i = W_test 0 ms \<Longrightarrow> ev_State e \<Longrightarrow>
    UnlockedWaitForEvent i e (goto i (W_unlock 0) e\<lparr>ev_State := take_event (AutoReset e) True\<rparr>)"
| test_fail: "pc e i = W_test r ms \<Longrightarrow> r \<noteq> 0 \<Longrightarrow> UnlockedWaitForEvent i e (goto i (W_unlock r) e)"

text \<open>The two lock-free shortcuts, the mutex around \<open>UnlockedWaitForEvent\<close>, and the return.\<close>

inductive WaitForEvent :: "nat \<Rightarrow> neosmart_event \<Rightarrow> neosmart_event \<Rightarrow> bool" for i where
  poll_no: "pc e i = W_poll 0 \<Longrightarrow> \<not> ev_State e \<Longrightarrow> WaitForEvent i e (goto i (Returned WAIT_TIMEOUT) e)"
| poll_on: "pc e i = W_poll ms \<Longrightarrow> ms \<noteq> 0 \<or> ev_State e \<Longrightarrow> WaitForEvent i e (goto i (W_fast ms) e)"
| fast_on: "pc e i = W_fast ms \<Longrightarrow> \<not> AutoReset e \<and> ev_State e \<Longrightarrow> WaitForEvent i e (goto i (W_fast2 ms) e)"
| fast_no: "pc e i = W_fast ms \<Longrightarrow> AutoReset e \<or> \<not> ev_State e \<Longrightarrow> WaitForEvent i e (goto i (W_lock ms) e)"
| fast_take: "pc e i = W_fast2 ms \<Longrightarrow> ev_State e \<Longrightarrow> \<not> AutoReset e \<Longrightarrow> WaitForEvent i e (goto i (Returned 0) e)"
| fast_lost: "pc e i = W_fast2 ms \<Longrightarrow> \<not> ev_State e \<Longrightarrow> WaitForEvent i e (goto i (W_lock ms) e)"
| wait_lock: "pc e i = W_lock ms \<Longrightarrow> Mutex e = None \<Longrightarrow>
    WaitForEvent i e (goto i (W_check ms) e\<lparr>Mutex := Some i\<rparr>)"
| wait_body: "UnlockedWaitForEvent i e f \<Longrightarrow> WaitForEvent i e f"
| wait_unlock: "pc e i = W_unlock r \<Longrightarrow> WaitForEvent i e (goto i (Returned r) e\<lparr>Mutex := None\<rparr>)"

text \<open>
  \<open>SetEvent\<close> sets the flag under the mutex and signals after releasing it: one sleeper for an
  auto-reset event, all of them for a manual-reset event.
\<close>

definition wake_all :: "neosmart_event \<Rightarrow> neosmart_event" where
  "wake_all e = e\<lparr>pc := (\<lambda>j. case pc e j of W_sleep ms \<Rightarrow> W_relock 0 ms | p \<Rightarrow> p)\<rparr>"

inductive SetEvent :: "nat \<Rightarrow> neosmart_event \<Rightarrow> neosmart_event \<Rightarrow> bool" for i where
  set_lock: "pc e i = S_lock \<Longrightarrow> Mutex e = None \<Longrightarrow> SetEvent i e (goto i S_store e\<lparr>Mutex := Some i\<rparr>)"
| set_store: "pc e i = S_store \<Longrightarrow> SetEvent i e (goto i S_unlock e\<lparr>ev_State := True\<rparr>)"
| set_unlock: "pc e i = S_unlock \<Longrightarrow> SetEvent i e (goto i S_signal e\<lparr>Mutex := None\<rparr>)"
| signal_one: "pc e i = S_signal \<Longrightarrow> AutoReset e \<Longrightarrow> pc e j = W_sleep ms \<Longrightarrow>
    SetEvent i e (goto i (Returned 0) (goto j (W_relock 0 ms) e))"
| signal_none: "pc e i = S_signal \<Longrightarrow> AutoReset e \<Longrightarrow> (\<forall>j. \<not> sleeping (pc e j)) \<Longrightarrow>
    SetEvent i e (goto i (Returned 0) e)"
| broadcast: "pc e i = S_signal \<Longrightarrow> \<not> AutoReset e \<Longrightarrow> SetEvent i e (goto i (Returned 0) (wake_all e))"

inductive ResetEvent :: "nat \<Rightarrow> neosmart_event \<Rightarrow> neosmart_event \<Rightarrow> bool" for i where
  reset_store: "pc e i = R_store \<Longrightarrow> ResetEvent i e (goto i (Returned 0) e\<lparr>ev_State := False\<rparr>)"

text \<open>A thread calls an operation, runs it, and returns from it.\<close>

inductive ev_step :: "nat \<Rightarrow> neosmart_event \<Rightarrow> neosmart_event \<Rightarrow> bool" for i where
  call_wait: "pc e i = Idle \<Longrightarrow> ev_step i e (goto i (W_poll ms) e)"
| call_set: "pc e i = Idle \<Longrightarrow> ev_step i e (goto i S_lock e)"
| call_reset: "pc e i = Idle \<Longrightarrow> ev_step i e (goto i R_store e)"
| in_wait: "WaitForEvent i e f \<Longrightarrow> ev_step i e f"
| in_set: "SetEvent i e f \<Longrightarrow> ev_step i e f"
| in_reset: "ResetEvent i e f \<Longrightarrow> ev_step i e f"
| call_return: "pc e i = Returned r \<Longrightarrow> ev_step i e (goto i Idle e)"

inductive ev_reachable :: "neosmart_event \<Rightarrow> bool" where
  created: "ev_reachable (CreateEvent manualReset initialState)"
| stepped: "ev_reachable e \<Longrightarrow> ev_step i e f \<Longrightarrow> ev_reachable f"

inductive_cases ev_stepE: "ev_step i e f"
inductive_cases WaitE: "WaitForEvent i e f"
inductive_cases UnlockedE: "UnlockedWaitForEvent i e f"
inductive_cases SetE: "SetEvent i e f"
inductive_cases ResetE: "ResetEvent i e f"

lemmas ev_cases = ev_stepE WaitE UnlockedE SetE ResetE

section \<open>The invariant\<close>

fun critical :: "ev_pc \<Rightarrow> bool" where
  "critical (W_check ms) = True"
| "critical (W_test r ms) = True"
| "critical (W_unlock r) = True"
| "critical S_store = True"
| "critical S_unlock = True"
| "critical p = False"

text \<open>A woken thread has a result that its time-out allows.\<close>

fun result_ok :: "ev_pc \<Rightarrow> bool" where
  "result_ok (W_relock r ms) = (r = 0 \<or> r = WAIT_TIMEOUT \<and> ms \<noteq> WAIT_INFINITE)"
| "result_ok (W_test r ms) = (r = 0 \<or> r = WAIT_TIMEOUT \<and> ms \<noteq> WAIT_INFINITE)"
| "result_ok p = True"

text \<open>A thread that is about to signal, and one that is about to look at the flag again.\<close>

fun will_signal :: "ev_pc \<Rightarrow> bool" where
  "will_signal S_unlock = True"
| "will_signal S_signal = True"
| "will_signal p = False"

fun will_test :: "ev_pc \<Rightarrow> bool" where
  "will_test (W_relock r ms) = (r = 0)"
| "will_test (W_test r ms) = (r = 0)"
| "will_test p = False"

definition excl :: "neosmart_event \<Rightarrow> bool" where
  "excl e \<longleftrightarrow> (\<forall>i. critical (pc e i) \<longleftrightarrow> Mutex e = Some i)"

definition no_loss :: "neosmart_event \<Rightarrow> bool" where
  "no_loss e \<longleftrightarrow> (ev_State e \<longrightarrow> (\<exists>i. sleeping (pc e i)) \<longrightarrow>
     (\<exists>j. will_signal (pc e j) \<or> AutoReset e \<and> will_test (pc e j)))"

lemma timeout_nonzero [simp]: "WAIT_TIMEOUT \<noteq> 0"
  by (simp add: WAIT_TIMEOUT_def)

lemma zero_finite [simp]: "0 \<noteq> WAIT_INFINITE"
  by (simp add: WAIT_INFINITE_def)

lemma sleeping_iff: "sleeping p \<longleftrightarrow> (\<exists>ms. p = W_sleep ms)"
  by (cases p) simp_all

lemma wake_all_simps [simp]:
  "AutoReset (wake_all e) = AutoReset e" "ev_State (wake_all e) = ev_State e" "Mutex (wake_all e) = Mutex e"
  "critical (pc (wake_all e) i) = critical (pc e i)" "\<not> sleeping (pc (wake_all e) i)"
  "result_ok (pc e i) \<Longrightarrow> result_ok (pc (wake_all e) i)"
  "pc e i = S_signal \<Longrightarrow> pc (wake_all e) i = S_signal"
  by (cases "pc e i"; simp add: wake_all_def)+

lemma ev_step_auto: "ev_step i e f \<Longrightarrow> AutoReset f = AutoReset e"
  by (auto elim!: ev_cases)

lemma ev_step_excl: "ev_step i e f \<Longrightarrow> excl e \<Longrightarrow> excl f"
  unfolding excl_def by (elim ev_cases; simp; metis critical.simps option.inject)

lemma ev_step_result: "ev_step i e f \<Longrightarrow> \<forall>k. result_ok (pc e k) \<Longrightarrow> \<forall>k. result_ok (pc f k)"
  by (elim ev_cases; simp; metis result_ok.simps wake_all_simps(6))

lemma ev_step_no_loss: "ev_step i e f \<Longrightarrow> no_loss e \<Longrightarrow> no_loss f"
  unfolding no_loss_def
  by (elim ev_cases; simp add: take_event_def; metis sleeping.simps will_signal.simps will_test.simps)

lemma ev_invariant:
  assumes "ev_reachable e"
  shows "excl e" "\<forall>i. result_ok (pc e i)" "no_loss e"
proof -
  have "excl e \<and> (\<forall>i. result_ok (pc e i)) \<and> no_loss e"
    using assms
  proof (induction rule: ev_reachable.induct)
    case created
    show ?case by (simp add: CreateEvent_def excl_def no_loss_def)
  next
    case stepped
    then show ?case by (blast intro: ev_step_excl ev_step_no_loss dest: ev_step_result)
  qed
  then show "excl e" "\<forall>i. result_ok (pc e i)" "no_loss e" by blast+
qed

section \<open>The atomic event\<close>

text \<open>
  What the operations promise: a wait takes a set event in one step, which leaves it set exactly if
  it is a manual-reset event, or times out, if it has a time-out; \<open>SetEvent\<close> and \<open>ResetEvent\<close> change the flag in one step.
\<close>

datatype aev_pc = A_idle | A_waiting u64 | A_setting | A_resetting | A_returned int

record atomic_event =
  a_auto :: bool
  a_State :: bool
  a_pc :: "nat \<Rightarrow> aev_pc"

abbreviation agoto :: "nat \<Rightarrow> aev_pc \<Rightarrow> atomic_event \<Rightarrow> atomic_event" where
  "agoto i p a \<equiv> a\<lparr>a_pc := (a_pc a)(i := p)\<rparr>"

inductive atomic_step :: "nat \<Rightarrow> atomic_event \<Rightarrow> atomic_event \<Rightarrow> bool" for i where
  a_wait: "a_pc a i = A_idle \<Longrightarrow> atomic_step i a (agoto i (A_waiting ms) a)"
| a_set: "a_pc a i = A_idle \<Longrightarrow> atomic_step i a (agoto i A_setting a)"
| a_reset: "a_pc a i = A_idle \<Longrightarrow> atomic_step i a (agoto i A_resetting a)"
| a_take: "a_pc a i = A_waiting ms \<Longrightarrow> a_State a \<Longrightarrow>
    atomic_step i a (agoto i (A_returned 0) a\<lparr>a_State := \<not> a_auto a\<rparr>)"
| a_timeout: "a_pc a i = A_waiting ms \<Longrightarrow> ms \<noteq> WAIT_INFINITE \<Longrightarrow>
    atomic_step i a (agoto i (A_returned WAIT_TIMEOUT) a)"
| a_do_set: "a_pc a i = A_setting \<Longrightarrow> atomic_step i a (agoto i (A_returned 0) a\<lparr>a_State := True\<rparr>)"
| a_do_reset: "a_pc a i = A_resetting \<Longrightarrow> atomic_step i a (agoto i (A_returned 0) a\<lparr>a_State := False\<rparr>)"
| a_return: "a_pc a i = A_returned r \<Longrightarrow> atomic_step i a (agoto i A_idle a)"

fun abs_pc :: "ev_pc \<Rightarrow> aev_pc" where
  "abs_pc Idle = A_idle"
| "abs_pc (W_poll ms) = A_waiting ms"
| "abs_pc (W_fast ms) = A_waiting ms"
| "abs_pc (W_fast2 ms) = A_waiting ms"
| "abs_pc (W_lock ms) = A_waiting ms"
| "abs_pc (W_check ms) = A_waiting ms"
| "abs_pc (W_sleep ms) = A_waiting ms"
| "abs_pc (W_relock r ms) = A_waiting ms"
| "abs_pc (W_test r ms) = A_waiting ms"
| "abs_pc (W_unlock r) = A_returned r"
| "abs_pc S_lock = A_setting"
| "abs_pc S_store = A_setting"
| "abs_pc S_unlock = A_returned 0"
| "abs_pc S_signal = A_returned 0"
| "abs_pc R_store = A_resetting"
| "abs_pc (Returned r) = A_returned r"

definition abs_event :: "neosmart_event \<Rightarrow> atomic_event" where
  "abs_event e = \<lparr>a_auto = AutoReset e, a_State = ev_State e, a_pc = abs_pc \<circ> pc e\<rparr>"

lemma abs_event_simps [simp]:
  "a_auto (abs_event e) = AutoReset e" "a_State (abs_event e) = ev_State e" "a_pc (abs_event e) i = abs_pc (pc e i)"
  "abs_event (e\<lparr>ev_State := b\<rparr>) = abs_event e\<lparr>a_State := b\<rparr>" "abs_event (e\<lparr>Mutex := m\<rparr>) = abs_event e"
  "abs_event (e\<lparr>pc := (pc e)(i := p)\<rparr>) = agoto i (abs_pc p) (abs_event e)"
  "abs_event (e\<lparr>pc := (pc e)(j := q, i := p)\<rparr>) = agoto i (abs_pc p) (agoto j (abs_pc q) (abs_event e))"
  by (simp_all add: abs_event_def fun_upd_comp)

lemma abs_wake_all [simp]: "abs_event (wake_all e) = abs_event e"
  by (auto simp: abs_event_def wake_all_def fun_eq_iff split: ev_pc.splits)

lemma agoto_same: "a_pc a i = p \<Longrightarrow> agoto i p a = a"
  by auto

text \<open>The atomic steps without the time-out as a parameter of the goal.\<close>

lemma a_take_any:
  assumes "\<exists>ms. a_pc a i = A_waiting ms" "a_State a"
  shows "b = (\<not> a_auto a) \<Longrightarrow> atomic_step i a (agoto i (A_returned 0) a\<lparr>a_State := b\<rparr>)"
    and "\<not> a_auto a \<Longrightarrow> atomic_step i a (agoto i (A_returned 0) a)"
proof -
  show take: "atomic_step i a (agoto i (A_returned 0) a\<lparr>a_State := b\<rparr>)" if "b = (\<not> a_auto a)" for b
    using assms that a_take by auto
  show "atomic_step i a (agoto i (A_returned 0) a)" if "\<not> a_auto a"
  proof -
    have "agoto i (A_returned 0) a\<lparr>a_State := \<not> a_auto a\<rparr> = agoto i (A_returned 0) a"
      using assms(2) that by (cases a) simp
    then show ?thesis using take [OF refl] by simp
  qed
qed

lemma a_timeout_any:
  "\<exists>ms. a_pc a i = A_waiting ms \<and> ms \<noteq> WAIT_INFINITE \<Longrightarrow> r = WAIT_TIMEOUT \<Longrightarrow>
     atomic_step i a (agoto i (A_returned r) a)"
  using a_timeout by auto

lemma a_return_any: "\<exists>r. a_pc a i = A_returned r \<Longrightarrow> atomic_step i a (agoto i A_idle a)"
  using a_return by auto

lemmas atomic_intros = a_wait a_set a_reset a_do_set a_do_reset a_take_any a_timeout_any a_return_any

section \<open>Properties\<close>

text \<open>
  C27: however the threads interleave, no wake-up is lost: whenever the event is set
  while some thread sleeps on it, a thread is about to signal or (for an auto-reset event) a thread
  has been woken and will look at the flag. In particular the signal after the mutex has been
  released is never missed.
\<close>

theorem no_lost_wakeup:
  assumes "ev_reachable e" "ev_State e" "pc e i = W_sleep ms"
  shows "\<exists>j. pc e j = S_unlock \<or> pc e j = S_signal \<or>
    AutoReset e \<and> (\<exists>ms'. pc e j = W_relock 0 ms' \<or> pc e j = W_test 0 ms')"
proof -
  have "sleeping (pc e i)" by (simp add: assms(3))
  then obtain j where "will_signal (pc e j) \<or> AutoReset e \<and> will_test (pc e j)"
    using ev_invariant(3) [OF assms(1)] assms(2) unfolding no_loss_def by blast
  then show ?thesis by (cases "pc e j") auto
qed

text \<open>
  C26: the operations with their mutex, condition variable and lock-free
  shortcuts implement the atomic event: every step of a thread is invisible or exactly one atomic
  step of that thread.
\<close>

theorem event_refines_atomic:
  assumes "ev_reachable e" "ev_step i e f"
  shows "abs_event f = abs_event e \<or> atomic_step i (abs_event e) (abs_event f)"
proof -
  have r: "result_ok (pc e i)" using ev_invariant(2) [OF assms(1)] by blast
  have "ev_step i e f \<Longrightarrow> ?thesis"
    by (elim ev_cases; use r in \<open>simp add: agoto_same take_event_def\<close>; rule disjI2; rule atomic_intros; simp; fail)
  then show ?thesis using assms(2) .
qed

text \<open>
  The deadline handed to \<open>pthread_cond_timedwait\<close> always has a valid nanosecond
  part, so the call cannot fail with \<open>EINVAL\<close>; and it is exactly the time of day plus the time-out as
  long as that fits in 64 bits.
\<close>

theorem deadline_exact:
  assumes "deadline tv_sec tv_usec ms = (sec, nsec)"
  shows "unat nsec < 10 ^ 9 \<and>
    (unat tv_sec * 10 ^ 9 + unat ms * 10 ^ 6 + unat tv_usec * 10 ^ 3 < 2 ^ 64 \<longrightarrow>
     unat sec * 10 ^ 9 + unat nsec = unat tv_sec * 10 ^ 9 + unat ms * 10 ^ 6 + unat tv_usec * 10 ^ 3)"
proof -
  define ns where "ns = tv_sec * 1000 * 1000 * 1000 + ms * 1000 * 1000 + tv_usec * 1000"
  have sec: "unat sec = unat ns div 10 ^ 9"
  proof -
    have "sec = ns div 1000 div 1000 div 1000"
      using assms unfolding deadline_def Let_def ns_def [symmetric] by simp
    then show ?thesis by (simp add: unat_div div_mult2_eq [symmetric])
  qed
  have "unat ns < 2 ^ 64" using unsigned_less [of ns, where ?'a = nat] by simp
  then have "unat sec * 10 ^ 9 < 2 ^ 64" unfolding sec using div_times_less_eq_dividend order.strict_trans1 by blast
  then have prod: "unat (sec * 1000 * 1000 * 1000) = unat sec * 10 ^ 9"
    by (simp add: unat_word_ariths mult.assoc)
  have le: "sec * 1000 * 1000 * 1000 \<le> ns"
    unfolding word_le_nat_alt prod sec by simp
  have "nsec = ns - sec * 1000 * 1000 * 1000"
    using assms unfolding deadline_def Let_def ns_def [symmetric] by auto
  then have nsec: "unat nsec = unat ns mod 10 ^ 9"
    using unat_sub [OF le] unfolding prod sec by (simp add: minus_div_mult_eq_mod)
  have "unat ns = unat tv_sec * 10 ^ 9 + unat ms * 10 ^ 6 + unat tv_usec * 10 ^ 3"
    if "unat tv_sec * 10 ^ 9 + unat ms * 10 ^ 6 + unat tv_usec * 10 ^ 3 < 2 ^ 64"
    using that by (simp add: ns_def unat_word_ariths mod_simps mult.assoc)
  then show ?thesis using sec nsec by simp
qed

section \<open>Witnesses\<close>

text \<open>Thread \<open>0\<close> sleeps in a wait, thread \<open>1\<close> has just set the event.\<close>

definition set_while_asleep :: neosmart_event where
  "set_while_asleep = (CreateEvent False False)\<lparr>ev_State := True, Mutex := Some 1,
     pc := (\<lambda>_. Idle)(0 := W_sleep 5000, 1 := S_unlock)\<rparr>"

lemma reached: "ev_reachable e \<Longrightarrow> ev_step i e f' \<Longrightarrow> f' = f \<Longrightarrow> ev_reachable f"
  using stepped by blast

lemma set_while_asleep_reachable: "ev_reachable set_while_asleep"
proof -
  let ?e = "CreateEvent False False"
  have "ev_reachable (goto 0 (W_poll 5000) ?e)"
    by (rule stepped [OF created call_wait]) (simp add: CreateEvent_def)
  then have "ev_reachable (goto 0 (W_fast 5000) ?e)"
    by (rule reached [OF _ in_wait [OF poll_on [where i = 0 and ms = 5000]]]) (simp_all add: CreateEvent_def)
  then have "ev_reachable (goto 0 (W_lock 5000) ?e)"
    by (rule reached [OF _ in_wait [OF fast_no [where i = 0 and ms = 5000]]]) (simp_all add: CreateEvent_def)
  then have "ev_reachable (goto 0 (W_check 5000) ?e\<lparr>Mutex := Some 0\<rparr>)"
    by (rule reached [OF _ in_wait [OF wait_lock [where i = 0 and ms = 5000]]]) (simp_all add: CreateEvent_def)
  then have "ev_reachable (goto 0 (W_sleep 5000) ?e)"
    by (rule reached [OF _ in_wait [OF wait_body [OF check_sleep [where i = 0 and ms = 5000]]]]) (simp_all add: CreateEvent_def)
  then have "ev_reachable (goto 1 S_lock (goto 0 (W_sleep 5000) ?e))"
    by (rule reached [OF _ call_set [where i = 1]]) (simp_all add: CreateEvent_def)
  then have "ev_reachable (goto 1 S_store (goto 0 (W_sleep 5000) ?e)\<lparr>Mutex := Some 1\<rparr>)"
    by (rule reached [OF _ in_set [OF set_lock [where i = 1]]]) (simp_all add: CreateEvent_def)
  then show ?thesis
    by (rule reached [OF _ in_set [OF set_store [where i = 1]]]) (simp_all add: CreateEvent_def set_while_asleep_def)
qed

theorem no_lost_wakeup_witness:
  "\<exists>j. pc set_while_asleep j = S_unlock \<or> pc set_while_asleep j = S_signal \<or>
     AutoReset set_while_asleep \<and> (\<exists>ms. pc set_while_asleep j = W_relock 0 ms \<or> pc set_while_asleep j = W_test 0 ms)"
  by (rule no_lost_wakeup [OF set_while_asleep_reachable, of 0 5000]) (simp_all add: set_while_asleep_def)

theorem event_refines_atomic_witness:
  "abs_event (goto 1 S_signal set_while_asleep\<lparr>Mutex := None\<rparr>) = abs_event set_while_asleep \<or>
   atomic_step 1 (abs_event set_while_asleep) (abs_event (goto 1 S_signal set_while_asleep\<lparr>Mutex := None\<rparr>))"
  by (rule event_refines_atomic [OF set_while_asleep_reachable in_set [OF set_unlock]])
    (simp add: set_while_asleep_def)

theorem deadline_exact_witness:
  "deadline 100 7 5000 = (105, 7000) \<and> unat (7000 :: u64) < 10 ^ 9"
  using deadline_exact [of 100 7 5000 105 7000] by (simp add: deadline_def)

end
