(* ===== verification/Thread_Pool.thy ===== *)
theory Thread_Pool
  imports Events "HOL-Library.Multiset"
begin

text \<open>
  The thread pool of the client library (\<open>thread_pool.h\<close>): a task list, workers that take tasks
  from it and leave after some idle time, and a dispatcher that wakes or creates workers. Every
  thread has a program counter; a step of the pool is one step of the thread that adds tasks, of
  the dispatcher or of a worker. The events are the atomic auto-reset events of \<open>Events\<close>, whose
  waits may time out at any moment.
\<close>

section \<open>The task list\<close>

definition Push :: "'a \<Rightarrow> 'a list \<Rightarrow> 'a list" where
  "Push t m_list = m_list @ [t]"

fun Pop :: "'a list \<Rightarrow> 'a option \<times> 'a list" where
  "Pop [] = (None, [])"
| "Pop (t # m_list) = (Some t, m_list)"

section \<open>Workers\<close>

definition MAX_REPEAT_COUNT :: int where "MAX_REPEAT_COUNT = 12"
definition TIMEOUT_INTERVAL :: u64 where "TIMEOUT_INTERVAL = 5000"

datatype THREAD_STATUS = TS_WAIT | TS_RUNNING | TS_EXIT

text \<open>
  Where a worker is in \<open>Runnable\<close>: at the loop test, before \<open>Pop\<close>, before it marks itself as
  waiting, in the wait, in the handler, or past the end.
\<close>

datatype 'a work_pc = L_test | L_pop | L_mark | L_wait | L_handle 'a | L_end

record 'a CThreadWork =
  w_event :: bool
  w_bExit :: bool
  m_status :: THREAD_STATUS
  nRepeatCount :: int
  w_pc :: "'a work_pc"

definition new_work :: "'a CThreadWork" where
  "new_work = \<lparr>w_event = False, w_bExit = False, m_status = TS_WAIT, nRepeatCount = MAX_REPEAT_COUNT,
     w_pc = L_test\<rparr>"

text \<open>How a wait with a time-out ends: with the event, which must be set, or without it.\<close>

datatype wait_result = Signalled | Timed_out

text \<open>
  One step of a worker on the task list. The loop test and the status that follows it are one
  step: \<open>m_bExit\<close> is written by the worker only. A handler returns or throws an exception that
  is caught; either way the loop goes on.
\<close>

fun work_step :: "wait_result \<Rightarrow> 'a CThreadWork \<Rightarrow> 'a list \<Rightarrow> ('a CThreadWork \<times> 'a list) option" where
  "work_step r w tasks = (case w_pc w of
     L_test \<Rightarrow>
       (if w_bExit w then Some (w\<lparr>m_status := TS_EXIT, w_pc := L_end\<rparr>, tasks)
        else Some (w\<lparr>m_status := TS_RUNNING, w_pc := L_pop\<rparr>, tasks))
   | L_pop \<Rightarrow>
       (case Pop tasks of
          (None, tasks') \<Rightarrow> Some (w\<lparr>w_pc := L_mark\<rparr>, tasks')
        | (Some t, tasks') \<Rightarrow> Some (w\<lparr>w_pc := L_handle t\<rparr>, tasks'))
   | L_mark \<Rightarrow> Some (w\<lparr>m_status := TS_WAIT, w_pc := L_wait\<rparr>, tasks)
   | L_wait \<Rightarrow>
       (case r of
          Signalled \<Rightarrow> if w_event w then Some (w\<lparr>w_event := take_event True (w_event w), w_pc := L_test\<rparr>, tasks)
            else None
        | Timed_out \<Rightarrow>
            let n = nRepeatCount w - 1
            in Some (w\<lparr>nRepeatCount := n, w_bExit := (if n = 0 then True else w_bExit w), w_pc := L_test\<rparr>, tasks))
   | L_handle t \<Rightarrow> Some (w\<lparr>nRepeatCount := MAX_REPEAT_COUNT, w_pc := L_test\<rparr>, tasks)
   | L_end \<Rightarrow> None)"

text \<open>\<open>Exit\<close> is not called in the library.\<close>

definition Exit :: "'a CThreadWork \<Rightarrow> 'a CThreadWork" where
  "Exit w = w\<lparr>w_bExit := True\<rparr>"

definition Wakeup :: "'a CThreadWork \<Rightarrow> 'a CThreadWork" where
  "Wakeup w = w\<lparr>w_event := True\<rparr>"

section \<open>The pool\<close>

text \<open>
  Where the dispatcher is: at the loop test, in the wait, in the scan at an index of the list with
  the waiting worker found so far (before the first and before the second call of \<open>Status\<close>),
  before \<open>Wakeup\<close>, or past the end.
\<close>

datatype disp_pc = D_test | D_wait | D_scan nat "nat option" | D_check nat "nat option" | D_wake nat | D_end

text \<open>
  \<open>workers\<close> holds every worker ever created, \<open>m_threadPool\<close> the indices of those in the list;
  \<open>signalling\<close> is set while \<open>AddTask\<close> is between \<open>Push\<close> and \<open>SetEvent\<close>. The last three fields are
  a record of what happened: tasks in the order they were added and taken, and those that were
  handled.
\<close>

record 'a CThreadPool =
  m_task :: "'a list"
  p_event :: bool
  p_bExit :: bool
  m_threadPool :: "nat list"
  workers :: "'a CThreadWork list"
  d_pc :: disp_pc
  signalling :: bool
  added :: "'a list"
  started :: "'a list"
  handled :: "'a list"

definition new_pool :: "'a CThreadPool" where
  "new_pool = \<lparr>m_task = [], p_event = False, p_bExit = False, m_threadPool = [], workers = [], d_pc = D_test,
     signalling = False, added = [], started = [], handled = []\<rparr>"

definition Status :: "'a CThreadPool \<Rightarrow> nat \<Rightarrow> THREAD_STATUS" where
  "Status p i = m_status (workers p ! i)"

text \<open>\<open>AddTask\<close>, called by the one thread that receives messages: \<open>Push\<close>, then \<open>SetEvent\<close>.\<close>

definition AddTask :: "'a \<Rightarrow> 'a CThreadPool \<Rightarrow> 'a CThreadPool option" where
  "AddTask t p = (if signalling p then None
     else Some (p\<lparr>m_task := Push t (m_task p), added := added p @ [t], signalling := True\<rparr>))"

definition AddTask_signal :: "'a CThreadPool \<Rightarrow> 'a CThreadPool option" where
  "AddTask_signal p = (if signalling p then Some (p\<lparr>p_event := True, signalling := False\<rparr>) else None)"

text \<open>The dispatcher. Erasing a worker from the list destroys it.\<close>

fun dispatch :: "wait_result \<Rightarrow> 'a CThreadPool \<Rightarrow> 'a CThreadPool option" where
  "dispatch r p = (case d_pc p of
     D_test \<Rightarrow> Some (p\<lparr>d_pc := (if p_bExit p then D_end else D_wait)\<rparr>)
   | D_wait \<Rightarrow>
       (case r of
          Timed_out \<Rightarrow> Some (p\<lparr>d_pc := D_test\<rparr>)
        | Signalled \<Rightarrow> if p_event p then Some (p\<lparr>p_event := take_event True (p_event p), d_pc := D_scan 0 None\<rparr>)
            else None)
   | D_scan k found \<Rightarrow>
       if k < length (m_threadPool p)
       then if Status p (m_threadPool p ! k) = TS_WAIT
         then Some (p\<lparr>d_pc := D_scan (k + 1) (Some (m_threadPool p ! k))\<rparr>)
         else Some (p\<lparr>d_pc := D_check k found\<rparr>)
       else (case found of
          Some i \<Rightarrow> Some (p\<lparr>d_pc := D_wake i\<rparr>)
        | None \<Rightarrow> Some (p\<lparr>workers := workers p @ [new_work], m_threadPool := m_threadPool p @ [length (workers p)],
            d_pc := D_wake (length (workers p))\<rparr>))
   | D_check k found \<Rightarrow>
       if Status p (m_threadPool p ! k) = TS_EXIT
       then Some (p\<lparr>m_threadPool := take k (m_threadPool p) @ drop (k + 1) (m_threadPool p), d_pc := D_scan k found\<rparr>)
       else Some (p\<lparr>d_pc := D_scan (k + 1) found\<rparr>)
   | D_wake i \<Rightarrow> Some (p\<lparr>workers := (workers p)[i := Wakeup (workers p ! i)], d_pc := D_test\<rparr>)
   | D_end \<Rightarrow> None)"

text \<open>A step of worker \<open>i\<close>, with the record of what it took and handled.\<close>

definition work :: "nat \<Rightarrow> wait_result \<Rightarrow> 'a CThreadPool \<Rightarrow> 'a CThreadPool option" where
  "work i r p = (if i < length (workers p) then
     (case work_step r (workers p ! i) (m_task p) of
        None \<Rightarrow> None
      | Some (w, tasks) \<Rightarrow> Some (p\<lparr>workers := (workers p)[i := w], m_task := tasks,
          started := started p @ take (length (m_task p) - length tasks) (m_task p),
          handled := handled p @ (case w_pc (workers p ! i) of L_handle t \<Rightarrow> [t] | _ \<Rightarrow> [])\<rparr>))
     else None)"

datatype 'a action = Add 'a | Add_signal | Dispatch wait_result | Work nat wait_result

fun pool_step :: "'a action \<Rightarrow> 'a CThreadPool \<Rightarrow> 'a CThreadPool option" where
  "pool_step (Add t) p = AddTask t p"
| "pool_step Add_signal p = AddTask_signal p"
| "pool_step (Dispatch r) p = dispatch r p"
| "pool_step (Work i r) p = work i r p"

fun pool_run :: "'a action list \<Rightarrow> 'a CThreadPool \<Rightarrow> 'a CThreadPool option" where
  "pool_run [] p = Some p"
| "pool_run (a # as) p = (case pool_step a p of None \<Rightarrow> None | Some q \<Rightarrow> pool_run as q)"

inductive pool_reachable :: "'a CThreadPool \<Rightarrow> bool" where
  pool_new: "pool_reachable new_pool"
| pool_next: "pool_reachable p \<Longrightarrow> pool_step a p = Some q \<Longrightarrow> pool_reachable q"

lemma pool_run_append:
  "pool_run (as @ bs) p = (case pool_run as p of None \<Rightarrow> None | Some q \<Rightarrow> pool_run bs q)"
  by (induction as arbitrary: p) (auto split: option.splits)

lemma pool_reachable_run: "pool_reachable p \<Longrightarrow> pool_run as p = Some q \<Longrightarrow> pool_reachable q"
  by (induction as arbitrary: p) (auto split: option.splits intro: pool_next)

section \<open>Destruction\<close>

text \<open>
  What the destructors may do wrong: POSIX leaves destroying a condition variable undefined while
  a thread waits for it, and an object must not be used after its destructor.
\<close>

datatype misuse = Destroyed_in_wait | Used_after_free

text \<open>\<open>DestroyEvent\<close>, where \<open>waiting\<close> tells whether a thread is in \<open>WaitForEvent\<close> on the event.\<close>

definition DestroyEvent :: "bool \<Rightarrow> misuse list" where
  "DestroyEvent waiting = (if waiting then [Destroyed_in_wait] else [])"

definition destroy_work :: "'a CThreadWork \<Rightarrow> misuse list \<times> 'a CThreadWork" where
  "destroy_work w = (DestroyEvent (w_pc w = L_wait), w\<lparr>w_bExit := True\<rparr>)"

text \<open>
  The dispatcher's local pointer \<open>ptrThread\<close>; a worker it points to outlives its entry in the list.
\<close>

fun chosen :: "disp_pc \<Rightarrow> nat option" where
  "chosen (D_scan k found) = found"
| "chosen (D_check k found) = found"
| "chosen (D_wake i) = Some i"
| "chosen _ = None"

fun destroy_works :: "nat option \<Rightarrow> nat list \<Rightarrow> 'a CThreadPool \<Rightarrow> misuse list \<times> 'a CThreadPool" where
  "destroy_works ptrThread [] p = ([], p)"
| "destroy_works ptrThread (i # is) p =
     (if ptrThread = Some i then destroy_works ptrThread is p
      else
        let (ms, w) = destroy_work (workers p ! i);
            (ns, q) = destroy_works ptrThread is (p\<lparr>workers := (workers p)[i := w]\<rparr>)
        in (ms @ ns, q))"

text \<open>
  The destructor of the pool and then those of its members, without a step of another thread in
  between. The threads are detached: they are not waited for.
\<close>

definition destroy_pool :: "'a CThreadPool \<Rightarrow> misuse list \<times> 'a CThreadPool" where
  "destroy_pool p =
     (let ms = DestroyEvent (d_pc p = D_wait);
          (ns, q) = destroy_works (chosen (d_pc p)) (m_threadPool p) (p\<lparr>p_bExit := True\<rparr>)
      in (ms @ ns, q\<lparr>m_threadPool := []\<rparr>))"

text \<open>
  A step of the dispatcher of a destroyed pool. Only waking a worker uses no member of the pool:
  testing the flag reads \<open>m_bExit\<close>, waiting uses \<open>m_event\<close>, the scan and a new worker use \<open>m_threadPool\<close>.
\<close>

definition dispatch_destroyed :: "'a CThreadPool \<Rightarrow> misuse + 'a CThreadPool" where
  "dispatch_destroyed p = (case d_pc p of
     D_wake i \<Rightarrow> Inr (p\<lparr>workers := (workers p)[i := Wakeup (workers p ! i)], d_pc := D_test\<rparr>)
   | D_end \<Rightarrow> Inr p
   | _ \<Rightarrow> Inl Used_after_free)"

section \<open>Invariants\<close>

text \<open>What holds of a worker between two of its steps.\<close>

definition work_ok :: "'a CThreadWork \<Rightarrow> bool" where
  "work_ok w \<longleftrightarrow> 0 \<le> nRepeatCount w \<and> nRepeatCount w \<le> MAX_REPEAT_COUNT \<and>
     (w_bExit w \<longleftrightarrow> nRepeatCount w = 0) \<and>
     (case w_pc w of
        L_test \<Rightarrow> m_status w \<noteq> TS_EXIT
      | L_wait \<Rightarrow> \<not> w_bExit w \<and> m_status w = TS_WAIT
      | L_end \<Rightarrow> w_bExit w \<and> m_status w = TS_EXIT
      | _ \<Rightarrow> \<not> w_bExit w \<and> m_status w = TS_RUNNING)"

lemma new_work_ok: "work_ok new_work"
  by (simp add: work_ok_def new_work_def MAX_REPEAT_COUNT_def)

lemma wakeup_ok: "work_ok (Wakeup w) \<longleftrightarrow> work_ok w"
  by (cases "w_pc w") (simp_all add: work_ok_def Wakeup_def)

lemma work_step_ok: "work_step r w ts = Some (w', ts') \<Longrightarrow> work_ok w \<Longrightarrow> work_ok w'"
  by (cases "w_pc w"; cases r; cases ts)
    (auto simp: work_ok_def MAX_REPEAT_COUNT_def Let_def split: if_splits)

text \<open>The tasks that are being handled.\<close>

fun task_of :: "'a work_pc \<Rightarrow> 'a multiset" where
  "task_of (L_handle t) = {#t#}"
| "task_of _ = {#}"

definition running :: "'a CThreadPool \<Rightarrow> 'a multiset" where
  "running p = sum_mset (image_mset (\<lambda>w. task_of (w_pc w)) (mset (workers p)))"

lemma sum_mset_update:
  fixes f :: "'b \<Rightarrow> 'a multiset"
  assumes "i < length xs"
  shows "sum_mset (image_mset f (mset (xs[i := x]))) + f (xs ! i) = sum_mset (image_mset f (mset xs)) + f x"
proof -
  obtain M where M: "mset xs = add_mset (xs ! i) M" using multi_member_split [OF nth_mem_mset [OF assms]] by blast
  then have "mset (xs[i := x]) = add_mset x M" unfolding mset_update [OF assms] by simp
  then show ?thesis unfolding M by (simp add: ac_simps)
qed

definition log_ok :: "'a CThreadPool \<Rightarrow> bool" where
  "log_ok p \<longleftrightarrow> started p @ m_task p = added p \<and> mset (started p) = mset (handled p) + running p"

lemma work_step_log:
  assumes "work_step r w ts = Some (w', ts')"
  shows "take (length ts - length ts') ts @ ts' = ts"
    "mset (take (length ts - length ts') ts) + task_of (w_pc w) =
       mset (case w_pc w of L_handle t \<Rightarrow> [t] | _ \<Rightarrow> []) + task_of (w_pc w')"
  using assms by (cases "w_pc w"; cases r; cases ts; auto simp: Let_def split: if_splits)+

lemma dispatch_log:
  assumes "dispatch r p = Some q"
  shows "m_task q = m_task p" "added q = added p" "started q = started p" "handled q = handled p"
    "signalling q = signalling p"
  using assms by (cases "d_pc p"; cases r; auto split: if_splits option.splits)+

lemma dispatch_running:
  assumes "dispatch r p = Some q"
  shows "running q = running p"
proof (cases "d_pc p")
  case (D_wake i)
  show ?thesis
  proof (cases "i < length (workers p)")
    case True
    then show ?thesis
      using assms D_wake sum_mset_update [OF True, of "\<lambda>w. task_of (w_pc w)" "Wakeup (workers p ! i)"]
      by (auto simp: running_def Wakeup_def)
  qed (use assms D_wake in \<open>auto simp: running_def list_update_beyond\<close>)
qed (use assms in \<open>cases r; auto simp: running_def new_work_def split: if_splits option.splits\<close>)+

lemma work_log: "work i r p = Some q \<Longrightarrow> log_ok p \<Longrightarrow> log_ok q"
proof -
  assume a: "work i r p = Some q" "log_ok p"
  obtain w ts where i: "i < length (workers p)" and w: "work_step r (workers p ! i) (m_task p) = Some (w, ts)"
    and q: "q = p\<lparr>workers := (workers p)[i := w], m_task := ts,
          started := started p @ take (length (m_task p) - length ts) (m_task p),
          handled := handled p @ (case w_pc (workers p ! i) of L_handle t \<Rightarrow> [t] | _ \<Rightarrow> [])\<rparr>"
    using a(1) by (auto simp: work_def split: if_splits option.splits)
  let ?T = "task_of (w_pc (workers p ! i))" and ?tk = "take (length (m_task p) - length ts) (m_task p)"
    and ?h = "mset (case w_pc (workers p ! i) of L_handle t \<Rightarrow> [t] | _ \<Rightarrow> [])"
  have "running q + ?T = running p + task_of (w_pc w)"
    unfolding q running_def using sum_mset_update [OF i, of "\<lambda>w. task_of (w_pc w)" w] by simp
  moreover have "mset (started p) = mset (handled p) + running p" using a(2) by (simp add: log_ok_def)
  ultimately have "mset (started p) + (mset ?tk + ?T) = mset (handled p) + ?h + (running q + ?T)"
    unfolding work_step_log(2) [OF w] by (simp add: ac_simps)
  then have "mset (started q) = mset (handled q) + running q"
    unfolding q by (simp add: add.assoc [symmetric])
  moreover have "started q @ m_task q = added q"
    using a(2) work_step_log(1) [OF w] unfolding log_ok_def q by simp
  ultimately show "log_ok q" by (simp add: log_ok_def)
qed

lemma step_log: "pool_step a p = Some q \<Longrightarrow> log_ok p \<Longrightarrow> log_ok q"
proof (cases a)
  case (Work i r)
  then show "pool_step a p = Some q \<Longrightarrow> log_ok p \<Longrightarrow> log_ok q" using work_log by simp
next
  case (Dispatch r)
  then show "pool_step a p = Some q \<Longrightarrow> log_ok p \<Longrightarrow> log_ok q"
    using dispatch_log [of r p q] dispatch_running [of r p q] by (simp add: log_ok_def)
qed (auto simp: AddTask_def AddTask_signal_def Push_def log_ok_def running_def split: if_splits)

end
