(* ===== verification/Thread_Pool_Props.thy ===== *)
theory Thread_Pool_Props
  imports Thread_Pool
begin

text \<open>
  The properties of the thread pool: tasks are taken in order and handled exactly once, destroyed
  workers are never used, a pending task always has a thread that attends to it or was caught by
  the exit of an idle worker, and what the dispatcher's scan computes.
\<close>

section \<open>The list of workers\<close>

fun scan_ok :: "nat list \<Rightarrow> disp_pc \<Rightarrow> bool" where
  "scan_ok l (D_scan k found) = (k \<le> length l \<and> (\<forall>i. found = Some i \<longrightarrow> i \<in> set (take k l)))"
| "scan_ok l (D_check k found) = (k < length l \<and> (\<forall>i. found = Some i \<longrightarrow> i \<in> set (take k l)))"
| "scan_ok l (D_wake i) = (i \<in> set l)"
| "scan_ok l D_end = False"
| "scan_ok l _ = True"

definition pool_ok :: "'a CThreadPool \<Rightarrow> bool" where
  "pool_ok p \<longleftrightarrow> \<not> p_bExit p \<and> (\<forall>w \<in> set (workers p). work_ok w) \<and> distinct (m_threadPool p) \<and>
     set (m_threadPool p) \<subseteq> {..<length (workers p)} \<and>
     (\<forall>i < length (workers p). i \<in> set (m_threadPool p) \<or> w_pc (workers p ! i) = L_end) \<and>
     scan_ok (m_threadPool p) (d_pc p)"

lemma pool_okD:
  assumes "pool_ok p"
  shows "i < length (workers p) \<Longrightarrow> work_ok (workers p ! i)" "distinct (m_threadPool p)"
    "i \<in> set (m_threadPool p) \<Longrightarrow> i < length (workers p)"
    "i < length (workers p) \<Longrightarrow> i \<notin> set (m_threadPool p) \<Longrightarrow> w_pc (workers p ! i) = L_end"
    "scan_ok (m_threadPool p) (d_pc p)" "\<not> p_bExit p"
  using assms by (auto simp: pool_ok_def)

lemma take_Suc_found: "k < length l \<Longrightarrow> l ! k \<in> set (take (Suc k) l)"
  by (simp add: take_Suc_conv_app_nth)

lemma set_take_Suc: "x \<in> set (take k l) \<Longrightarrow> x \<in> set (take (Suc k) l)"
  using set_take_subset_set_take [of k "Suc k" l] by auto

lemma remove_nth:
  assumes "distinct l" "k < length l"
  shows "distinct (take k l @ drop (k + 1) l)" "set (take k l @ drop (k + 1) l) = set l - {l ! k}"
proof -
  have l: "l = take k l @ l ! k # drop (k + 1) l" using assms(2) by (simp add: id_take_nth_drop)
  then have "distinct (take k l @ l ! k # drop (k + 1) l)" using assms(1) by metis
  then show "distinct (take k l @ drop (k + 1) l)" "set (take k l @ drop (k + 1) l) = set l - {l ! k}"
    using arg_cong [OF l, of set] by auto
qed

lemma exit_is_end: "work_ok w \<Longrightarrow> m_status w = TS_EXIT \<longleftrightarrow> w_pc w = L_end"
  by (cases "w_pc w") (auto simp: work_ok_def)

lemma pool_ok_update:
  assumes "pool_ok p" "i < length (workers p)" "work_ok w" "w_pc (workers p ! i) = L_end \<Longrightarrow> w_pc w = L_end"
    and "workers q = (workers p)[i := w]" "m_threadPool q = m_threadPool p" "p_bExit q = p_bExit p" "scan_ok (m_threadPool p) (d_pc q)"
  shows "pool_ok q"
proof -
  have "\<forall>v \<in> set ((workers p)[i := w]). work_ok v"
    using assms(1,3) set_update_subset_insert [of "workers p" i w] unfolding pool_ok_def by blast
  moreover have "j \<in> set (m_threadPool p) \<or> w_pc ((workers p)[i := w] ! j) = L_end" if "j < length (workers p)" for j
    using assms(1,4) that unfolding pool_ok_def by (cases "j = i") auto
  ultimately show ?thesis using assms(1,5-8) by (simp add: pool_ok_def)
qed

lemma dispatch_scan_ok:
  assumes "dispatch r p = Some q" "pool_ok p"
  shows "pool_ok q"
proof -
  note ok = pool_okD [OF assms(2)]
  have all: "\<forall>w \<in> set (workers p). work_ok w" using assms(2) by (simp add: pool_ok_def)
  show ?thesis
  proof (cases "d_pc p")
    case (D_scan k found)
    then show ?thesis
      using assms ok(5) all
      by (auto simp: pool_ok_def take_Suc_found set_take_Suc new_work_ok nth_append less_Suc_eq
          split: if_splits option.splits dest: in_set_takeD)
  next
    case (D_check k found)
    then have k: "k < length (m_threadPool p)" using ok(5) by simp
    note rm = remove_nth [OF ok(2) k]
    show ?thesis
    proof (cases "Status p (m_threadPool p ! k) = TS_EXIT")
      case True
      have "w_pc (workers p ! (m_threadPool p ! k)) = L_end"
        using True exit_is_end [OF ok(1) [OF ok(3)]] k by (simp add: Status_def)
      moreover have "q = p\<lparr>m_threadPool := take k (m_threadPool p) @ drop (k + 1) (m_threadPool p), d_pc := D_scan k found\<rparr>"
        using assms(1) D_check True by simp
      moreover have "scan_ok (take k (m_threadPool p) @ drop (k + 1) (m_threadPool p)) (D_scan k found)"
        using D_check ok(5) by auto
      ultimately show ?thesis
        using assms(2) rm unfolding pool_ok_def by auto
    next
      case False
      then show ?thesis using assms D_check k set_take_Suc by (auto simp: pool_ok_def)
    qed
  next
    case (D_wake i)
    then have i: "i < length (workers p)" using ok(3,5) by simp
    then have "work_ok (Wakeup (workers p ! i))" using ok(1) by (simp add: wakeup_ok)
    then show ?thesis
      by (rule pool_ok_update [OF assms(2) i]) (use assms(1) D_wake in \<open>auto simp: Wakeup_def\<close>)
  qed (use assms in \<open>cases r; auto simp: pool_ok_def split: if_splits\<close>)+
qed

lemma work_scan_ok:
  assumes "work i r p = Some q" "pool_ok p"
  shows "pool_ok q"
proof -
  obtain w ts where i: "i < length (workers p)" and w: "work_step r (workers p ! i) (m_task p) = Some (w, ts)"
    and q: "workers q = (workers p)[i := w]" "m_threadPool q = m_threadPool p" "p_bExit q = p_bExit p" "d_pc q = d_pc p"
    using assms(1) by (auto simp: work_def split: if_splits option.splits)
  have "work_ok w" by (rule work_step_ok [OF w pool_okD(1) [OF assms(2) i]])
  moreover have "w_pc (workers p ! i) \<noteq> L_end" using w by auto
  ultimately show ?thesis
    by (intro pool_ok_update [OF assms(2) i _ _ q(1-3)]) (use q(4) pool_okD(5) [OF assms(2)] in simp_all)
qed

lemma step_pool_ok: "pool_step a p = Some q \<Longrightarrow> pool_ok p \<Longrightarrow> pool_ok q"
proof (cases a)
  case (Dispatch r)
  then show "pool_step a p = Some q \<Longrightarrow> pool_ok p \<Longrightarrow> pool_ok q"
    using dispatch_scan_ok by (simp del: dispatch.simps)
next
  case (Work i r)
  then show "pool_step a p = Some q \<Longrightarrow> pool_ok p \<Longrightarrow> pool_ok q" using work_scan_ok by simp
qed (auto simp: AddTask_def AddTask_signal_def pool_ok_def split: if_splits)

lemma pool_invariant:
  assumes "pool_reachable p"
  shows "pool_ok p" "log_ok p"
proof -
  have "pool_ok p \<and> log_ok p"
    using assms
  proof (induction rule: pool_reachable.induct)
    case pool_new
    show ?case by (simp add: new_pool_def pool_ok_def log_ok_def running_def)
  next
    case (pool_next p a q)
    then show ?case using step_pool_ok step_log by blast
  qed
  then show "pool_ok p" "log_ok p" by blast+
qed

section \<open>Who attends to a pending task\<close>

text \<open>A worker that will look at the task list again before it can leave.\<close>

definition active :: "'a CThreadWork \<Rightarrow> bool" where
  "active w \<longleftrightarrow> \<not> w_bExit w \<and> (case w_pc w of
     L_test \<Rightarrow> True | L_pop \<Rightarrow> True | L_handle _ \<Rightarrow> True | L_mark \<Rightarrow> w_event w | L_wait \<Rightarrow> w_event w | L_end \<Rightarrow> False)"

fun busy :: "disp_pc \<Rightarrow> bool" where
  "busy (D_scan _ _) = True"
| "busy (D_check _ _) = True"
| "busy (D_wake _) = True"
| "busy _ = False"

definition attended :: "'a CThreadPool \<Rightarrow> bool" where
  "attended p \<longleftrightarrow> signalling p \<or> p_event p \<or> busy (d_pc p) \<or> (\<exists>i < length (workers p). active (workers p ! i))"

text \<open>A worker that was woken although it leaves, or left.\<close>

definition stranded :: "'a CThreadPool \<Rightarrow> bool" where
  "stranded p \<longleftrightarrow> (\<exists>i < length (workers p). w_event (workers p ! i) \<and> w_bExit (workers p ! i))"

lemma work_step_active:
  assumes "work_step r w ts = Some (w', ts')" "work_ok w" "active w" "ts' \<noteq> []"
  shows "active w' \<or> w_event w' \<and> w_bExit w'"
  using assms
  by (cases "w_pc w"; cases r; cases ts)
    (auto simp: work_ok_def active_def MAX_REPEAT_COUNT_def Let_def split: if_splits)

lemma work_step_stranded:
  assumes "work_step r w ts = Some (w', ts')" "work_ok w" "w_event w" "w_bExit w"
  shows "w_event w' \<and> w_bExit w'"
  using assms by (cases "w_pc w"; cases r; cases ts) (auto simp: work_ok_def Let_def split: if_splits)

lemma work_step_pops: "work_step r w ts = Some (w', ts') \<Longrightarrow> ts' \<noteq> [] \<Longrightarrow> ts \<noteq> []"
  by (cases "w_pc w"; cases r; cases ts) (auto simp: Let_def split: if_splits)

lemma work_attended:
  assumes "work i r p = Some q" "pool_ok p" "m_task p \<noteq> [] \<Longrightarrow> attended p \<or> stranded p" "m_task q \<noteq> []"
  shows "attended q \<or> stranded q"
proof -
  obtain w ts where i: "i < length (workers p)" and w: "work_step r (workers p ! i) (m_task p) = Some (w, ts)"
    and q: "workers q = (workers p)[i := w]" "m_task q = ts" "d_pc q = d_pc p" "p_event q = p_event p"
      "signalling q = signalling p"
    using assms(1) by (auto simp: work_def split: if_splits option.splits)
  have ts: "ts \<noteq> []" using assms(4) q(2) by simp
  have "attended p \<or> stranded p" using assms(3) work_step_pops [OF w ts] by blast
  moreover have "active w \<or> w_event w \<and> w_bExit w" if "active (workers p ! i)"
    by (rule work_step_active [OF w pool_okD(1) [OF assms(2) i] that ts])
  moreover have "w_event w \<and> w_bExit w" if "w_event (workers p ! i)" "w_bExit (workers p ! i)"
    by (rule work_step_stranded [OF w pool_okD(1) [OF assms(2) i] that])
  ultimately show ?thesis
    using i unfolding attended_def stranded_def q by (auto simp: nth_list_update split: if_splits; metis)
qed

lemma wake_serves:
  assumes "work_ok w"
  shows "active (Wakeup w) \<or> w_event (Wakeup w) \<and> w_bExit (Wakeup w)" "active w \<Longrightarrow> active (Wakeup w)"
  using assms by (cases "w_pc w"; auto simp: work_ok_def active_def Wakeup_def)+

lemma dispatch_attended:
  assumes "dispatch r p = Some q" "pool_ok p" "attended p \<or> stranded p"
  shows "attended q \<or> stranded q"
proof (cases "d_pc p")
  case (D_wake i)
  then have i: "i < length (workers p)" using pool_okD(3,5) [OF assms(2)] by simp
  have "workers q = (workers p)[i := Wakeup (workers p ! i)]" using assms(1) D_wake by auto
  then show ?thesis
    using wake_serves(1) [OF pool_okD(1) [OF assms(2) i]] i unfolding attended_def stranded_def
    by (metis length_list_update nth_list_update_eq)
next
  case (D_scan k found)
  then show ?thesis using assms(1) by (auto simp: attended_def split: if_splits option.splits)
next
  case (D_check k found)
  then show ?thesis using assms(1) by (auto simp: attended_def split: if_splits)
qed (use assms(1,3) in \<open>cases r; auto simp: attended_def stranded_def split: if_splits\<close>)+

lemma step_attended:
  assumes "pool_step a p = Some q" "pool_ok p" "m_task p \<noteq> [] \<Longrightarrow> attended p \<or> stranded p" "m_task q \<noteq> []"
  shows "attended q \<or> stranded q"
proof (cases a)
  case (Dispatch r)
  then show ?thesis
    using assms dispatch_attended dispatch_log(1) by (metis pool_step.simps(3))
next
  case (Work i r)
  then show ?thesis by (intro work_attended [OF _ assms(2-4)]) (use assms(1) in simp_all)
qed (use assms(1) in \<open>auto simp: AddTask_def AddTask_signal_def attended_def split: if_splits\<close>)

lemma reachable_attended:
  assumes "pool_reachable p" "m_task p \<noteq> []"
  shows "attended p \<or> stranded p"
  using assms
proof (induction rule: pool_reachable.induct)
  case pool_new
  then show ?case by (simp add: new_pool_def)
next
  case (pool_next p a q)
  show ?case by (rule step_attended [OF pool_next(2) pool_invariant(1) [OF pool_next(1)] pool_next(3,4)])
qed

section \<open>The dispatcher's scan\<close>

text \<open>
  The reference: the workers that have not left stay in the list, in order, and the last waiting
  one is chosen.
\<close>

definition survivors :: "'a CThreadPool \<Rightarrow> nat list \<Rightarrow> nat list" where
  "survivors p l = filter (\<lambda>i. Status p i \<noteq> TS_EXIT) l"

definition last_waiting :: "'a CThreadPool \<Rightarrow> nat list \<Rightarrow> nat option \<Rightarrow> nat option" where
  "last_waiting p l found = (let ws = filter (\<lambda>i. Status p i = TS_WAIT) l in if ws = [] then found else Some (last ws))"

lemma scan_simps [simp]:
  "survivors p [] = []" "last_waiting p [] found = found"
  "Status p i = TS_WAIT \<Longrightarrow> last_waiting p (i # l) found = last_waiting p l (Some i)"
  "Status p i \<noteq> TS_WAIT \<Longrightarrow> last_waiting p (i # l) found = last_waiting p l found"
  "Status p i \<noteq> TS_EXIT \<Longrightarrow> survivors p (i # l) = i # survivors p l"
  "Status p i = TS_EXIT \<Longrightarrow> survivors p (i # l) = survivors p l"
  by (simp_all add: survivors_def last_waiting_def)

lemma scan_frame [simp]:
  "survivors (p\<lparr>d_pc := x\<rparr>) = survivors p" "last_waiting (p\<lparr>d_pc := x\<rparr>) = last_waiting p"
  "survivors (p\<lparr>m_threadPool := y\<rparr>) = survivors p" "last_waiting (p\<lparr>m_threadPool := y\<rparr>) = last_waiting p"
  by (simp_all add: survivors_def last_waiting_def Status_def fun_eq_iff)

lemma run_Suc:
  "pool_step a p = Some q \<Longrightarrow> pool_run (replicate n a) q = Some u \<Longrightarrow> pool_run (replicate (Suc n) a) p = Some u"
  by simp

lemma scan_runs:
  assumes "d_pc p = D_scan (length pre) found" "m_threadPool p = pre @ l"
  shows "\<exists>n. pool_run (replicate n (Dispatch Signalled)) p =
    Some (p\<lparr>m_threadPool := pre @ survivors p l,
      d_pc := D_scan (length (pre @ survivors p l)) (last_waiting p l found)\<rparr>)"
  using assms
proof (induction l arbitrary: p pre found)
  case Nil
  then show ?case by (intro exI [of _ 0]) simp
next
  case (Cons i l)
  let ?D = "Dispatch Signalled :: 'a action"
  have st: "m_threadPool p ! length pre = i" "length pre < length (m_threadPool p)" using Cons.prems(2) by simp_all
  show ?case
  proof (cases "Status p i = TS_WAIT")
    case True
    let ?q = "p\<lparr>d_pc := D_scan (Suc (length pre)) (Some i)\<rparr>"
    have q: "pool_step ?D p = Some ?q" using Cons.prems(1) st True by simp
    obtain n where n: "pool_run (replicate n ?D) ?q = Some (p\<lparr>m_threadPool := (pre @ [i]) @ survivors p l,
      d_pc := D_scan (length ((pre @ [i]) @ survivors p l)) (last_waiting p l (Some i))\<rparr>)"
      using Cons.IH [of ?q "pre @ [i]" "Some i"] Cons.prems(2) by auto
    show ?thesis using run_Suc [OF q n] True by (intro exI [of _ "Suc n"]) (simp del: pool_run.simps pool_step.simps replicate.simps)
  next
    case wait: False
    let ?c = "p\<lparr>d_pc := D_check (length pre) found\<rparr>"
    have c: "pool_step ?D p = Some ?c" using Cons.prems(1) st wait by simp
    have s: "Status ?c i = Status p i" by (simp add: Status_def)
    show ?thesis
    proof (cases "Status p i = TS_EXIT")
      case True
      let ?q = "p\<lparr>m_threadPool := pre @ l, d_pc := D_scan (length pre) found\<rparr>"
      have q: "pool_step ?D ?c = Some ?q" using st s True Cons.prems(2) by simp
      obtain n where n: "pool_run (replicate n ?D) ?q = Some (p\<lparr>m_threadPool := pre @ survivors p l,
        d_pc := D_scan (length (pre @ survivors p l)) (last_waiting p l found)\<rparr>)"
        using Cons.IH [of ?q pre found] by auto
      show ?thesis using run_Suc [OF c run_Suc [OF q n]] True wait by (intro exI [of _ "Suc (Suc n)"]) (simp del: pool_run.simps pool_step.simps replicate.simps)
    next
      case False
      let ?q = "p\<lparr>d_pc := D_scan (Suc (length pre)) found\<rparr>"
      have q: "pool_step ?D ?c = Some ?q" using st s False by simp
      obtain n where n: "pool_run (replicate n ?D) ?q = Some (p\<lparr>m_threadPool := (pre @ [i]) @ survivors p l,
        d_pc := D_scan (length ((pre @ [i]) @ survivors p l)) (last_waiting p l found)\<rparr>)"
        using Cons.IH [of ?q "pre @ [i]" found] Cons.prems(2) by auto
      show ?thesis using run_Suc [OF c run_Suc [OF q n]] False wait by (intro exI [of _ "Suc (Suc n)"]) (simp del: pool_run.simps pool_step.simps replicate.simps)
    qed
  qed
qed

section \<open>Progress\<close>

text \<open>Steps that add no task and let no wait time out.\<close>

fun prompt :: "'a action \<Rightarrow> bool" where
  "prompt (Add t) = False"
| "prompt Add_signal = True"
| "prompt (Dispatch r) = (r = Signalled)"
| "prompt (Work i r) = (r = Signalled)"

definition may_start :: "'a CThreadPool \<Rightarrow> 'a \<Rightarrow> bool" where
  "may_start p t \<longleftrightarrow> (\<exists>as q. list_all prompt as \<and> pool_run as p = Some q \<and> started q = started p @ [t])"

lemma may_start_run:
  assumes "pool_run as p = Some q" "list_all prompt as" "started q = started p" "may_start q t"
  shows "may_start p t"
proof -
  obtain bs u where "list_all prompt bs" "pool_run bs q = Some u" "started u = started q @ [t]"
    using assms(4) unfolding may_start_def by blast
  then show ?thesis
    unfolding may_start_def using assms(1-3) by (intro exI [of _ "as @ bs"] exI [of _ u]) (simp add: pool_run_append)
qed

lemma may_start_step:
  "pool_step a p = Some q \<Longrightarrow> prompt a \<Longrightarrow> started q = started p \<Longrightarrow> may_start q t \<Longrightarrow> may_start p t"
  using may_start_run [of "[a]"] by simp

lemma may_start_work:
  assumes "i < length (workers p)" "work_step Signalled (workers p ! i) (m_task p) = Some (w, m_task p)"
    "\<And>q. workers q = (workers p)[i := w] \<Longrightarrow> m_task q = m_task p \<Longrightarrow> may_start q t"
  shows "may_start p t"
proof -
  let ?q = "p\<lparr>workers := (workers p)[i := w], m_task := m_task p,
          started := started p @ take (length (m_task p) - length (m_task p)) (m_task p),
          handled := handled p @ (case w_pc (workers p ! i) of L_handle t \<Rightarrow> [t] | _ \<Rightarrow> [])\<rparr>"
  have q: "pool_step (Work i Signalled) p = Some ?q"
    using assms(1) by (simp only: pool_step.simps work_def assms(2) if_True option.case prod.case)
  have "may_start ?q t" by (rule assms(3)) simp_all
  then show ?thesis by (intro may_start_step [OF q]) simp_all
qed

lemma active_starts:
  assumes "i < length (workers p)" "active (workers p ! i)" "m_task p = t # ts"
  shows "may_start p t"
proof -
  have pop: "may_start q t" if q: "i < length (workers q)" "w_pc (workers q ! i) = L_pop" "m_task q = t # ts" for q
  proof -
    obtain u where "pool_step (Work i Signalled) q = Some u" "started u = started q @ [t]"
      using q by (simp add: work_def)
    then show ?thesis unfolding may_start_def by (intro exI [of _ "[Work i Signalled]"] exI [of _ u]) simp
  qed
  have test: "may_start q t"
    if "i < length (workers q)" "w_pc (workers q ! i) = L_test" "\<not> w_bExit (workers q ! i)" "m_task q = t # ts" for q
    by (rule may_start_work [OF that(1)]) (use that in \<open>auto intro!: pop\<close>)
  have wait: "may_start q t"
    if "i < length (workers q)" "w_pc (workers q ! i) = L_wait" "\<not> w_bExit (workers q ! i)" "w_event (workers q ! i)"
      "m_task q = t # ts" for q
    by (rule may_start_work [OF that(1)]) (use that in \<open>auto intro!: test\<close>)
  show ?thesis
  proof (cases "w_pc (workers p ! i)")
    case L_mark
    show ?thesis
      by (rule may_start_work [OF assms(1)]) (use assms L_mark in \<open>auto simp: active_def intro!: wait\<close>)
  next
    case (L_handle x)
    show ?thesis
      by (rule may_start_work [OF assms(1)]) (use assms L_handle in \<open>auto simp: active_def intro!: test\<close>)
  qed (use assms pop test wait in \<open>auto simp: active_def\<close>)
qed

text \<open>No worker is caught between its last time-out and its wake-up.\<close>

definition settled :: "'a CThreadPool \<Rightarrow> bool" where
  "settled p \<longleftrightarrow> (\<forall>i < length (workers p). w_bExit (workers p ! i) \<longrightarrow>
     w_pc (workers p ! i) = L_end \<and> \<not> w_event (workers p ! i) \<and> chosen (d_pc p) \<noteq> Some i)"

lemma wake_starts:
  assumes "d_pc p = D_wake i" "i < length (workers p)" "work_ok (workers p ! i)" "\<not> w_bExit (workers p ! i)"
    "m_task p = t # ts"
  shows "may_start p t"
proof (rule may_start_step [of "Dispatch Signalled"])
  let ?q = "p\<lparr>workers := (workers p)[i := Wakeup (workers p ! i)], d_pc := D_test\<rparr>"
  show "pool_step (Dispatch Signalled) p = Some ?q" using assms(1) by simp
  have "active (Wakeup (workers p ! i))"
    using wake_serves(1) [OF assms(3)] assms(4) by (auto simp: Wakeup_def)
  then show "may_start ?q t" using assms(2,5) by (intro active_starts [of i]) simp_all
qed simp_all

lemma waiting_stays:
  assumes "pool_ok p" "settled p" "i < length (workers p)" "Status p i = TS_WAIT"
  shows "\<not> w_bExit (workers p ! i)"
  using assms(2-4) exit_is_end [OF pool_okD(1) [OF assms(1,3)]] by (auto simp: settled_def Status_def)

lemma last_waiting_cases:
  "last_waiting p l found = found \<or> (\<exists>i \<in> set l. Status p i = TS_WAIT \<and> last_waiting p l found = Some i)"
  unfolding last_waiting_def Let_def using last_in_set by fastforce

lemma scan_starts:
  assumes "d_pc p = D_scan k found" "pool_ok p" "settled p" "m_task p = t # ts"
  shows "may_start p t"
proof -
  let ?l = "m_threadPool p"
  let ?u = "take k ?l @ survivors p (drop k ?l)" and ?f = "last_waiting p (drop k ?l) found"
  let ?q = "p\<lparr>m_threadPool := ?u, d_pc := D_scan (length ?u) ?f\<rparr>"
  have k: "k \<le> length ?l" "\<And>i. found = Some i \<Longrightarrow> i < length (workers p)"
    using pool_okD(3,5) [OF assms(2)] assms(1) by (auto dest: in_set_takeD)
  obtain n where n: "pool_run (replicate n (Dispatch Signalled)) p = Some ?q"
    using scan_runs [of p "take k ?l" found "drop k ?l"] assms(1) k by (auto simp: min_absorb2)
  have f: "i < length (workers p) \<and> \<not> w_bExit (workers p ! i)" if "?f = Some i" for i
    using last_waiting_cases [of p "drop k ?l" found]
  proof
    assume "?f = found"
    then show ?thesis using that k(2) assms(1,3) by (auto simp: settled_def)
  next
    assume "\<exists>i \<in> set (drop k ?l). Status p i = TS_WAIT \<and> ?f = Some i"
    then show ?thesis using that pool_okD(3) [OF assms(2)] waiting_stays [OF assms(2,3)] by (auto dest: in_set_dropD)
  qed
  have "may_start ?q t"
  proof (cases ?f)
    case None
    let ?r = "?q\<lparr>workers := workers p @ [new_work], m_threadPool := ?u @ [length (workers p)], d_pc := D_wake (length (workers p))\<rparr>"
    show ?thesis
    proof (rule may_start_step [of "Dispatch Signalled" _ ?r])
      show "may_start ?r t"
        by (rule wake_starts [of _ "length (workers p)"])
          (use assms(4) new_work_ok in \<open>simp_all add: new_work_def\<close>)
    qed (use None in simp_all)
  next
    case (Some i)
    show ?thesis
    proof (rule may_start_step [of "Dispatch Signalled" _ "?q\<lparr>d_pc := D_wake i\<rparr>"])
      show "may_start (?q\<lparr>d_pc := D_wake i\<rparr>) t"
        by (rule wake_starts [of _ i]) (use f [OF Some] assms(4) pool_okD(1) [OF assms(2)] in simp_all)
    qed (use Some in simp_all)
  qed
  then show ?thesis by (intro may_start_run [OF n]) (simp_all add: list_all_length)
qed

lemma busy_starts:
  assumes "busy (d_pc p)" "pool_ok p" "settled p" "m_task p = t # ts"
  shows "may_start p t"
proof (cases "d_pc p")
  case (D_scan k found)
  then show ?thesis by (rule scan_starts [OF _ assms(2-4)])
next
  case (D_check k found)
  obtain q where q: "dispatch Signalled p = Some q" "workers q = workers p" "\<exists>k'. d_pc q = D_scan k' found"
    using D_check by (cases "Status p (m_threadPool p ! k) = TS_EXIT") auto
  have "settled q" using assms(3) D_check q(2,3) by (auto simp: settled_def)
  moreover have "pool_ok q" by (rule dispatch_scan_ok [OF q(1) assms(2)])
  ultimately have "may_start q t"
    using scan_starts q(3) dispatch_log(1) [OF q(1)] assms(4) by metis
  then show ?thesis
    using dispatch_log(3) [OF q(1)] q(1)
    by (intro may_start_step [of "Dispatch Signalled" p q]) (simp_all del: dispatch.simps)
next
  case (D_wake i)
  then have i: "i < length (workers p)" using pool_okD(3,5) [OF assms(2)] by simp
  then have "\<not> w_bExit (workers p ! i)" using assms(3) D_wake by (auto simp: settled_def)
  then show ?thesis by (rule wake_starts [OF D_wake i pool_okD(1) [OF assms(2) i] _ assms(4)])
qed (use assms(1) in simp_all)

lemma event_starts:
  assumes "p_event p" "pool_ok p" "settled p" "m_task p = t # ts"
  shows "may_start p t"
proof -
  have wait: "may_start q t" if q: "d_pc q = D_wait" "p_event q" "pool_ok q" "settled q" "m_task q = t # ts" for q
  proof -
    let ?r = "q\<lparr>p_event := take_event True (p_event q), d_pc := D_scan 0 None\<rparr>"
    have r: "dispatch Signalled q = Some ?r" using q(1,2) by simp
    have "settled ?r" using q(4) by (simp add: settled_def)
    then have "may_start ?r t" by (rule busy_starts [rotated 2]) (use q(5) dispatch_scan_ok [OF r q(3)] in simp_all)
    then show ?thesis by (intro may_start_step [of "Dispatch Signalled" q ?r]) (use q(1,2) in simp_all)
  qed
  show ?thesis
  proof (cases "d_pc p")
    case D_test
    let ?q = "p\<lparr>d_pc := D_wait\<rparr>"
    have q: "dispatch Signalled p = Some ?q" using D_test pool_okD(6) [OF assms(2)] by simp
    have "may_start ?q t"
      by (rule wait) (use assms dispatch_scan_ok [OF q assms(2)] in \<open>simp_all add: settled_def\<close>)
    then show ?thesis using q by (intro may_start_step [of "Dispatch Signalled" p ?q]) (simp_all del: dispatch.simps)
  next
    case D_end
    then show ?thesis using pool_okD(5) [OF assms(2)] by simp
  qed (use wait [OF _ assms] busy_starts [OF _ assms(2-4)] in simp_all)
qed

lemma attended_starts:
  assumes "attended p" "pool_ok p" "settled p" "m_task p = t # ts"
  shows "may_start p t"
proof -
  consider "signalling p" | "p_event p" | "busy (d_pc p)" | i where "i < length (workers p)" "active (workers p ! i)"
    using assms(1) unfolding attended_def by blast
  then show ?thesis
  proof cases
    case 1
    let ?q = "p\<lparr>p_event := True, signalling := False\<rparr>"
    have q: "pool_step Add_signal p = Some ?q" using 1 by (simp add: AddTask_signal_def)
    have "may_start ?q t"
      by (rule event_starts) (use assms step_pool_ok [OF q assms(2)] in \<open>simp_all add: settled_def\<close>)
    then show ?thesis by (intro may_start_step [OF q]) simp_all
  qed (rule event_starts [OF _ assms(2-4)] busy_starts [OF _ assms(2-4)] active_starts [OF _ _ assms(4)]; assumption)+
qed

section \<open>Properties\<close>

text \<open>
  C18: however the threads interleave, tasks are taken in the order in which they were
  added, none is lost and none is handled twice: the tasks taken so far followed by those in the
  list are the tasks added, and each taken task has been handled once or is being handled by one
  worker.
\<close>

theorem tasks_once:
  assumes "pool_reachable p"
  shows "started p @ m_task p = added p \<and> mset (started p) = mset (handled p) + running p"
  using pool_invariant(2) [OF assms] by (simp add: log_ok_def)

text \<open>
  A worker that was erased from the pool, and so destroyed, is never used
  again: its thread has passed its last access and the dispatcher holds no reference to it.
\<close>

theorem destroyed_unused:
  assumes "pool_reachable p" "i < length (workers p)" "i \<notin> set (m_threadPool p)"
  shows "w_pc (workers p ! i) = L_end \<and> chosen (d_pc p) \<noteq> Some i"
  using pool_okD(4,5) [OF pool_invariant(1) [OF assms(1)]] assms(2,3)
  by (cases "d_pc p") (auto dest: in_set_takeD)

text \<open>
  While tasks are pending, some thread is going to look at the list (the adding
  thread is about to signal, the pool's event is set, the dispatcher is choosing a worker, or a
  worker is on its way to the list), or a worker was woken after its last time-out and leaves
  without looking.
\<close>

theorem pending_attended:
  assumes "pool_reachable p" "m_task p \<noteq> []"
  shows "attended p \<or> stranded p"
  using assms by (rule reachable_attended)

text \<open>
  C20: unless a worker was caught between its last time-out and its wake-up, the
  first pending task can be started by steps of the pool's threads alone, a worker that the dispatcher
  creates among them: no new task is needed, and no wait has to time out.
\<close>

theorem pending_starts:
  assumes "pool_reachable p" "settled p" "m_task p = t # ts"
  shows "\<exists>as q. list_all prompt as \<and> pool_run as p = Some q \<and> started q = started p @ [t]"
proof -
  have "\<not> stranded p" using assms(2) by (auto simp: settled_def stranded_def)
  then have "attended p" using reachable_attended [OF assms(1)] assms(3) by auto
  then show ?thesis
    using attended_starts [OF _ pool_invariant(1) [OF assms(1)] assms(2,3)] unfolding may_start_def by blast
qed

text \<open>
  C23: the dispatcher's scan, undisturbed by the workers, computes what it is meant to:
  exactly the workers that have left are erased, and the one to be woken is the last waiting one,
  or a new one if none waits.
\<close>

theorem scan_reference:
  assumes "d_pc p = D_scan 0 None"
  shows "\<exists>n q. pool_run (replicate n (Dispatch Signalled)) p = Some q \<and>
    (let ws = filter (\<lambda>i. Status p i = TS_WAIT) (m_threadPool p); l = filter (\<lambda>i. Status p i \<noteq> TS_EXIT) (m_threadPool p)
     in if ws = [] then d_pc q = D_wake (length (workers p)) \<and> m_threadPool q = l @ [length (workers p)] \<and>
          workers q = workers p @ [new_work]
        else d_pc q = D_wake (last ws) \<and> m_threadPool q = l \<and> workers q = workers p)"
proof -
  let ?D = "Dispatch Signalled :: 'a action" and ?l = "survivors p (m_threadPool p)"
  let ?f = "last_waiting p (m_threadPool p) None"
  let ?q = "p\<lparr>m_threadPool := ?l, d_pc := D_scan (length ?l) ?f\<rparr>"
  obtain n where n: "pool_run (replicate n ?D) p = Some ?q"
    using scan_runs [of p "[]" None "m_threadPool p"] assms by auto
  have "pool_run (replicate (n + 1) ?D) p = pool_step ?D ?q"
    unfolding replicate_add pool_run_append n by (simp del: dispatch.simps split: option.split)
  then show ?thesis
    by (intro exI [of _ "n + 1"]) (auto simp: Let_def survivors_def last_waiting_def simp del: replicate.simps)
qed

text \<open>One step of a worker that finds no task and whose waits time out.\<close>

definition idle_step :: "'a CThreadWork \<Rightarrow> 'a CThreadWork" where
  "idle_step w = (case work_step Timed_out w [] of None \<Rightarrow> w | Some (w', _) \<Rightarrow> w')"

lemma idle_round:
  assumes "w_pc w = L_test" "\<not> w_bExit w"
  shows "idle_step w = w\<lparr>m_status := TS_RUNNING, w_pc := L_pop\<rparr>"
    "idle_step (idle_step w) = w\<lparr>m_status := TS_RUNNING, w_pc := L_mark\<rparr>"
    "idle_step (idle_step (idle_step w)) = w\<lparr>m_status := TS_WAIT, w_pc := L_wait\<rparr>"
    "idle_step (idle_step (idle_step (idle_step w))) =
       w\<lparr>m_status := TS_WAIT, nRepeatCount := nRepeatCount w - 1, w_bExit := nRepeatCount w = 1, w_pc := L_test\<rparr>"
  using assms by (simp_all add: idle_step_def Let_def)

lemma idle_four: "(idle_step ^^ (4 + k)) w = (idle_step ^^ k) (idle_step (idle_step (idle_step (idle_step w))))"
  by (simp add: funpow_add add.commute [of 4] eval_nat_numeral funpow_swap1)

text \<open>
  C24: a worker that finds no task and whose waits all time out leaves its loop
  after exactly as many time-outs as its counter allows, twelve for a new worker, and never
  earlier; then it is marked as gone.
\<close>

theorem idle_worker_leaves:
  assumes "w_pc w = L_test" "\<not> w_bExit w" "nRepeatCount w = int n" "0 < n"
  shows "w_pc ((idle_step ^^ (4 * n + 1)) w) = L_end \<and> m_status ((idle_step ^^ (4 * n + 1)) w) = TS_EXIT \<and>
    (\<forall>k. k < 4 * n + 1 \<longrightarrow> w_pc ((idle_step ^^ k) w) \<noteq> L_end)"
  using assms
proof (induction n arbitrary: w)
  case (Suc n)
  let ?w = "idle_step (idle_step (idle_step (idle_step w)))"
  note r = idle_round [OF Suc.prems(1,2)]
  have w: "w_pc ?w = L_test" "w_bExit ?w \<longleftrightarrow> n = 0" "nRepeatCount ?w = int n" using r(4) Suc.prems(3) by auto
  have four: "4 * Suc n + 1 = 4 + (4 * n + 1)" by simp
  have rest: "w_pc ((idle_step ^^ (4 * n + 1)) ?w) = L_end \<and> m_status ((idle_step ^^ (4 * n + 1)) ?w) = TS_EXIT \<and>
    (\<forall>k. k < 4 * n + 1 \<longrightarrow> w_pc ((idle_step ^^ k) ?w) \<noteq> L_end)"
  proof (cases "n = 0")
    case True
    then show ?thesis using w(1,2) by (simp add: idle_step_def)
  next
    case False
    then show ?thesis using Suc.IH [of ?w] w by blast
  qed
  have "w_pc ((idle_step ^^ k) w) \<noteq> L_end" if "k < 4 * Suc n + 1" for k
  proof (cases "k < 4")
    case True
    then consider "k = 0" | "k = 1" | "k = 2" | "k = 3" by linarith
    then show ?thesis using Suc.prems(1) r(1-3) by cases (simp_all add: eval_nat_numeral)
  next
    case False
    then show ?thesis using rest that idle_four [of "k - 4" w] by simp
  qed
  then show ?case using rest unfolding four idle_four by simp
qed simp

text \<open>The pool with a pending task and nobody to take it.\<close>

definition stuck :: "'a CThreadPool \<Rightarrow> bool" where
  "stuck p \<longleftrightarrow> \<not> signalling p \<and> \<not> p_event p \<and> \<not> busy (d_pc p) \<and> list_all (\<lambda>w. w_pc w = L_end) (workers p)"

fun adds_none :: "'a action \<Rightarrow> bool" where
  "adds_none (Add t) = False"
| "adds_none _ = True"

lemma stuck_step:
  assumes "pool_step a p = Some q" "stuck p" "adds_none a"
  shows "stuck q" "m_task q = m_task p"
proof -
  have "stuck q \<and> m_task q = m_task p"
  proof (cases a)
    case (Dispatch r)
    then show ?thesis
      using assms by (cases "d_pc p"; cases r) (auto simp: stuck_def split: if_splits)
  next
    case (Work i r)
    then have "i < length (workers p)" "w_pc (workers p ! i) \<noteq> L_end"
      using assms(1) by (auto simp: work_def split: if_splits)
    then show ?thesis using assms(2) by (simp add: stuck_def list_all_length)
  qed (use assms in \<open>auto simp: AddTask_signal_def stuck_def split: if_splits\<close>)
  then show "stuck q" "m_task q = m_task p" by blast+
qed

lemma stuck_run: "pool_run as p = Some q \<Longrightarrow> stuck p \<Longrightarrow> list_all adds_none as \<Longrightarrow> m_task q = m_task p"
proof (induction as arbitrary: p)
  case (Cons a as)
  then obtain u where u: "pool_step a p = Some u" "pool_run as u = Some q" by (auto split: option.splits)
  then show ?case using Cons.IH [OF u(2)] stuck_step [OF u(1) Cons.prems(2)] Cons.prems(3) by simp
qed simp

text \<open>
  A run: a task is added and handled by the first worker, which then times out twelve times; a
  second task is added and the dispatcher picks the worker before it leaves.
\<close>

definition race :: "nat action list" where
  "race = [Add 1, Add_signal] @ replicate 4 (Dispatch Signalled) @ replicate 10 (Work 0 Signalled) @
     concat (replicate 11 (Work 0 Timed_out # replicate 3 (Work 0 Signalled))) @ [Work 0 Timed_out] @
     [Add 2, Add_signal] @ replicate 5 (Dispatch Signalled) @ [Work 0 Signalled]"

definition race_pool :: "nat CThreadPool" where
  "race_pool = \<lparr>m_task = [2], p_event = False, p_bExit = False, m_threadPool = [0],
     workers = [\<lparr>w_event = True, w_bExit = True, m_status = TS_EXIT, nRepeatCount = 0, w_pc = L_end\<rparr>],
     d_pc = D_test, signalling = False, added = [1, 2], started = [1], handled = [1]\<rparr>"

lemma race_run: "pool_run race new_pool = Some race_pool"
  by code_simp

lemma race_reachable: "pool_reachable race_pool"
  by (rule pool_reachable_run [OF pool_new race_run])

text \<open>
  C22: a task can be stranded: the pool reaches a state with a pending task from which
  no sequence of steps that adds no further task ever takes it from the list.
\<close>

theorem task_stranded:
  "\<exists>p :: nat CThreadPool. pool_reachable p \<and> m_task p \<noteq> [] \<and>
     {q. \<exists>as. list_all adds_none as \<and> pool_run as p = Some q \<and> m_task q \<noteq> m_task p} = {}"
proof (intro exI [of _ race_pool] conjI race_reachable)
  show "m_task race_pool \<noteq> []" by (simp add: race_pool_def)
  have "stuck race_pool" by (simp add: race_pool_def stuck_def)
  then show "{q. \<exists>as. list_all adds_none as \<and> pool_run as race_pool = Some q \<and> m_task q \<noteq> m_task race_pool} = {}"
    using stuck_run by blast
qed

section \<open>Witnesses\<close>

theorem tasks_once_witness: "started race_pool @ m_task race_pool = [1, 2]"
  using tasks_once [OF race_reachable] by (simp add: race_pool_def)

theorem pending_attended_witness: "attended race_pool \<or> stranded race_pool"
  by (rule pending_attended [OF race_reachable]) (simp add: race_pool_def)

text \<open>The next task makes the dispatcher erase the worker that left and create another one.\<close>

definition erased_pool :: "nat CThreadPool" where
  "erased_pool = race_pool\<lparr>m_task := [2, 3], m_threadPool := [1], workers := workers race_pool @ [new_work],
     d_pc := D_wake 1, added := [1, 2, 3]\<rparr>"

lemma erased_reachable: "pool_reachable erased_pool"
proof (rule pool_reachable_run [OF race_reachable])
  show "pool_run ([Add 3, Add_signal] @ replicate 5 (Dispatch Signalled)) race_pool = Some erased_pool"
    by code_simp
qed

theorem destroyed_unused_witness: "w_pc (workers erased_pool ! 0) = L_end \<and> chosen (d_pc erased_pool) \<noteq> Some 0"
  by (rule destroyed_unused [OF erased_reachable]) (simp_all add: erased_pool_def race_pool_def)

definition pending_pool :: "nat CThreadPool" where
  "pending_pool = new_pool\<lparr>m_task := [1], added := [1], p_event := True\<rparr>"

lemma pending_reachable: "pool_reachable pending_pool"
proof (rule pool_reachable_run [OF pool_new])
  show "pool_run [Add 1, Add_signal] new_pool = Some pending_pool" by code_simp
qed

theorem pending_starts_witness:
  "\<exists>as q. list_all prompt as \<and> pool_run as pending_pool = Some q \<and> started q = [1]"
  using pending_starts [OF pending_reachable] by (simp add: pending_pool_def new_pool_def settled_def)

definition scanning_pool :: "nat CThreadPool" where
  "scanning_pool = new_pool\<lparr>workers := [new_work, new_work\<lparr>m_status := TS_EXIT\<rparr>, new_work], m_threadPool := [0, 1, 2],
     d_pc := D_scan 0 None\<rparr>"

theorem scan_reference_witness:
  "\<exists>n q. pool_run (replicate n (Dispatch Signalled)) scanning_pool = Some q \<and>
     d_pc q = D_wake 2 \<and> m_threadPool q = [0, 2]"
  using scan_reference [of scanning_pool]
  by (auto simp: scanning_pool_def Let_def Status_def new_work_def)

theorem idle_worker_leaves_witness:
  "w_pc ((idle_step ^^ 49) (new_work :: nat CThreadWork)) = L_end \<and>
   w_pc ((idle_step ^^ 48) (new_work :: nat CThreadWork)) \<noteq> L_end"
  using idle_worker_leaves [of "new_work :: nat CThreadWork" 12] by (simp add: new_work_def MAX_REPEAT_COUNT_def)

end
