(* ===== verification/Client_Start.thy ===== *)
theory Client_Start
  imports Channel_Props Thread_Pool_Props Miscdev
begin

text \<open>
  Starting the client and its own requests (\<open>request.cpp\<close>, \<open>StartTEADFS\<close> of \<open>main.cpp\<close>, the socket
  and the receive loop of \<open>netlink.cpp\<close>), and how the client's parts work together: the handshake
  with the module, and the way of a received message through the thread pool to its answer.
\<close>

section \<open>State\<close>

text \<open>
  The globals of the library and the members of its one \<open>CNetlinkInfo\<close>. Response handlers have the
  type \<open>'h\<close>; a \<open>nullptr\<close> handler is \<open>None\<close>. \<open>sent\<close> are the messages given to \<open>sendto\<close>,
  \<open>old_pools\<close> the destroyed thread pools with what their destructors did wrong.
\<close>

record 'h client_proc =
  g_next_id :: u64
  s_map :: "u64 \<rightharpoonup> 'h option"
  m_skfd :: int
  m_bExist :: bool
  m_handler :: bool
  g_miscDev :: int
  g_deal_db :: "TEAFS_DEAL_CB option"
  g_ptrThreadPool :: "bytes CThreadPool option"
  sent :: "bytes list"
  old_pools :: "(misuse list \<times> bytes CThreadPool) list"

definition client_boot :: "'h client_proc" where
  "client_boot = \<lparr>g_next_id = 0, s_map = Map.empty, m_skfd = - 1, m_bExist = False, m_handler = False,
     g_miscDev = 0, g_deal_db = None, g_ptrThreadPool = None, sent = [], old_pools = []\<rparr>"

section \<open>Requests (request.cpp)\<close>

text \<open>The value drawn and the new counter; \<open>fetch_add\<close> wraps around at 64 bits.\<close>

definition get_next_msg_id :: "u64 \<Rightarrow> u64 \<times> u64" where
  "get_next_msg_id g =
     (let g1 = g + 1; u = g1
      in if u = 0 then (let g2 = g1 + 1 in (g2, g2)) else (u, g1))"

text \<open>\<open>std::map::emplace\<close> keeps an element that is there.\<close>

definition emplace :: "'k \<Rightarrow> 'v \<Rightarrow> ('k \<rightharpoonup> 'v) \<Rightarrow> ('k \<rightharpoonup> 'v)" where
  "emplace k v m = (if m k = None then m(k \<mapsto> v) else m)"

definition hello_packet :: "u64 \<Rightarrow> int \<Rightarrow> bytes" where
  "hello_packet mid pid =
     put_at O_hello_pid (enc_int pid)
       (put_header \<lparr>h_size = of_nat sizeof_packet, h_msg_id = mid, h_msg_type = PR_MSG_HELLO, h_initiator = 1,
          h_pid = 0, h_uid = 0, h_gid = 0\<rparr> (replicate sizeof_packet 0))"

definition SendHello :: "int \<Rightarrow> bytes \<times> bytes \<Rightarrow> 'h option \<Rightarrow> 'h client_proc \<Rightarrow> 'h client_proc" where
  "SendHello pid junk handler c =
     (let (mid, g) = get_next_msg_id (g_next_id c)
      in c\<lparr>g_next_id := g, s_map := emplace mid handler (s_map c),
           sent := sent c @ [SendMsg junk (hello_packet mid pid)]\<rparr>)"

text \<open>The handler that is called, if any; its entry is removed first.\<close>

definition ResponseMsg :: "u64 \<Rightarrow> 'h client_proc \<Rightarrow> 'h option \<times> 'h client_proc" where
  "ResponseMsg msd_id c = (case s_map c msd_id of
     None \<Rightarrow> (None, c)
   | Some handler \<Rightarrow> (handler, c\<lparr>s_map := (s_map c)(msd_id := None)\<rparr>))"

section \<open>The socket (netlink.cpp)\<close>

text \<open>\<open>skfd\<close> and \<open>bound\<close> are the results of \<open>socket\<close> and \<open>bind\<close>.\<close>

definition StartNetlink :: "int \<Rightarrow> int \<Rightarrow> 'h client_proc \<Rightarrow> int \<times> 'h client_proc" where
  "StartNetlink skfd bound c =
     (let c = c\<lparr>m_handler := True, m_skfd := skfd\<rparr>
      in if skfd < 0 then (- 1, c)
         else if bound \<noteq> 0 then (- 2, c)
         else (0, c))"

definition CloseNetlink :: "'h client_proc \<Rightarrow> 'h client_proc" where
  "CloseNetlink c = c\<lparr>m_bExist := True, m_skfd := - 1\<rparr>"

text \<open>
  One pass of the receive loop: the outcome of \<open>poll\<close> and, if a message is there, of \<open>recvfrom\<close>
  (\<open>None\<close>: it failed; resizing the buffer to -1 then throws, which the loop catches). The result
  are the messages handed to \<open>m_handler\<close>.
\<close>

datatype poll_result = Poll_error | Poll_timeout | Poll_ready "bytes option"

fun ThreadRcv_pass :: "bytes \<Rightarrow> poll_result \<Rightarrow> 'h client_proc \<Rightarrow> bytes list \<times> 'h client_proc" where
  "ThreadRcv_pass tail Poll_error c = ([], c\<lparr>m_bExist := True\<rparr>)"
| "ThreadRcv_pass tail Poll_timeout c = ([], c)"
| "ThreadRcv_pass tail (Poll_ready None) c = ([], c)"
| "ThreadRcv_pass tail (Poll_ready (Some msg)) c = (if m_handler c then [ThreadRcv tail msg] else [], c)"

fun ThreadRcv_loop :: "bytes \<Rightarrow> poll_result list \<Rightarrow> 'h client_proc \<Rightarrow> bytes list \<times> 'h client_proc" where
  "ThreadRcv_loop tail [] c = ([], c)"
| "ThreadRcv_loop tail (r # rs) c =
     (if m_bExist c then ([], c)
      else let (ms, c1) = ThreadRcv_pass tail r c; (ms', c2) = ThreadRcv_loop tail rs c1 in (ms @ ms', c2))"

section \<open>Start (main.cpp)\<close>

text \<open>
  Assigning a new pool to \<open>g_ptrThreadPool\<close>, the only owner of the old one, destroys that.
\<close>

definition assign_pool :: "bytes CThreadPool \<Rightarrow> 'h client_proc \<Rightarrow> 'h client_proc" where
  "assign_pool p c = c\<lparr>g_ptrThreadPool := Some p,
     old_pools := old_pools c @ (case g_ptrThreadPool c of None \<Rightarrow> [] | Some q \<Rightarrow> [destroy_pool q])\<rparr>"

text \<open>
  \<open>StartTEADFS\<close>, for the results of opening the device, \<open>socket\<close> and \<open>bind\<close>. The new
  \<open>CNetlinkInfo\<close> has no socket yet and its receive loop runs.
\<close>

definition StartTEADFS ::
  "TEAFS_DEAL_CB \<Rightarrow> int \<Rightarrow> int \<Rightarrow> int \<Rightarrow> int \<Rightarrow> bytes \<times> bytes \<Rightarrow> 'h client_proc \<Rightarrow> int \<times> 'h client_proc"
where
  "StartTEADFS cb dev skfd bound pid junk c =
     (let c = (assign_pool new_pool (c\<lparr>g_deal_db := Some cb\<rparr>))\<lparr>g_miscDev := dev\<rparr>
      in if dev < 0 then (- 1, c)
         else
           let c = c\<lparr>m_skfd := - 1, m_bExist := False, m_handler := False\<rparr>;
               (nRst, c) = StartNetlink skfd bound c
           in if nRst < 0 then (- 1, c)
              else (1, SendHello pid junk None c))"

section \<open>Lemmas\<close>

lemma get_next_msg_id_eq: "get_next_msg_id g = (next_id g, next_id g)"
  by (simp add: get_next_msg_id_def next_id_def Let_def)

lemma hello_packet_length [simp]: "length (hello_packet mid pid) = sizeof_packet"
  by (simp add: hello_packet_def layout_defs)

lemma hello_packet_fields:
  "get_header (hello_packet mid pid) = \<lparr>h_size = of_nat sizeof_packet, h_msg_id = mid, h_msg_type = PR_MSG_HELLO,
     h_initiator = 1, h_pid = 0, h_uid = 0, h_gid = 0\<rparr>"
  "get_at O_hello_pid 4 (hello_packet mid pid) = enc_int pid"
proof -
  let ?h = "\<lparr>h_size = of_nat sizeof_packet, h_msg_id = mid, h_msg_type = PR_MSG_HELLO,
     h_initiator = 1, h_pid = 0, h_uid = 0, h_gid = 0 :: u32\<rparr>"
  have "get_header (put_header ?h (replicate sizeof_packet 0)) = ?h" by (rule get_put_header) simp
  moreover have "get_header (hello_packet mid pid) = get_header (put_header ?h (replicate sizeof_packet 0))"
    unfolding hello_packet_def get_header_def by (simp add: layout_defs buf_simps)
  ultimately show "get_header (hello_packet mid pid) = ?h" by simp
  show "get_at O_hello_pid 4 (hello_packet mid pid) = enc_int pid"
    unfolding hello_packet_def by (simp add: layout_defs buf_simps)
qed

text \<open>The module's reply to a hello: its header, no error, and whatever \<open>x\<close> the stack held.\<close>

definition hello_reply :: "bytes \<Rightarrow> bytes \<Rightarrow> bytes" where
  "hello_reply p x = put_at O_error_code (enc_int 0)
     (put_at O_size (enc_u32 (of_nat sizeof_packet)) (put_at 0 (get_at 0 32 p) x))"

lemma hello_reply_fields:
  assumes "length x = sizeof_packet" "p = hello_packet mid pid"
  shows "length (hello_reply p x) = sizeof_packet" "get_header (hello_reply p x) = get_header p"
    "get_at O_size 4 (hello_reply p x) = enc_u32 (of_nat sizeof_packet)"
    "dec_int (get_at O_error_code 4 (hello_reply p x)) = 0"
proof -
  have l: "length p = sizeof_packet" "length (get_at 0 32 p) = 32" using assms(2) by (simp_all add: layout_defs)
  show "length (hello_reply p x) = sizeof_packet" using l assms(1) by (simp add: hello_reply_def layout_defs)
  have c: "get_at off n (hello_reply p x) = get_at off n p" if "O_size + 4 \<le> off" "off + n \<le> 32" for off n
    using that l assms(1) get_header_copy [of off n p x]
    by (simp add: hello_reply_def layout_defs buf_simps)
  show s: "get_at O_size 4 (hello_reply p x) = enc_u32 (of_nat sizeof_packet)"
    using l assms(1) by (simp add: hello_reply_def layout_defs buf_simps)
  have "dec_u32 (get_at O_size 4 p) = of_nat sizeof_packet"
    using arg_cong [OF hello_packet_fields(1) [of mid pid], of h_size] assms(2) by (simp add: get_header_def)
  then show "get_header (hello_reply p x) = get_header p"
    using s by (simp add: get_header_def c layout_defs)
  show "dec_int (get_at O_error_code 4 (hello_reply p x)) = 0"
    using l assms(1) by (simp add: hello_reply_def layout_defs buf_simps dec_enc_int)
qed

text \<open>What the module does on a hello, if the kernel has memory for the reply.\<close>

definition greeted :: "u64 \<Rightarrow> int \<Rightarrow> 'w st \<Rightarrow> 'w st \<Rightarrow> bool" where
  "greeted mid pid s t \<longleftrightarrow> client_pid t = pid \<and> faults t = faults s \<and> heap t = heap s \<and>
     (\<exists>skb r reply. (K_net (K_netlink_unicast skb pid (nlmsghdr_bytes (NLMSG_HDRLEN + sizeof_packet) pid @ reply)), r)
          \<in> set (trace t) \<and> get_header reply = get_header (hello_packet mid pid) \<and>
        dec_int (get_at O_error_code 4 reply) = 0)"

lemma greetedI:
  assumes "(K_net (K_netlink_unicast skb pid (nlmsghdr_bytes (NLMSG_HDRLEN + sizeof_packet) pid @ reply)), r) \<in> set (trace t)"
    "client_pid t = pid" "faults t = faults s" "heap t = heap s"
    "get_header reply = get_header (hello_packet mid pid)" "dec_int (get_at O_error_code 4 reply) = 0"
  shows "greeted mid pid s t"
  using assms unfolding greeted_def by blast

lemma wp_receive_hello:
  assumes "nlmsg_put_fits K" "\<And>n w. rv (fst (K (K_net (K_nlmsg_new n)) w)) \<noteq> 0"
    and "length (fst junk) = 2" "length (snd junk) = 4" "- (2 ^ 31) \<le> pid" "pid < 2 ^ 31"
  shows "wp (teadfs_netlink_receive K (SendMsg junk (hello_packet mid pid))) (\<lambda>_. greeted mid pid s) s"
proof -
  let ?p = "hello_packet mid pid"
  have "carries (SendMsg junk ?p) ?p" by (rule carries_SendMsg) (use assms(3,4) in \<open>simp_all add: layout_defs\<close>)
  then have d: "nlmsg_data (SendMsg junk ?p) = ?p" by (simp add: carries_def)
  have f: "dec_u8 (get_at O_initiator 1 ?p) = 1" "dec_u8 (get_at O_msg_type 1 ?p) = PR_MSG_HELLO"
    "dec_int (get_at O_hello_pid 4 ?p) = pid"
    using arg_cong [OF hello_packet_fields(1) [of mid pid], of h_initiator]
      arg_cong [OF hello_packet_fields(1) [of mid pid], of h_msg_type] assms(5,6)
    by (simp_all add: get_header_def hello_packet_fields(2) dec_enc_int)
  have len: "O_initiator + 1 \<le> sizeof_packet" "O_msg_type + 1 \<le> sizeof_packet" "32 \<le> sizeof_packet"
    "O_hello_pid + 4 \<le> sizeof_packet" by (simp_all add: layout_defs)
  let ?x = "take sizeof_packet (rdata (fst (K (K_indeterminate sizeof_packet) (world s))) @ replicate sizeof_packet 0)"
  have x: "length ?x = sizeof_packet" by simp
  have u: "unat (of_nat sizeof_packet :: u32) = sizeof_packet" by (simp add: layout_defs)
  note r = hello_reply_fields [OF x refl, of mid pid, unfolded hello_reply_def]
  show ?thesis
    unfolding teadfs_netlink_receive_def d teadfs_user_request_kernel_def stack_bytes_def teadfs_send_to_user_def
      packet_field_def call_rv_def
    using assms(1,2) len f r(1,3) u
    apply (simp add: wp_simps wp_call nlmsg_put_fits_def)
    apply (rule greetedI [where reply = "hello_reply ?p ?x"])
         apply (simp add: hello_reply_def, rule disjI1, intro conjI refl)
        apply (rule hello_reply_fields [OF x refl] | simp)+
    done
qed

section \<open>Properties\<close>

text \<open>
  C19: a client that starts registers itself: \<open>StartTEADFS\<close> sends one message; when the
  module receives it, the process becomes the client to which requests go, no memory fault occurs
  and the module answers with the same message id and no error; that answer ends the client's
  request, once.
\<close>

theorem hello_connects:
  assumes "nlmsg_put_fits K" "\<And>n w. rv (fst (K (K_net (K_nlmsg_new n)) w)) \<noteq> 0"
    and "0 \<le> dev" "0 \<le> skfd" "0 < pid" "pid < 2 ^ 31" "length (fst junk) = 2" "length (snd junk) = 4"
    and "StartTEADFS cb dev skfd 0 pid junk client_boot = (rc, c)"
    and "run_state (receive_all K (sent c)) s = (u, t)"
  shows "rc = 1 \<and> length (sent c) = 1 \<and> greeted 1 pid s t \<and> s_map c = [1 \<mapsto> None] \<and>
    s_map (snd (ResponseMsg (h_msg_id (get_header (hello_packet 1 pid))) c)) = Map.empty"
proof -
  have c: "rc = 1" "sent c = [SendMsg junk (hello_packet 1 pid)]" "s_map c = [1 \<mapsto> None]"
    using assms(3,4,9)
    by (auto simp: StartTEADFS_def assign_pool_def StartNetlink_def SendHello_def client_boot_def Let_def get_next_msg_id_eq
        next_id_def emplace_def)
  have "wp (receive_all K (sent c)) (\<lambda>_. greeted 1 pid s) s"
    unfolding c(2) by (simp add: wp_simps) (rule wp_receive_hello, use assms(1,2,5-8) in simp_all)
  then have "greeted 1 pid s t" by (rule wp_run [OF _ assms(10)])
  then show ?thesis using c by (simp add: ResponseMsg_def hello_packet_fields(1))
qed

text \<open>
  While a client is connected, another one cannot start: opening the device
  fails, and \<open>StartTEADFS\<close> then fails as well, without opening a socket or sending anything, so the
  registered client stays.
\<close>

theorem second_client_refused:
  assumes "client_connect s \<noteq> 0" "run_state teadfs_miscdev_open s = (dev, t)"
    and "StartTEADFS cb dev skfd bound pid junk client_boot = (rc, c)"
  shows "dev = - EBUSY \<and> rc = - 1 \<and> sent c = [] \<and> m_skfd c = - 1 \<and> client_pid t = client_pid s \<and>
    client_connect t = client_connect s"
proof -
  have "wp teadfs_miscdev_open (\<lambda>r t. r = - EBUSY \<and> client_pid t = client_pid s \<and>
      client_connect t = client_connect s) s"
    using assms(1) by (simp add: wp_miscdev_open)
  then have "dev = - EBUSY" "client_pid t = client_pid s" "client_connect t = client_connect s"
    by (auto dest: wp_run [OF _ assms(2)])
  then show ?thesis using assms(3) by (auto simp: StartTEADFS_def assign_pool_def client_boot_def Let_def EBUSY_def)
qed

text \<open>
  The client's message counter draws the same ids as the module's: the successor,
  skipping zero on wrap-around. A run of up to 2^64 - 1 requests of the client therefore has
  distinct ids.
\<close>

theorem counters_agree:
  fixes s :: "'w st"
  shows "get_next_msg_id (unique_id s) =
      (fst (run_state teadfs_get_next_msg_id s), unique_id (snd (run_state teadfs_get_next_msg_id s))) \<and>
    inj_on (\<lambda>n. ((\<lambda>g. snd (get_next_msg_id g)) ^^ n) 1) {..<2 ^ 64 - 1}"
proof -
  have "wp teadfs_get_next_msg_id (\<lambda>a t. (a, unique_id t) = get_next_msg_id (unique_id s)) s"
    by (simp add: wp_simps get_next_msg_id_eq)
  moreover have "(\<lambda>g. snd (get_next_msg_id g)) = next_id" by (simp add: get_next_msg_id_eq)
  moreover have "inj_on (\<lambda>n. (next_id ^^ n) 1) {..<2 ^ 64 - 1}"
  proof (rule inj_onI)
    fix i j :: nat assume "i \<in> {..<2 ^ 64 - 1}" "j \<in> {..<2 ^ 64 - 1}" "(next_id ^^ i) 1 = (next_id ^^ j) 1"
    then show "i = j"
      using gid.iter_distinct [of 1 i j] gid.iter_distinct [of 1 j i] by (cases i j rule: linorder_cases) auto
  qed
  ultimately show ?thesis by (simp add: wp_def)
qed

text \<open>
  The messages that the receive loop hands to the thread pool are each answered
  exactly once: when no task is pending and no worker is busy, the answers sent are those of the
  received messages, up to their order; at any time no message has been answered twice.
\<close>

theorem answered_once:
  assumes "pool_reachable p"
  shows "image_mset (thread_pool_cb_func cb nCode junk) (mset (handled p)) \<subseteq>#
      image_mset (thread_pool_cb_func cb nCode junk) (mset (added p)) \<and>
    (m_task p = [] \<and> running p = {#} \<longrightarrow>
      image_mset (thread_pool_cb_func cb nCode junk) (mset (handled p)) =
      image_mset (thread_pool_cb_func cb nCode junk) (mset (added p)))"
proof -
  have "started p @ m_task p = added p" "mset (started p) = mset (handled p) + running p"
    using pool_invariant(2) [OF assms] by (simp_all add: log_ok_def)
  then have m: "mset (added p) = mset (handled p) + (running p + mset (m_task p))"
    by (metis add.assoc mset_append)
  then have "mset (handled p) \<subseteq># mset (added p)" by simp
  then show ?thesis using m by (auto intro: image_mset_subseteq_mono)
qed

text \<open>
  C40: the receive loop hands every message that arrives before the first failing poll to
  its handler, in order, and none after it; it ends exactly then, or when the socket is closed.
\<close>

theorem receive_loop:
  assumes "m_handler c" "\<not> m_bExist c" "Poll_error \<notin> set rs"
  shows "ThreadRcv_loop tail (rs @ Poll_error # rs') c =
      (List.map_filter (\<lambda>r. case r of Poll_ready (Some m) \<Rightarrow> Some (ThreadRcv tail m) | _ \<Rightarrow> None) rs, c\<lparr>m_bExist := True\<rparr>) \<and>
    ThreadRcv_loop tail rs (CloseNetlink c) = ([], CloseNetlink c)"
proof -
  have "ThreadRcv_loop tail (rs @ Poll_error # rs') c =
      (List.map_filter (\<lambda>r. case r of Poll_ready (Some m) \<Rightarrow> Some (ThreadRcv tail m) | _ \<Rightarrow> None) rs, c\<lparr>m_bExist := True\<rparr>)"
    using assms(3)
  proof (induction rs)
    case Nil
    show ?case using assms(2) by (cases rs') (simp_all add: map_filter_simps)
  next
    case (Cons r rs)
    then obtain m where "r = Poll_timeout \<or> r = Poll_ready m" by (cases r) auto
    then show ?case using Cons assms(1,2) by (cases m) (auto simp: map_filter_simps)
  qed
  moreover have "ThreadRcv_loop tail rs (CloseNetlink c) = ([], CloseNetlink c)"
    by (cases rs) (simp_all add: CloseNetlink_def)
  ultimately show ?thesis by blast
qed

section \<open>Witnesses\<close>

definition test_callbacks :: TEAFS_DEAL_CB where
  "test_callbacks = test_cb (\<lambda>_. []) (\<lambda>_. None)"

definition started_client :: "unit client_proc" where
  "started_client = snd (StartTEADFS test_callbacks 3 4 0 77 ([0, 0], [0, 0, 0, 0]) client_boot)"

theorem hello_connects_witness:
  "greeted 1 77 (boot_st ()) (snd (run_state (receive_all calm_kernel (sent started_client)) (boot_st ())))"
  using hello_connects [OF calm_fits(1), of 3 4 77 "([0, 0], [0, 0, 0, 0])" test_callbacks
      "fst (StartTEADFS test_callbacks 3 4 0 77 ([0, 0], [0, 0, 0, 0]) (client_boot :: unit client_proc))" started_client
      "boot_st ()" "()" "snd (run_state (receive_all calm_kernel (sent started_client)) (boot_st ()))"]
  by (simp add: started_client_def calm_kernel_def prod_eq_iff del: receive_all.simps)

theorem second_client_refused_witness:
  "fst (StartTEADFS test_callbacks (fst (run_state teadfs_miscdev_open ((boot_st ())\<lparr>client_connect := 1\<rparr>)))
     4 0 77 ([0, 0], [0, 0, 0, 0]) (client_boot :: unit client_proc)) = - 1"
proof -
  let ?o = "run_state teadfs_miscdev_open ((boot_st ())\<lparr>client_connect := 1\<rparr>)"
  let ?r = "StartTEADFS test_callbacks (fst ?o) 4 0 77 ([0, 0], [0, 0, 0, 0]) (client_boot :: unit client_proc)"
  show ?thesis
    using second_client_refused [of "(boot_st ())\<lparr>client_connect := 1\<rparr>" "fst ?o" "snd ?o" test_callbacks 4 0 77
        "([0, 0], [0, 0, 0, 0])" "fst ?r" "snd ?r"]
    unfolding prod.collapse by auto
qed

text \<open>One message, handled by the first worker.\<close>

definition handled_pool :: "bytes CThreadPool" where
  "handled_pool = \<lparr>m_task = [], p_event = False, p_bExit = False, m_threadPool = [0],
     workers = [\<lparr>w_event = True, w_bExit = False, m_status = TS_RUNNING, nRepeatCount = 12, w_pc = L_test\<rparr>],
     d_pc = D_test, signalling = False, added = [[1]], started = [[1]], handled = [[1]]\<rparr>"

lemma handled_reachable: "pool_reachable handled_pool"
proof (rule pool_reachable_run [OF pool_new])
  show "pool_run ([Add [1], Add_signal] @ replicate 4 (Dispatch Signalled) @ replicate 3 (Work 0 Signalled)) new_pool =
      Some handled_pool"
    by code_simp
qed

theorem answered_once_witness:
  "image_mset (thread_pool_cb_func test_callbacks 0 ([0, 0], [0, 0, 0, 0])) (mset (handled handled_pool)) =
   image_mset (thread_pool_cb_func test_callbacks 0 ([0, 0], [0, 0, 0, 0])) (mset (added handled_pool))"
  using answered_once [OF handled_reachable] by (simp add: handled_pool_def running_def)

theorem receive_loop_witness:
  "fst (ThreadRcv_loop [] [Poll_timeout, Poll_ready (Some (replicate 16 0 @ [7])), Poll_error, Poll_timeout] started_client) = [[7]]"
  using receive_loop [of started_client "[Poll_timeout, Poll_ready (Some (replicate 16 0 @ [7]))]" "[]" "[Poll_timeout]"]
  by (simp add: started_client_def StartTEADFS_def assign_pool_def StartNetlink_def SendHello_def Let_def split_beta map_filter_simps
      ThreadRcv_def NLMSG_HDRLEN_def MAX_MSG_SIZE_def)

end
