(* ===== verification/Pool_Teardown.thy ===== *)
theory Pool_Teardown
  imports Client_Start
begin

text \<open>
  The end of workers and of the pool (\<open>thread_pool.h\<close>, \<open>StartTEADFS\<close> of \<open>main.cpp\<close>): when the
  destructors may run, and what happens when they do not.
\<close>

section \<open>Lemmas\<close>

lemma destroy_works_pc:
  "d_pc (snd (destroy_works h is p)) = d_pc p"
  by (induction "is" arbitrary: p) (auto simp: split_beta Let_def)

lemma destroy_pool_pc: "d_pc (snd (destroy_pool p)) = d_pc p"
  by (simp add: destroy_pool_def split_beta Let_def destroy_works_pc)

text \<open>The dispatcher of a pool that was not destroyed never leaves its loop, so its destructor is never safe.\<close>

definition unsafe_end :: "misuse list \<times> 'a CThreadPool \<Rightarrow> bool" where
  "unsafe_end x \<longleftrightarrow> Destroyed_in_wait \<in> set (fst x) \<or> dispatch_destroyed (snd x) = Inl Used_after_free \<or>
     (\<exists>q. dispatch_destroyed (snd x) = Inr q \<and> dispatch_destroyed q = Inl Used_after_free)"

lemma destroy_pool_unsafe:
  assumes "pool_reachable p"
  shows "unsafe_end (destroy_pool p)"
proof -
  have "d_pc p \<noteq> D_end" using pool_okD(5) [OF pool_invariant(1) [OF assms]] by auto
  moreover have "Destroyed_in_wait \<in> set (fst (destroy_pool p))" if "d_pc p = D_wait"
    using that by (simp add: destroy_pool_def DestroyEvent_def split_beta Let_def)
  ultimately show ?thesis
    by (cases "d_pc p") (simp_all add: unsafe_end_def dispatch_destroyed_def destroy_pool_pc)
qed

text \<open>A worker that the dispatcher erases has left its loop.\<close>

lemma erased_left:
  assumes "pool_ok p" "dispatch r p = Some q" "i \<in> set (m_threadPool p)" "i \<notin> set (m_threadPool q)"
  shows "w_pc (workers p ! i) = L_end"
proof -
  note ok = pool_okD [OF assms(1)]
  obtain e: "Status p i = TS_EXIT"
  proof (cases "d_pc p")
    case (D_check k found)
    have k: "k < length (m_threadPool p)" using ok(5) D_check by simp
    have "Status p (m_threadPool p ! k) = TS_EXIT" using assms(2-4) D_check by (auto split: if_splits)
    then have "m_threadPool q = take k (m_threadPool p) @ drop (k + 1) (m_threadPool p)"
      using assms(2) D_check by auto
    then have "set (m_threadPool q) = set (m_threadPool p) - {m_threadPool p ! k}"
      by (simp only: remove_nth(2) [OF ok(2) k])
    then have "i = m_threadPool p ! k" using assms(3,4) by blast
    then show thesis using that D_check \<open>Status p (m_threadPool p ! k) = TS_EXIT\<close> by simp
  qed (use assms(2-4) in \<open>cases r; auto split: if_splits option.splits\<close>)+
  show "w_pc (workers p ! i) = L_end"
    using e exit_is_end [OF ok(1) [OF ok(3) [OF assms(3)]]] by (simp add: Status_def)
qed

text \<open>An erased worker never returns to the list.\<close>

lemma erased_step:
  assumes "pool_step a p = Some q" "i < length (workers p)" "i \<notin> set (m_threadPool p)"
  shows "i < length (workers q)" "i \<notin> set (m_threadPool q)"
proof -
  have "i < length (workers q) \<and> i \<notin> set (m_threadPool q)"
  proof (cases a)
    case (Dispatch r)
    then show ?thesis
      using assms by (cases "d_pc p"; cases r) (auto split: if_splits option.splits dest: in_set_takeD in_set_dropD)
  qed (use assms in \<open>auto simp: AddTask_def AddTask_signal_def work_def split: if_splits option.splits\<close>)
  then show "i < length (workers q)" "i \<notin> set (m_threadPool q)" by auto
qed

lemma erased_run:
  "pool_run acts p = Some q \<Longrightarrow> i < length (workers p) \<Longrightarrow> i \<notin> set (m_threadPool p) \<Longrightarrow>
     i < length (workers q) \<and> i \<notin> set (m_threadPool q)"
proof (induction acts arbitrary: p)
  case (Cons a acts)
  then obtain p1 where p1: "pool_step a p = Some p1" "pool_run acts p1 = Some q" by (auto split: option.splits)
  show ?case by (rule Cons.IH [OF p1(2)]) (use erased_step [OF p1(1)] Cons.prems in simp_all)
qed simp

section \<open>Properties\<close>

text \<open>
  C21: the destructor of a worker that the dispatcher erases from the pool is
  safe (the destructor of the pool itself, which destroys its workers too, is not): nobody waits on the event it destroys, and however the pool goes on, the worker's thread
  makes no further step and the dispatcher never points to the worker again.
\<close>

theorem worker_end_safe:
  assumes "pool_reachable p" "pool_step a p = Some q" "i \<in> set (m_threadPool p)" "i \<notin> set (m_threadPool q)"
    and "pool_run acts q = Some u"
  shows "fst (destroy_work (workers p ! i)) = [] \<and> work_step r (workers u ! i) (m_task u) = None \<and>
    chosen (d_pc u) \<noteq> Some i"
proof -
  obtain d where d: "a = Dispatch d" "dispatch d p = Some q"
    using assms(2-4) by (cases a) (auto simp: AddTask_def AddTask_signal_def work_def split: if_splits option.splits)
  note ok = pool_invariant(1) [OF assms(1)]
  have q: "pool_reachable q" using pool_next assms(1,2) by blast
  have "i < length (workers q)"
    using pool_okD(3) [OF ok assms(3)] d(2) by (cases "d_pc p"; cases d) (auto split: if_splits option.splits)
  then have u: "i < length (workers u)" "i \<notin> set (m_threadPool u)" using erased_run assms(4,5) by blast+
  show ?thesis
    using erased_left [OF ok d(2) assms(3,4)] destroyed_unused [OF pool_reachable_run [OF q assms(5)] u]
    by (simp add: destroy_work_def DestroyEvent_def)
qed

text \<open>
  C25: starting the library again, for example after the device was busy, destroys the
  first thread pool while its detached dispatcher runs: whatever the threads did until then, either
  the dispatcher is waiting on the event that is destroyed, or one of its next two steps uses the
  destroyed pool.
\<close>

theorem restart_unsafe:
  assumes "dev < 0" "StartTEADFS cb dev skfd bound pid junk client_boot = (rc, c)"
    and "pool_run acts (the (g_ptrThreadPool c)) = Some p"
    and "StartTEADFS cb' dev' skfd' bound' pid' junk' (c\<lparr>g_ptrThreadPool := Some p\<rparr>) = (rc', c')"
  shows "rc = - 1 \<and> old_pools c' = [destroy_pool p] \<and> unsafe_end (destroy_pool p)"
proof -
  have c: "rc = - 1" "g_ptrThreadPool c = Some new_pool" "old_pools c = []"
    using assms(1,2) by (auto simp: StartTEADFS_def assign_pool_def client_boot_def Let_def)
  have "pool_reachable p" using pool_reachable_run [OF pool_new] assms(3) c(2) by simp
  moreover have "old_pools c' = [destroy_pool p]"
    using assms(4) c(3)
    by (auto simp: StartTEADFS_def assign_pool_def StartNetlink_def SendHello_def Let_def split_beta split: if_splits)
  ultimately show ?thesis using c(1) destroy_pool_unsafe by blast
qed

section \<open>Witnesses\<close>

text \<open>The worker that left is about to be erased.\<close>

definition checking_pool :: "nat CThreadPool" where
  "checking_pool = race_pool\<lparr>m_task := [2, 3], added := [1, 2, 3], d_pc := D_check 0 None\<rparr>"

lemma checking_reachable: "pool_reachable checking_pool"
proof (rule pool_reachable_run [OF race_reachable])
  show "pool_run ([Add 3, Add_signal] @ replicate 3 (Dispatch Signalled)) race_pool = Some checking_pool"
    by code_simp
qed

theorem worker_end_safe_witness: "fst (destroy_work (workers checking_pool ! 0)) = []"
proof -
  have "pool_step (Dispatch Signalled) checking_pool = Some (checking_pool\<lparr>m_threadPool := [], d_pc := D_scan 0 None\<rparr>)"
    by code_simp
  from worker_end_safe [OF checking_reachable this, of 0 "[]"] show ?thesis
    by (simp add: checking_pool_def race_pool_def)
qed

text \<open>The dispatcher waits when the client is started again.\<close>

theorem restart_unsafe_witness:
  "unsafe_end (destroy_pool (new_pool\<lparr>d_pc := D_wait\<rparr> :: bytes CThreadPool))"
proof -
  let ?S = "StartTEADFS test_callbacks (- 16) 4 0 77 ([0, 0], [0, 0, 0, 0])"
  let ?c = "snd (?S (client_boot :: unit client_proc))" and ?p = "new_pool\<lparr>d_pc := D_wait\<rparr> :: bytes CThreadPool"
  let ?r = "?S (?c\<lparr>g_ptrThreadPool := Some ?p\<rparr>)"
  have "pool_run [Dispatch Signalled] (the (g_ptrThreadPool ?c)) = Some ?p"
    by (simp add: StartTEADFS_def assign_pool_def Let_def new_pool_def)
  then show ?thesis
    using restart_unsafe [of "- 16" test_callbacks 4 0 77 "([0, 0], [0, 0, 0, 0])"
        "fst (?S (client_boot :: unit client_proc))" ?c "[Dispatch Signalled]" ?p
        test_callbacks "- 16" 4 0 77 "([0, 0], [0, 0, 0, 0])" "fst ?r" "snd ?r"]
    by simp
qed

end
