(* ===== verification/Test_App.thy ===== *)
theory Test_App
  imports Client_Start
begin

text \<open>
  The main program of the example application (\<open>test.cpp\<close>): an optional edit of a file, then the
  start of the library with the example's callbacks. The results of the system calls are arguments.
  After the start the program reads its terminal for ever and does nothing with what it reads.
\<close>

datatype sys_call = Sys_open bytes int | Sys_pwrite int bytes nat | Sys_close int

definition test_file :: bytes where "test_file = map of_char ''/test/4.txt''"
definition test_data :: bytes where "test_data = map of_char ''Abc123,./''"

definition TestFunc :: "int \<Rightarrow> sys_call list" where
  "TestFunc fdDst = Sys_open test_file O_RDWR #
     (if fdDst < 0 then [] else [Sys_pwrite fdDst test_data 3, Sys_close fdDst])"

text \<open>The system calls of the edit, and the library when the loop is reached.\<close>

definition test_main ::
  "int \<Rightarrow> int \<Rightarrow> (u32 \<Rightarrow> bytes) \<Rightarrow> (bytes \<Rightarrow> bytes option) \<Rightarrow> int \<Rightarrow> int \<Rightarrow> int \<Rightarrow> int \<Rightarrow> bytes \<times> bytes \<Rightarrow>
     sys_call list \<times> 'h client_proc"
where
  "test_main argc fdDst prog_of fs dev skfd bound pid junk =
     (let edit = (if argc > 1 then TestFunc fdDst else []);
          (nRst, c) = StartTEADFS (test_cb prog_of fs) dev skfd bound pid junk client_boot
      in (edit, c))"

text \<open>
  Whatever the edit did, the program reaches its loop with the example's callbacks installed, and
  with one hello sent if the device and the socket could be opened.
\<close>

lemma test_main_started:
  assumes "test_main argc fdDst prog_of fs dev skfd bound pid junk = (edit, c)"
  shows "g_deal_db c = Some (test_cb prog_of fs)" "g_ptrThreadPool c = Some new_pool"
    "sent c = (if 0 \<le> dev \<and> 0 \<le> skfd \<and> bound = 0 then [SendMsg junk (hello_packet 1 pid)] else [])"
  using assms
  by (auto simp: test_main_def StartTEADFS_def assign_pool_def StartNetlink_def SendHello_def client_boot_def Let_def
      get_next_msg_id_eq next_id_def split: if_splits)

end
