(* ===== verification/Multi_Events.thy ===== *)
theory Multi_Events
  imports Events
begin

text \<open>
  The parts of \<open>pevents.cpp\<close> that the build options \<open>WFMO\<close> and \<open>PULSE\<close> add: waiting for several
  events at once, what \<open>SetEvent\<close> and \<open>DestroyEvent\<close> do for such waits, and \<open>PulseEvent\<close>. Every call
  is a process with a number; the object that a wait allocates has the number of its call as its
  address. A step is one access to memory that other threads may use; what a thread does to data
  under a mutex that it holds is part of the step next to it. A load of \<open>StillWaiting\<close> that yields
  \<open>false\<close> and the decrement that follows are one step, because the flag is never set again.
\<close>

section \<open>State\<close>

text \<open>\<open>Status\<close> is the union of \<open>FiredEvent\<close> and \<open>EventsLeft\<close>.\<close>

record neosmart_wfmo =
  wf_Mutex :: "nat option"
  RefCount :: int
  Status :: int
  WaitAll :: bool
  StillWaiting :: bool

record wfmo_info =
  Waiter :: nat
  WaitIndex :: int

record multi_event =
  me_AutoReset :: bool
  me_State :: bool
  me_Mutex :: "nat option"
  RegisteredWaits :: "wfmo_info list"

text \<open>The calls, with their arguments; \<open>Try_event\<close> is a wait for one event with time-out zero,
  which takes the mutex only for an auto-reset event that it has seen set.\<close>

datatype request =
    Multi_wait "nat list" bool u64
  | Set_event nat
  | Pulse_event nat
  | Reset_event nat
  | Try_event nat
  | Destroy_event nat

text \<open>
  Where a call is. \<open>Wm\<close>: in \<open>WaitForMultipleEvents\<close>, with the index of the loop and the number of
  skipped references; \<open>Sa\<close> and \<open>Sm\<close>: in \<open>SetEvent\<close> for an auto-reset and a manual-reset event;
  \<open>De\<close>: in \<open>DestroyEvent\<close>.
\<close>

datatype multi_pc =
    M_idle
  | Wm_next nat nat | Wm_reload nat nat | Wm_lock nat nat | Wm_clean nat nat nat | Wm_try nat nat
  | Wm_check nat | Wm_test nat | Wm_sleep nat | Wm_relock int nat | Wm_end int nat | Wm_unref int int nat
  | Sa_front nat | Sa_lock nat | Sa_notify nat | Sa_signal nat | Sa_drop nat bool
  | Sm_front nat | Sm_lock nat | Sm_notify nat | Sm_signal nat | Sm_drop nat
  | P_reset nat
  | De_clean nat nat
  | M_returned int int

text \<open>Using a deleted object, and a failed assertion.\<close>

datatype multi_fault = Deleted_waiter nat | Assertion_failed

record multi =
  m_events :: "multi_event list"
  waiters :: "nat \<Rightarrow> neosmart_wfmo option"
  m_pc :: "nat \<Rightarrow> multi_pc"
  m_faults :: "multi_fault list"

definition new_event :: "bool \<Rightarrow> bool \<Rightarrow> multi_event" where
  "new_event manualReset initialState =
     \<lparr>me_AutoReset = \<not> manualReset, me_State = initialState, me_Mutex = None, RegisteredWaits = []\<rparr>"

definition multi_start :: "multi_event list \<Rightarrow> multi" where
  "multi_start es = \<lparr>m_events = es, waiters = (\<lambda>_. None), m_pc = (\<lambda>_. M_idle), m_faults = []\<rparr>"

abbreviation event :: "nat \<Rightarrow> multi \<Rightarrow> multi_event" where
  "event e s \<equiv> m_events s ! e"

definition go :: "nat \<Rightarrow> multi_pc \<Rightarrow> multi \<Rightarrow> multi" where
  "go c p s = s\<lparr>m_pc := (m_pc s)(c := p)\<rparr>"

definition upd_event :: "nat \<Rightarrow> (multi_event \<Rightarrow> multi_event) \<Rightarrow> multi \<Rightarrow> multi" where
  "upd_event e f s = s\<lparr>m_events := (m_events s)[e := f (m_events s ! e)]\<rparr>"

definition multi_fault :: "multi_fault \<Rightarrow> multi \<Rightarrow> multi" where
  "multi_fault x s = s\<lparr>m_faults := m_faults s @ [x]\<rparr>"

text \<open>Access to a waiter; \<open>k\<close> is what happens with its contents.\<close>

definition use_waiter :: "nat \<Rightarrow> (neosmart_wfmo \<Rightarrow> multi) \<Rightarrow> multi \<Rightarrow> multi" where
  "use_waiter c k s = (case waiters s c of None \<Rightarrow> multi_fault (Deleted_waiter c) s | Some w \<Rightarrow> k w)"

definition set_waiter :: "nat \<Rightarrow> neosmart_wfmo \<Rightarrow> multi \<Rightarrow> multi" where
  "set_waiter c w s = s\<lparr>waiters := (waiters s)(c \<mapsto> w)\<rparr>"

text \<open>\<open>fetch_sub\<close> on the reference count with its assertion, and the deletion by the last user.\<close>

definition unref :: "nat \<Rightarrow> int \<Rightarrow> multi \<Rightarrow> multi" where
  "unref c n s = use_waiter c (\<lambda>w.
     let s = (if RefCount w > 0 then s else multi_fault Assertion_failed s)
     in if RefCount w = n then s\<lparr>waiters := (waiters s)(c := None)\<rparr>
        else set_waiter c (w\<lparr>RefCount := RefCount w - n\<rparr>) s) s"

definition drop_wait :: "nat \<Rightarrow> nat \<Rightarrow> multi \<Rightarrow> multi" where
  "drop_wait e k = upd_event e (\<lambda>x. x\<lparr>RegisteredWaits := take k (RegisteredWaits x) @ drop (Suc k) (RegisteredWaits x)\<rparr>)"

text \<open>One application of \<open>RemoveExpiredWaitHelper\<close>, to the entry \<open>k\<close>; the result tells whether it was removed.\<close>

definition RemoveExpiredWaitHelper :: "nat \<Rightarrow> nat \<Rightarrow> multi \<Rightarrow> bool \<times> multi" where
  "RemoveExpiredWaitHelper e k s =
     (let c = Waiter (RegisteredWaits (event e s) ! k) in
      case waiters s c of
        None \<Rightarrow> (False, multi_fault (Deleted_waiter c) s)
      | Some w \<Rightarrow> if StillWaiting w then (False, s) else (True, drop_wait e k (unref c 1 s)))"

definition lock_event :: "nat \<Rightarrow> nat \<Rightarrow> multi \<Rightarrow> multi option" where
  "lock_event c e s = (if me_Mutex (event e s) = None then Some (upd_event e (\<lambda>x. x\<lparr>me_Mutex := Some c\<rparr>) s) else None)"

definition unlock_event :: "nat \<Rightarrow> multi \<Rightarrow> multi" where
  "unlock_event e = upd_event e (\<lambda>x. x\<lparr>me_Mutex := None\<rparr>)"

section \<open>WaitForMultipleEvents\<close>

definition new_wait :: "nat \<Rightarrow> nat \<Rightarrow> bool \<Rightarrow> neosmart_wfmo" where
  "new_wait c count waitAll = \<lparr>wf_Mutex = Some c, RefCount = 1 + int count,
     Status = (if waitAll then int count else - 1), WaitAll = waitAll, StillWaiting = True\<rparr>"

text \<open>Event \<open>i\<close> was available: one reference or, when waiting for any event, the rest of them are skipped.\<close>

definition acquired :: "nat \<Rightarrow> nat list \<Rightarrow> bool \<Rightarrow> nat \<Rightarrow> nat \<Rightarrow> multi \<Rightarrow> multi" where
  "acquired c events waitAll i skipped s = use_waiter c (\<lambda>w.
     if waitAll
     then
       let s = set_waiter c (w\<lparr>Status := Status w - 1\<rparr>) s;
           s = (if Status w - 1 \<ge> 0 then s else multi_fault Assertion_failed s)
       in go c (Wm_next (Suc i) (Suc skipped)) s
     else go c (Wm_end 0 (skipped + (length events - i))) (set_waiter c (w\<lparr>Status := int i\<rparr>) s)) s"

text \<open>\<open>UnlockedWaitForEvent\<close> with time-out zero on event \<open>i\<close>, and the registration if it was not set.\<close>

definition try_event :: "nat \<Rightarrow> nat list \<Rightarrow> bool \<Rightarrow> nat \<Rightarrow> nat \<Rightarrow> multi \<Rightarrow> multi" where
  "try_event c events waitAll i skipped s =
     (let e = events ! i; x = event e s in
      if me_State x
      then acquired c events waitAll i skipped
        (unlock_event e (upd_event e (\<lambda>x. x\<lparr>me_State := take_event (me_AutoReset x) (me_State x)\<rparr>) s))
      else go c (Wm_next (Suc i) skipped)
        (unlock_event e (upd_event e (\<lambda>x. x\<lparr>RegisteredWaits := RegisteredWaits x @ [\<lparr>Waiter = c, WaitIndex = int i\<rparr>]\<rparr>) s)))"

text \<open>
  One step of a wait. \<open>timeout\<close> chooses how a sleep ends that nobody signals: by the time-out, or
  spuriously.
\<close>

fun wait_step :: "nat list \<Rightarrow> bool \<Rightarrow> u64 \<Rightarrow> bool \<Rightarrow> nat \<Rightarrow> multi \<Rightarrow> multi option" where
  "wait_step events waitAll milliseconds timeout c s = (case m_pc s c of
     M_idle \<Rightarrow> Some (go c (Wm_next 0 0) (set_waiter c (new_wait c (length events) waitAll) s))
   | Wm_next i skipped \<Rightarrow>
       if i < length events
       then Some (go c (if \<not> me_AutoReset (event (events ! i) s) \<and> me_State (event (events ! i) s)
         then Wm_reload i skipped else Wm_lock i skipped) s)
       else Some (go c (Wm_check skipped) s)
   | Wm_reload i skipped \<Rightarrow>
       if me_State (event (events ! i) s) then Some (acquired c events waitAll i skipped s)
       else Some (go c (Wm_lock i skipped) s)
   | Wm_lock i skipped \<Rightarrow> map_option (go c (Wm_clean i skipped 0)) (lock_event c (events ! i) s)
   | Wm_clean i skipped k \<Rightarrow>
       if k < length (RegisteredWaits (event (events ! i) s))
       then let (removed, t) = RemoveExpiredWaitHelper (events ! i) k s
         in Some (go c (Wm_clean i skipped (if removed then k else Suc k)) t)
       else Some (go c (Wm_try i skipped) s)
   | Wm_try i skipped \<Rightarrow> Some (try_event c events waitAll i skipped s)
   | Wm_check skipped \<Rightarrow> Some (use_waiter c (\<lambda>w.
       go c (if waitAll \<and> Status w = 0 then Wm_end 0 skipped
         else if milliseconds = 0 then Wm_end WAIT_TIMEOUT skipped else Wm_test skipped) s) s)
   | Wm_test skipped \<Rightarrow> Some (use_waiter c (\<lambda>w.
       if waitAll \<and> Status w = 0 \<or> \<not> waitAll \<and> Status w \<noteq> - 1 then go c (Wm_end 0 skipped) s
       else go c (Wm_sleep skipped) (set_waiter c (w\<lparr>wf_Mutex := None\<rparr>) s)) s)
   | Wm_sleep skipped \<Rightarrow>
       if timeout
       then if milliseconds = WAIT_INFINITE then None else Some (go c (Wm_relock WAIT_TIMEOUT skipped) s)
       else Some (go c (Wm_relock 0 skipped) s)
   | Wm_relock result skipped \<Rightarrow> (case waiters s c of
       None \<Rightarrow> Some (multi_fault (Deleted_waiter c) s)
     | Some w \<Rightarrow> if wf_Mutex w = None
         then Some (go c (if result \<noteq> 0 then Wm_end result skipped else Wm_test skipped)
           (set_waiter c (w\<lparr>wf_Mutex := Some c\<rparr>) s))
         else None)
   | Wm_end result skipped \<Rightarrow> Some (use_waiter c (\<lambda>w.
       go c (Wm_unref result (Status w) skipped) (set_waiter c (w\<lparr>StillWaiting := False, wf_Mutex := None\<rparr>) s)) s)
   | Wm_unref result waitIndex skipped \<Rightarrow> Some (go c (M_returned result waitIndex) (unref c (1 + int skipped) s))
   | _ \<Rightarrow> None)"

section \<open>SetEvent, PulseEvent, ResetEvent\<close>

definition cond_signal :: "nat \<Rightarrow> multi \<Rightarrow> multi" where
  "cond_signal c s = (case m_pc s c of Wm_sleep skipped \<Rightarrow> go c (Wm_relock 0 skipped) s | _ \<Rightarrow> s)"

text \<open>The first registered wait of an event: its waiter and its index.\<close>

definition front :: "nat \<Rightarrow> multi \<Rightarrow> wfmo_info" where
  "front e s = hd (RegisteredWaits (event e s))"

text \<open>After \<open>SetEvent\<close>, \<open>PulseEvent\<close> resets the event.\<close>

definition set_done :: "nat \<Rightarrow> bool \<Rightarrow> nat \<Rightarrow> multi \<Rightarrow> multi" where
  "set_done e pulse c = go c (if pulse then P_reset e else M_returned 0 0)"

text \<open>What a setter does to the waiter under the waiter's mutex.\<close>

definition notify :: "wfmo_info \<Rightarrow> neosmart_wfmo \<Rightarrow> multi \<Rightarrow> multi" where
  "notify i w s = (if WaitAll w
     then
       let s = set_waiter (Waiter i) (w\<lparr>Status := Status w - 1, wf_Mutex := None\<rparr>) s
       in if Status w - 1 \<ge> 0 then s else multi_fault Assertion_failed s
     else set_waiter (Waiter i) (w\<lparr>Status := WaitIndex i, StillWaiting := False, wf_Mutex := None\<rparr>) s)"

definition lock_waiter :: "nat \<Rightarrow> nat \<Rightarrow> multi_pc \<Rightarrow> multi \<Rightarrow> multi option" where
  "lock_waiter me c p s = (case waiters s c of
     None \<Rightarrow> Some (multi_fault (Deleted_waiter c) s)
   | Some w \<Rightarrow> if wf_Mutex w = None then Some (go me p (set_waiter c (w\<lparr>wf_Mutex := Some me\<rparr>) s)) else None)"

text \<open>
  One step of \<open>SetEvent\<close>. For a manual-reset event the source walks the list by index and clears it at
  the end, all under the event's mutex; here an entry is removed when the walk has passed it.
\<close>

fun set_step :: "nat \<Rightarrow> bool \<Rightarrow> nat \<Rightarrow> multi \<Rightarrow> multi option" where
  "set_step e pulse c s = (case m_pc s c of
     M_idle \<Rightarrow> map_option (\<lambda>s. if me_AutoReset (event e s) then go c (Sa_front e) s
         else go c (Sm_front e) (upd_event e (\<lambda>x. x\<lparr>me_State := True\<rparr>) s)) (lock_event c e s)
   | Sa_front e' \<Rightarrow>
       if RegisteredWaits (event e s) = []
       then Some (set_done e pulse c (unlock_event e (upd_event e (\<lambda>x. x\<lparr>me_State := True\<rparr>) s)))
       else Some (use_waiter (Waiter (front e s)) (\<lambda>w.
         if StillWaiting w then go c (Sa_lock e) s else drop_wait e 0 (unref (Waiter (front e s)) 1 s)) s)
   | Sa_lock e' \<Rightarrow> lock_waiter c (Waiter (front e s)) (Sa_notify e) s
   | Sa_notify e' \<Rightarrow> Some (use_waiter (Waiter (front e s)) (\<lambda>w.
       if StillWaiting w then go c (Sa_signal e) (notify (front e s) w s)
       else go c (Sa_drop e False) (set_waiter (Waiter (front e s)) (w\<lparr>wf_Mutex := None\<rparr>) s)) s)
   | Sa_signal e' \<Rightarrow> Some (use_waiter (Waiter (front e s)) (\<lambda>_. go c (Sa_drop e True) (cond_signal (Waiter (front e s)) s)) s)
   | Sa_drop e' ends \<Rightarrow>
       (let t = drop_wait e 0 (unref (Waiter (front e s)) 1 s)
        in Some (if ends then set_done e pulse c (unlock_event e t) else go c (Sa_front e) t))
   | Sm_front e' \<Rightarrow>
       if RegisteredWaits (event e s) = [] then Some (set_done e pulse c (unlock_event e s))
       else Some (use_waiter (Waiter (front e s)) (\<lambda>w.
         if StillWaiting w then go c (Sm_lock e) s else drop_wait e 0 (unref (Waiter (front e s)) 1 s)) s)
   | Sm_lock e' \<Rightarrow> lock_waiter c (Waiter (front e s)) (Sm_notify e) s
   | Sm_notify e' \<Rightarrow> Some (use_waiter (Waiter (front e s)) (\<lambda>w. go c (Sm_signal e) (notify (front e s) w s)) s)
   | Sm_signal e' \<Rightarrow> Some (use_waiter (Waiter (front e s)) (\<lambda>_. go c (Sm_drop e) (cond_signal (Waiter (front e s)) s)) s)
   | Sm_drop e' \<Rightarrow> Some (go c (Sm_front e) (drop_wait e 0 (unref (Waiter (front e s)) 1 s)))
   | P_reset e' \<Rightarrow> Some (go c (M_returned 0 0) (upd_event e (\<lambda>x. x\<lparr>me_State := False\<rparr>) s))
   | _ \<Rightarrow> None)"

text \<open>\<open>DestroyEvent\<close> up to the point where the event itself is deleted.\<close>

fun destroy_step :: "nat \<Rightarrow> nat \<Rightarrow> multi \<Rightarrow> multi option" where
  "destroy_step e c s = (case m_pc s c of
     M_idle \<Rightarrow> map_option (go c (De_clean e 0)) (lock_event c e s)
   | De_clean e' k \<Rightarrow>
       if k < length (RegisteredWaits (event e s))
       then let (removed, t) = RemoveExpiredWaitHelper e k s in Some (go c (De_clean e (if removed then k else Suc k)) t)
       else Some (go c (M_returned 0 0) (unlock_event e s))
   | _ \<Rightarrow> None)"

fun multi_step :: "(nat \<Rightarrow> request) \<Rightarrow> nat \<Rightarrow> bool \<Rightarrow> multi \<Rightarrow> multi option" where
  "multi_step req c timeout s = (case req c of
     Multi_wait events waitAll milliseconds \<Rightarrow> wait_step events waitAll milliseconds timeout c s
   | Set_event e \<Rightarrow> set_step e False c s
   | Pulse_event e \<Rightarrow> set_step e True c s
   | Reset_event e \<Rightarrow> (if m_pc s c = M_idle then Some (go c (M_returned 0 0) (upd_event e (\<lambda>x. x\<lparr>me_State := False\<rparr>) s)) else None)
   | Try_event e \<Rightarrow> (if m_pc s c = M_idle \<and> (me_AutoReset (event e s) \<and> me_State (event e s) \<longrightarrow> me_Mutex (event e s) = None)
       then Some (go c (M_returned (if me_State (event e s) then 0 else WAIT_TIMEOUT) 0)
         (upd_event e (\<lambda>x. x\<lparr>me_State := take_event (me_AutoReset x) (me_State x)\<rparr>) s))
       else None)
   | Destroy_event e \<Rightarrow> destroy_step e c s)"

fun multi_run :: "(nat \<Rightarrow> request) \<Rightarrow> (nat \<times> bool) list \<Rightarrow> multi \<Rightarrow> multi option" where
  "multi_run req [] s = Some s"
| "multi_run req ((c, b) # cs) s = (case multi_step req c b s of None \<Rightarrow> None | Some t \<Rightarrow> multi_run req cs t)"

end
