(* ===== verification/Multi_Props.thy ===== *)
theory Multi_Props
  imports Multi_Events
begin

text \<open>
  Reachable states of waits for several events, the quantities that the invariants speak of, and
  mutual exclusion on the events.
\<close>

section \<open>Reachable states\<close>

text \<open>The events a call names exist.\<close>

fun names :: "request \<Rightarrow> nat set" where
  "names (Multi_wait events waitAll milliseconds) = set events"
| "names (Set_event e) = {e}"
| "names (Pulse_event e) = {e}"
| "names (Reset_event e) = {e}"
| "names (Try_event e) = {e}"
| "names (Destroy_event e) = {e}"

inductive multi_reachable :: "(nat \<Rightarrow> request) \<Rightarrow> multi \<Rightarrow> bool" for req where
  multi_begin: "list_all (\<lambda>x. me_Mutex x = None \<and> RegisteredWaits x = []) es \<Longrightarrow>
    (\<forall>c. names (req c) \<subseteq> {..<length es}) \<Longrightarrow> multi_reachable req (multi_start es)"
| multi_next: "multi_reachable req s \<Longrightarrow> multi_step req c timeout s = Some t \<Longrightarrow> multi_reachable req t"

section \<open>Counting references\<close>

definition entries :: "nat \<Rightarrow> wfmo_info list \<Rightarrow> int" where
  "entries c ws = int (length (filter (\<lambda>i. Waiter i = c) ws))"

definition regs :: "nat \<Rightarrow> multi \<Rightarrow> int" where
  "regs c s = (\<Sum>e<length (m_events s). entries c (RegisteredWaits (event e s)))"

definition refs :: "nat \<Rightarrow> multi \<Rightarrow> int" where
  "refs c s = (case waiters s c of None \<Rightarrow> 0 | Some w \<Rightarrow> RefCount w)"

text \<open>The references that a wait itself holds: one, those it skipped, and one per event not yet looked at.\<close>

fun events_of :: "request \<Rightarrow> nat list" where
  "events_of (Multi_wait events waitAll milliseconds) = events"
| "events_of _ = []"

fun left :: "nat \<Rightarrow> multi_pc \<Rightarrow> int" where
  "left n (Wm_next i k) = int n - int i"
| "left n (Wm_reload i k) = int n - int i"
| "left n (Wm_lock i k) = int n - int i"
| "left n (Wm_clean i k j) = int n - int i"
| "left n (Wm_try i k) = int n - int i"
| "left n _ = 0"

fun own :: "multi_pc \<Rightarrow> int" where
  "own (Wm_next i k) = 1 + int k"
| "own (Wm_reload i k) = 1 + int k"
| "own (Wm_lock i k) = 1 + int k"
| "own (Wm_clean i k j) = 1 + int k"
| "own (Wm_try i k) = 1 + int k"
| "own (Wm_check k) = 1 + int k"
| "own (Wm_test k) = 1 + int k"
| "own (Wm_sleep k) = 1 + int k"
| "own (Wm_relock r k) = 1 + int k"
| "own (Wm_end r k) = 1 + int k"
| "own (Wm_unref r i k) = 1 + int k"
| "own _ = 0"

definition held :: "request \<Rightarrow> multi_pc \<Rightarrow> int" where
  "held r p = own p + left (length (events_of r)) p"

section \<open>Mutexes\<close>

text \<open>The event whose mutex a call holds.\<close>

fun section_of :: "request \<Rightarrow> multi_pc \<Rightarrow> nat option" where
  "section_of r (Wm_clean i k j) = Some (events_of r ! i)"
| "section_of r (Wm_try i k) = Some (events_of r ! i)"
| "section_of r (Sa_front e) = Some e"
| "section_of r (Sa_lock e) = Some e"
| "section_of r (Sa_notify e) = Some e"
| "section_of r (Sa_signal e) = Some e"
| "section_of r (Sa_drop e b) = Some e"
| "section_of r (Sm_front e) = Some e"
| "section_of r (Sm_lock e) = Some e"
| "section_of r (Sm_notify e) = Some e"
| "section_of r (Sm_signal e) = Some e"
| "section_of r (Sm_drop e) = Some e"
| "section_of r (De_clean e k) = Some e"
| "section_of r _ = None"

text \<open>The calls that work on the first entry of an event's list.\<close>

fun at_front :: "multi_pc \<Rightarrow> bool" where
  "at_front (Sa_lock e) = True"
| "at_front (Sa_notify e) = True"
| "at_front (Sa_signal e) = True"
| "at_front (Sa_drop e b) = True"
| "at_front (Sm_lock e) = True"
| "at_front (Sm_notify e) = True"
| "at_front (Sm_signal e) = True"
| "at_front (Sm_drop e) = True"
| "at_front _ = False"

text \<open>Where a call of each kind can be.\<close>

fun wait_pc :: "nat \<Rightarrow> multi_pc \<Rightarrow> bool" where
  "wait_pc n (Wm_next i k) = (i \<le> n)"
| "wait_pc n (Wm_reload i k) = (i < n)"
| "wait_pc n (Wm_lock i k) = (i < n)"
| "wait_pc n (Wm_clean i k j) = (i < n)"
| "wait_pc n (Wm_try i k) = (i < n)"
| "wait_pc n (Wm_check k) = True"
| "wait_pc n (Wm_test k) = True"
| "wait_pc n (Wm_sleep k) = True"
| "wait_pc n (Wm_relock r k) = True"
| "wait_pc n (Wm_end r k) = True"
| "wait_pc n (Wm_unref r i k) = True"
| "wait_pc n _ = False"

fun set_pc :: "nat \<Rightarrow> multi_pc \<Rightarrow> bool" where
  "set_pc e (Sa_front d) = (d = e)"
| "set_pc e (Sa_lock d) = (d = e)"
| "set_pc e (Sa_notify d) = (d = e)"
| "set_pc e (Sa_signal d) = (d = e)"
| "set_pc e (Sa_drop d b) = (d = e)"
| "set_pc e (Sm_front d) = (d = e)"
| "set_pc e (Sm_lock d) = (d = e)"
| "set_pc e (Sm_notify d) = (d = e)"
| "set_pc e (Sm_signal d) = (d = e)"
| "set_pc e (Sm_drop d) = (d = e)"
| "set_pc e (P_reset d) = (d = e)"
| "set_pc e _ = False"

fun destroy_pc :: "nat \<Rightarrow> multi_pc \<Rightarrow> bool" where
  "destroy_pc e (De_clean d k) = (d = e)"
| "destroy_pc e _ = False"

fun over_pc :: "multi_pc \<Rightarrow> bool" where
  "over_pc M_idle = True"
| "over_pc (M_returned r i) = True"
| "over_pc _ = False"

fun at_work :: "request \<Rightarrow> multi_pc \<Rightarrow> bool" where
  "at_work (Multi_wait events waitAll milliseconds) p = wait_pc (length events) p"
| "at_work (Set_event e) p = set_pc e p"
| "at_work (Pulse_event e) p = set_pc e p"
| "at_work (Reset_event e) p = False"
| "at_work (Try_event e) p = False"
| "at_work (Destroy_event e) p = destroy_pc e p"

definition pc_ok :: "request \<Rightarrow> multi_pc \<Rightarrow> bool" where
  "pc_ok r p \<longleftrightarrow> over_pc p \<or> at_work r p"

definition locked :: "(nat \<Rightarrow> request) \<Rightarrow> multi \<Rightarrow> bool" where
  "locked req s \<longleftrightarrow> (\<forall>c. names (req c) \<subseteq> {..<length (m_events s)}) \<and> (\<forall>c. pc_ok (req c) (m_pc s c)) \<and>
     (\<forall>c. \<forall>e<length (m_events s). section_of (req c) (m_pc s c) = Some e \<longleftrightarrow> me_Mutex (event e s) = Some c) \<and>
     (\<forall>c e. section_of (req c) (m_pc s c) = Some e \<longrightarrow> at_front (m_pc s c) \<longrightarrow> RegisteredWaits (event e s) \<noteq> [])"

text \<open>The references of every waiter are accounted for.\<close>

definition counted :: "(nat \<Rightarrow> request) \<Rightarrow> multi \<Rightarrow> bool" where
  "counted req s \<longleftrightarrow> (\<forall>c. refs c s = held (req c) (m_pc s c) + regs c s) \<and> (\<forall>c w. waiters s c = Some w \<longrightarrow> 0 < RefCount w)"

section \<open>The effect of the operations\<close>

lemma go_simps [simp]:
  "m_events (go c p s) = m_events s" "waiters (go c p s) = waiters s" "m_faults (go c p s) = m_faults s"
  "m_pc (go c p s) = (m_pc s)(c := p)" "regs d (go c p s) = regs d s" "refs d (go c p s) = refs d s"
  by (simp_all add: go_def regs_def refs_def)

lemma fault_simps [simp]:
  "m_events (multi_fault x s) = m_events s" "waiters (multi_fault x s) = waiters s"
  "m_pc (multi_fault x s) = m_pc s" "m_faults (multi_fault x s) = m_faults s @ [x]"
  by (simp_all add: multi_fault_def)

lemma set_waiter_simps [simp]:
  "m_events (set_waiter c w s) = m_events s" "waiters (set_waiter c w s) = (waiters s)(c \<mapsto> w)"
  "m_pc (set_waiter c w s) = m_pc s" "m_faults (set_waiter c w s) = m_faults s" "regs d (set_waiter c w s) = regs d s"
  "refs d (set_waiter c w s) = (if d = c then RefCount w else refs d s)"
  by (simp_all add: set_waiter_def regs_def refs_def)

lemma upd_event_simps [simp]:
  "length (m_events (upd_event e f s)) = length (m_events s)" "waiters (upd_event e f s) = waiters s"
  "m_pc (upd_event e f s) = m_pc s" "m_faults (upd_event e f s) = m_faults s" "refs d (upd_event e f s) = refs d s"
  by (simp_all add: upd_event_def refs_def)

lemma event_upd [simp]:
  "e < length (m_events s) \<Longrightarrow> event d (upd_event e f s) = (if d = e then f (event e s) else event d s)"
  by (simp add: upd_event_def)

lemma sum_change:
  fixes f g :: "nat \<Rightarrow> int"
  assumes "e < n" "\<And>d. d < n \<Longrightarrow> d \<noteq> e \<Longrightarrow> f d = g d"
  shows "sum f {..<n} = sum g {..<n} - g e + f e"
proof -
  have "sum f {..<n} = f e + sum f ({..<n} - {e})" "sum g {..<n} = g e + sum g ({..<n} - {e})"
    using assms(1) by (simp_all add: sum.remove)
  moreover have "sum f ({..<n} - {e}) = sum g ({..<n} - {e})" by (rule sum.cong) (use assms(2) in auto)
  ultimately show ?thesis by simp
qed

lemma regs_upd [simp]:
  "e < length (m_events s) \<Longrightarrow> regs c (upd_event e f s) =
     regs c s - entries c (RegisteredWaits (event e s)) + entries c (RegisteredWaits (f (event e s)))"
  unfolding regs_def by (subst sum_change [where e = e and g = "\<lambda>d. entries c (RegisteredWaits (event d s))"]) auto

lemma entries_simps [simp]:
  "entries c [] = 0" "entries c (i # ws) = (if Waiter i = c then 1 else 0) + entries c ws"
  "entries c (us @ ws) = entries c us + entries c ws" "0 \<le> entries c ws"
  by (simp_all add: entries_def)

lemma entries_drop:
  assumes "k < length ws"
  shows "entries c (take k ws @ drop (Suc k) ws) = entries c ws - (if Waiter (ws ! k) = c then 1 else 0)"
proof -
  have "entries c ws = entries c (take k ws @ ws ! k # drop (Suc k) ws)" using assms by (simp add: id_take_nth_drop [symmetric])
  then show ?thesis by simp
qed

lemma regs_nonneg: "0 \<le> regs c s"
  unfolding regs_def by (rule sum_nonneg) simp

lemma regs_entry:
  assumes "e < length (m_events s)" "k < length (RegisteredWaits (event e s))"
  shows "0 < regs (Waiter (RegisteredWaits (event e s) ! k)) s"
proof -
  let ?c = "Waiter (RegisteredWaits (event e s) ! k)"
  have "0 < entries ?c (RegisteredWaits (event e s))"
    using entries_drop [OF assms(2), of ?c] entries_simps(4) [of ?c "take k (RegisteredWaits (event e s)) @ drop (Suc k) (RegisteredWaits (event e s))"]
    by simp
  also have "\<dots> \<le> regs ?c s" unfolding regs_def by (rule member_le_sum) (use assms(1) in simp_all)
  finally show ?thesis .
qed

lemma held_nonneg: "pc_ok r p \<Longrightarrow> 0 \<le> held r p"
  by (cases r; cases p) (simp_all add: held_def pc_ok_def)

text \<open>A registered waiter exists.\<close>

lemma registered_waiter:
  assumes "counted req s" "locked req s" "e < length (m_events s)" "k < length (RegisteredWaits (event e s))"
  obtains w where "waiters s (Waiter (RegisteredWaits (event e s) ! k)) = Some w" "0 < RefCount w"
proof -
  let ?c = "Waiter (RegisteredWaits (event e s) ! k)"
  have "0 < refs ?c s"
    using assms(1,2) regs_entry [OF assms(3,4)] held_nonneg [of "req ?c" "m_pc s ?c"]
    by (auto simp: counted_def locked_def add_nonneg_pos)
  then obtain w where w: "waiters s ?c = Some w" by (cases "waiters s ?c") (simp_all add: refs_def)
  with assms(1) have "0 < RefCount w" unfolding counted_def by blast
  with w show thesis by (rule that)
qed

section \<open>Mutual exclusion on the events\<close>

lemma unref_simps [simp]:
  "m_events (unref c n s) = m_events s" "m_pc (unref c n s) = m_pc s"
  by (simp_all add: unref_def use_waiter_def Let_def set_waiter_def split: option.splits)

lemma nth_below: "set xs \<subseteq> {..<n} \<Longrightarrow> i < length xs \<Longrightarrow> xs ! i < (n :: nat)"
  by (meson lessThan_iff nth_mem subsetD)

lemma section_exists:
  assumes "pc_ok r p" "names r \<subseteq> {..<n}" "section_of r p = Some e"
  shows "e < n"
  using assms by (cases r; cases p) (auto simp: pc_ok_def nth_below)

lemma locked_start:
  assumes "list_all (\<lambda>x. me_Mutex x = None \<and> RegisteredWaits x = []) es" "\<forall>c. names (req c) \<subseteq> {..<length es}"
  shows "locked req (multi_start es)"
  using assms by (simp add: locked_def multi_start_def pc_ok_def list_all_length)

text \<open>What a step of the call \<open>c\<close> may do to the mutexes and the lists.\<close>

definition guarded :: "(nat \<Rightarrow> request) \<Rightarrow> nat \<Rightarrow> multi \<Rightarrow> multi \<Rightarrow> bool" where
  "guarded req c s t \<longleftrightarrow> length (m_events t) = length (m_events s) \<and> pc_ok (req c) (m_pc t c) \<and>
     (\<forall>d. d \<noteq> c \<longrightarrow> pc_ok (req d) (m_pc s d) \<longrightarrow> pc_ok (req d) (m_pc t d)) \<and>
     (\<forall>d. d \<noteq> c \<longrightarrow> section_of (req d) (m_pc t d) = section_of (req d) (m_pc s d) \<and> at_front (m_pc t d) = at_front (m_pc s d)) \<and>
     (\<forall>e<length (m_events s). if section_of (req c) (m_pc t c) = Some e
        then (me_Mutex (event e s) = None \<or> me_Mutex (event e s) = Some c) \<and> me_Mutex (event e t) = Some c \<and>
          (at_front (m_pc t c) \<longrightarrow> RegisteredWaits (event e t) \<noteq> [])
        else if section_of (req c) (m_pc s c) = Some e then me_Mutex (event e t) = None
        else me_Mutex (event e t) = me_Mutex (event e s) \<and> RegisteredWaits (event e t) = RegisteredWaits (event e s))"

lemma guarded_locked:
  assumes "locked req s" "guarded req c s t"
  shows "locked req t"
proof -
  have n: "length (m_events t) = length (m_events s)" "\<And>d. names (req d) \<subseteq> {..<length (m_events s)}"
    using assms by (simp_all add: locked_def guarded_def)
  have ok: "pc_ok (req d) (m_pc t d)" for d
    using assms by (cases "d = c") (simp_all add: locked_def guarded_def)
  have mx: "section_of (req d) (m_pc s d) = Some e \<longleftrightarrow> me_Mutex (event e s) = Some d" if "e < length (m_events s)" for d e
    using assms(1) that by (simp add: locked_def)
  have sec: "section_of (req d) (m_pc t d) = Some e \<longleftrightarrow> me_Mutex (event e t) = Some d"
    if "e < length (m_events s)" for d e
    using assms(2) that mx [OF that, of c] mx [OF that, of d] by (cases "d = c") (auto simp: guarded_def split: if_splits)
  have "RegisteredWaits (event e t) \<noteq> []" if "section_of (req d) (m_pc t d) = Some e" "at_front (m_pc t d)" for d e
  proof -
    have e: "e < length (m_events s)" by (rule section_exists [OF ok n(2) that(1)])
    show ?thesis
    proof (cases "d = c")
      case True
      then show ?thesis using assms(2) that e by (simp add: guarded_def)
    next
      case False
      then have "section_of (req d) (m_pc s d) = Some e" "at_front (m_pc s d)" using assms(2) that by (simp_all add: guarded_def)
      moreover have "section_of (req c) (m_pc t c) \<noteq> Some e" "section_of (req c) (m_pc s c) \<noteq> Some e"
        using False sec [OF e, of c] sec [OF e, of d] mx [OF e, of c] mx [OF e, of d] that(1) calculation(1) by auto
      ultimately show ?thesis using assms e by (simp add: guarded_def locked_def)
    qed
  qed
  then show ?thesis using n ok sec by (simp add: locked_def)
qed

lemma helper_simps [simp]:
  "m_pc (snd (RemoveExpiredWaitHelper e k s)) = m_pc s"
  "length (m_events (snd (RemoveExpiredWaitHelper e k s))) = length (m_events s)"
  "e < length (m_events s) \<Longrightarrow> me_Mutex (event d (snd (RemoveExpiredWaitHelper e k s))) = me_Mutex (event d s)"
  "e < length (m_events s) \<Longrightarrow> d \<noteq> e \<Longrightarrow>
     RegisteredWaits (event d (snd (RemoveExpiredWaitHelper e k s))) = RegisteredWaits (event d s)"
  by (simp_all add: RemoveExpiredWaitHelper_def drop_wait_def Let_def split: option.splits)

lemma notify_simps [simp]:
  "m_events (notify i w s) = m_events s" "m_pc (notify i w s) = m_pc s"
  by (simp_all add: notify_def Let_def)

lemma cond_signal_simps [simp]:
  "m_events (cond_signal c s) = m_events s" "waiters (cond_signal c s) = waiters s" "m_faults (cond_signal c s) = m_faults s"
  "regs d (cond_signal c s) = regs d s" "refs d (cond_signal c s) = refs d s"
  "section_of r (m_pc (cond_signal c s) d) = section_of r (m_pc s d)" "at_front (m_pc (cond_signal c s) d) = at_front (m_pc s d)"
  "pc_ok r (m_pc (cond_signal c s) d) = pc_ok r (m_pc s d)" "held r (m_pc (cond_signal c s) d) = held r (m_pc s d)"
  by (simp_all add: cond_signal_def held_def split: multi_pc.splits)
    (cases r; simp add: pc_ok_def)

lemma locked_call:
  assumes "locked req s"
  shows "names (req c) \<subseteq> {..<length (m_events s)}" "pc_ok (req c) (m_pc s c)"
    "section_of (req c) (m_pc s c) = Some e \<Longrightarrow> me_Mutex (event e s) = Some c"
    "section_of (req c) (m_pc s c) = Some e \<Longrightarrow> at_front (m_pc s c) \<Longrightarrow> RegisteredWaits (event e s) \<noteq> []"
    "section_of (req c) (m_pc s c) = Some e \<Longrightarrow> e < length (m_events s)"
  using assms section_exists [of "req c" "m_pc s c" "length (m_events s)" e] by (auto simp: locked_def)

lemmas guarded_simps = guarded_def lock_event_def unlock_event_def drop_wait_def set_done_def use_waiter_def
  lock_waiter_def case_prod_beta

lemma destroy_guarded:
  assumes "locked req s" "req c = Destroy_event e" "destroy_step e c s = Some t"
  shows "guarded req c s t"
  using locked_call [OF assms(1), of c] assms(2,3)
  by (cases "m_pc s c") (auto simp: pc_ok_def guarded_simps split: if_splits)

lemma set_guarded:
  assumes l: "locked req s" and r: "at_work (req c) = set_pc e" "names (req c) = {e}" and t: "set_step e pulse c s = Some t"
  shows "guarded req c s t"
proof -
  have ok: "pc_ok (req c) p \<longleftrightarrow> over_pc p \<or> set_pc e p" for p using r by (simp add: pc_ok_def)
  note h = locked_call [OF l, of c, unfolded r ok]
  show ?thesis using h t
    by (cases "m_pc s c") (auto simp: ok guarded_simps Let_def split: if_splits option.splits)
qed

lemma wait_guarded:
  assumes l: "locked req s" and r: "req c = Multi_wait events waitAll ms" and t: "wait_step events waitAll ms timeout c s = Some t"
    and w: "own (m_pc s c) > 0 \<Longrightarrow> waiters s c \<noteq> None"
  shows "guarded req c s t"
proof -
  have ok: "pc_ok (req c) p \<longleftrightarrow> over_pc p \<or> wait_pc (length events) p" for p using r by (simp add: pc_ok_def)
  have ev: "events_of (req c) = events" using r by simp
  note h = locked_call [OF l, of c, unfolded ok]
  have nth: "i < length events \<Longrightarrow> events ! i < length (m_events s)" for i
    using h(1) by (simp add: r nth_below)
  show ?thesis using h(2-) t w
    by (cases "m_pc s c") (auto simp: ev ok nth guarded_simps acquired_def try_event_def Let_def split: if_splits option.splits)
qed

lemma over_guarded:
  assumes "locked req s" "req c = Reset_event e \<or> req c = Try_event e" "m_pc s c = M_idle"
  shows "guarded req c s (go c (M_returned r i) (upd_event e (\<lambda>x. x\<lparr>me_State := f x\<rparr>) s))"
proof -
  have "e < length (m_events s)" using locked_call(1) [OF assms(1), of c] assms(2) by auto
  then show ?thesis using assms(3) by (simp add: guarded_def pc_ok_def)
qed

lemma step_guarded:
  assumes "locked req s" "multi_step req c timeout s = Some t" "own (m_pc s c) > 0 \<Longrightarrow> waiters s c \<noteq> None"
  shows "guarded req c s t"
proof (cases "req c")
  case (Multi_wait events waitAll ms)
  with assms show ?thesis by (intro wait_guarded) auto
next
  case (Set_event e)
  with assms show ?thesis by (intro set_guarded [where e = e and pulse = False]) auto
next
  case (Pulse_event e)
  with assms show ?thesis by (intro set_guarded [where e = e and pulse = True]) auto
next
  case (Reset_event e)
  with assms show ?thesis using over_guarded [OF assms(1), where f = "\<lambda>_. False"] by (auto split: if_splits)
next
  case (Try_event e)
  with assms show ?thesis
    using over_guarded [OF assms(1), where f = "\<lambda>x. take_event (me_AutoReset x) (me_State x)"] by (auto split: if_splits)
next
  case (Destroy_event e)
  with assms show ?thesis by (intro destroy_guarded) auto
qed

end
