(* ===== verification/Multi_Refs.thy ===== *)
theory Multi_Refs
  imports Multi_Props
begin

text \<open>
  The reference counts of the waiters are exact: the count of every waiter is the share of the wait
  itself and one for each registration.
\<close>

section \<open>The references are exact\<close>

definition positive :: "multi \<Rightarrow> bool" where
  "positive s \<longleftrightarrow> (\<forall>c w. waiters s c = Some w \<longrightarrow> 0 < RefCount w)"

text \<open>References that no registration accounts for.\<close>

definition surplus :: "nat \<Rightarrow> multi \<Rightarrow> int" where
  "surplus c s = refs c s - regs c s"

lemma counted_alt: "counted req s \<longleftrightarrow> (\<forall>c. surplus c s = held (req c) (m_pc s c)) \<and> positive s"
  unfolding counted_def surplus_def positive_def by (auto simp: algebra_simps)

lemma surplus_simps [simp]:
  "surplus d (go c p s) = surplus d s" "surplus d (cond_signal c s) = surplus d s"
  "surplus d (multi_fault x s) = surplus d s"
  by (simp_all add: surplus_def refs_def regs_def)

lemma positive_simps [simp]:
  "positive (go c p s) = positive s" "positive (cond_signal c s) = positive s" "positive (multi_fault x s) = positive s"
  "positive (upd_event e f s) = positive s"
  by (simp_all add: positive_def)

text \<open>Storing a waiter with the count it had, and updating an event's other fields.\<close>

lemma store_waiter:
  assumes "waiters s c = Some w" "RefCount w' = RefCount w"
  shows "surplus d (set_waiter c w' s) = surplus d s" "positive (set_waiter c w' s) = positive s"
  using assms by (auto simp: surplus_def refs_def positive_def)

lemma store_event [simp]:
  assumes "e < length (m_events s)"
  shows "surplus d (upd_event e f s) = surplus d s + entries d (RegisteredWaits (event e s)) - entries d (RegisteredWaits (f (event e s)))"
  using assms by (simp add: surplus_def)

lemma unref_exact:
  assumes "waiters s c = Some w" "0 < n" "n \<le> RefCount w"
  shows "surplus d (unref c n s) = surplus d s - (if d = c then n else 0)" "positive s \<Longrightarrow> positive (unref c n s)"
    "m_faults (unref c n s) = m_faults s"
  using assms by (auto simp: unref_def use_waiter_def Let_def surplus_def refs_def regs_def set_waiter_def positive_def)

text \<open>Dropping an entry together with its reference keeps the account.\<close>

lemma drop_exact:
  assumes "counted req s" "locked req s" "e < length (m_events s)" "k < length (RegisteredWaits (event e s))"
    and c: "c = Waiter (RegisteredWaits (event e s) ! k)"
  shows "surplus d (drop_wait e k (unref c 1 s)) = surplus d s" "positive (drop_wait e k (unref c 1 s))"
    "m_faults (drop_wait e k (unref c 1 s)) = m_faults s"
proof -
  obtain w where w: "waiters s c = Some w" "0 < RefCount w" using registered_waiter [OF assms(1-4)] c by blast
  have "positive s" using assms(1) by (simp add: counted_alt)
  then show "surplus d (drop_wait e k (unref c 1 s)) = surplus d s" "positive (drop_wait e k (unref c 1 s))"
    "m_faults (drop_wait e k (unref c 1 s)) = m_faults s"
    using unref_exact [OF w(1), of 1] w(2) assms(3) entries_drop [OF assms(4), of d] c by (auto simp: drop_wait_def)
qed

lemma drop_wait_simps [simp]:
  "length (m_events (drop_wait e k s)) = length (m_events s)" "waiters (drop_wait e k s) = waiters s"
  "m_pc (drop_wait e k s) = m_pc s" "m_faults (drop_wait e k s) = m_faults s"
  by (simp_all add: drop_wait_def)

text \<open>The same for the first entry.\<close>

lemma front_nth: "RegisteredWaits (event e s) \<noteq> [] \<Longrightarrow> front e s = RegisteredWaits (event e s) ! 0"
  by (simp add: front_def hd_conv_nth)

lemma drop_front:
  assumes "counted req s" "locked req s" "e < length (m_events s)" "RegisteredWaits (event e s) \<noteq> []"
  shows "surplus d (drop_wait e 0 (unref (Waiter (front e s)) 1 s)) = surplus d s"
    "positive (drop_wait e 0 (unref (Waiter (front e s)) 1 s))"
    "m_faults (drop_wait e 0 (unref (Waiter (front e s)) 1 s)) = m_faults s"
  using drop_exact [OF assms(1-3) _ refl, of 0] assms(4) by (simp_all add: front_nth)

lemma notify_exact:
  assumes "waiters s (Waiter i) = Some w"
  shows "surplus d (notify i w s) = surplus d s" "positive (notify i w s) = positive s"
  using assms by (auto simp: notify_def Let_def store_waiter)

lemma helper_exact:
  assumes "counted req s" "locked req s" "e < length (m_events s)" "k < length (RegisteredWaits (event e s))"
  shows "surplus d (snd (RemoveExpiredWaitHelper e k s)) = surplus d s" "positive (snd (RemoveExpiredWaitHelper e k s))"
    "m_faults (snd (RemoveExpiredWaitHelper e k s)) = m_faults s"
proof -
  obtain w where "waiters s (Waiter (RegisteredWaits (event e s) ! k)) = Some w" "0 < RefCount w"
    by (rule registered_waiter [OF assms])
  then show "surplus d (snd (RemoveExpiredWaitHelper e k s)) = surplus d s" "positive (snd (RemoveExpiredWaitHelper e k s))"
    "m_faults (snd (RemoveExpiredWaitHelper e k s)) = m_faults s"
    using drop_exact [OF assms refl] assms(1) by (simp_all add: RemoveExpiredWaitHelper_def Let_def counted_alt)
qed

lemma counted_waiter:
  assumes "counted req s" "locked req s" "own (m_pc s c) > 0"
  obtains w where "waiters s c = Some w" "held (req c) (m_pc s c) \<le> RefCount w" "own (m_pc s c) \<le> RefCount w"
proof -
  have "0 \<le> left (length (events_of (req c))) (m_pc s c)"
    using locked_call(2) [OF assms(2), of c] by (cases "req c"; cases "m_pc s c") (simp_all add: pc_ok_def)
  moreover have r: "refs c s = held (req c) (m_pc s c) + regs c s" using assms(1) by (simp add: counted_def)
  ultimately have "held (req c) (m_pc s c) \<le> refs c s" "own (m_pc s c) \<le> refs c s" "refs c s > 0"
    using assms(3) regs_nonneg [of c s] by (simp_all add: held_def)
  then show thesis using that by (cases "waiters s c") (simp_all add: refs_def)
qed

lemma front_waiter:
  assumes "counted req s" "locked req s" "e < length (m_events s)" "RegisteredWaits (event e s) \<noteq> []"
  obtains w where "waiters s (Waiter (front e s)) = Some w" "0 < RefCount w"
  using registered_waiter [OF assms(1-3), of 0] assms(4) by (auto simp: front_nth)

text \<open>A step keeps the account if it moves as many references as the call's own share changes.\<close>

lemma counted_move:
  assumes "counted req s" "positive t" "\<And>d. d \<noteq> c \<Longrightarrow> surplus d t = surplus d s"
    "surplus c t - surplus c s = held (req c) (m_pc t c) - held (req c) (m_pc s c)"
    "\<And>d. d \<noteq> c \<Longrightarrow> held (req d) (m_pc t d) = held (req d) (m_pc s d)"
  shows "counted req t"
  using assms unfolding counted_alt by (metis add_diff_cancel_left' diff_add_cancel)

lemma unref_none [simp]: "waiters s d = None \<Longrightarrow> waiters (unref c n s) d = None"
  by (auto simp: unref_def use_waiter_def Let_def split: option.splits)

lemma helper_none [simp]: "waiters s d = None \<Longrightarrow> waiters (snd (RemoveExpiredWaitHelper e k s)) d = None"
  by (auto simp: RemoveExpiredWaitHelper_def Let_def split: option.splits)

lemmas opened = lock_event_def unlock_event_def use_waiter_def lock_waiter_def set_done_def acquired_def try_event_def
  notify_def Let_def case_prod_beta

text \<open>What a step of the call \<open>c\<close> leaves of the other calls.\<close>

lemma step_frame:
  assumes "multi_step req c timeout s = Some t"
  shows "d \<noteq> c \<Longrightarrow> m_pc t d = m_pc s d \<or> (\<exists>k. m_pc s d = Wm_sleep k \<and> m_pc t d = Wm_relock 0 k)" (is "_ \<Longrightarrow> ?A")
    and "d \<noteq> c \<Longrightarrow> waiters s d = None \<Longrightarrow> waiters t d = None" (is "_ \<Longrightarrow> _ \<Longrightarrow> ?B")
    and "m_pc t c = M_idle \<Longrightarrow> m_pc s c = M_idle \<and> waiters t c = waiters s c" (is "_ \<Longrightarrow> ?C")
proof -
  have sig: "m_pc (cond_signal e s) d = m_pc s d \<or> (\<exists>k. m_pc s d = Wm_sleep k \<and> m_pc (cond_signal e s) d = Wm_relock 0 k)" for e
    by (simp add: cond_signal_def split: multi_pc.split)
  have set: "(d \<noteq> c \<longrightarrow> ?A) \<and> (d \<noteq> c \<longrightarrow> waiters s d = None \<longrightarrow> ?B) \<and> (m_pc t c = M_idle \<longrightarrow> ?C)"
    if "set_step e pulse c s = Some t" for e pulse
    using that sig [of "Waiter (front e s)"] by (cases "m_pc s c") (auto simp: opened split: if_splits option.splits)
  have "(d \<noteq> c \<longrightarrow> ?A) \<and> (d \<noteq> c \<longrightarrow> waiters s d = None \<longrightarrow> ?B) \<and> (m_pc t c = M_idle \<longrightarrow> ?C)"
  proof (cases "req c")
    case (Multi_wait events waitAll ms)
    then show ?thesis using assms by (cases "m_pc s c") (auto simp: opened split: if_splits option.splits)
  next
    case (Destroy_event e)
    then show ?thesis using assms by (cases "m_pc s c") (auto simp: opened split: if_splits)
  next
    case (Set_event e)
    then have "set_step e False c s = Some t" using assms by simp
    then show ?thesis by (rule set)
  next
    case (Pulse_event e)
    then have "set_step e True c s = Some t" using assms by simp
    then show ?thesis by (rule set)
  qed (use assms in \<open>auto split: if_splits\<close>)
  then show "d \<noteq> c \<Longrightarrow> ?A" "d \<noteq> c \<Longrightarrow> waiters s d = None \<Longrightarrow> ?B" "m_pc t c = M_idle \<Longrightarrow> ?C" by blast+
qed

lemma step_held:
  "multi_step req c timeout s = Some t \<Longrightarrow> d \<noteq> c \<Longrightarrow> held r (m_pc t d) = held r (m_pc s d)"
  using step_frame(1) [of req c timeout s t d] by (auto simp: held_def)

fun waits :: "request \<Rightarrow> bool" where
  "waits (Multi_wait events waitAll milliseconds) = True"
| "waits _ = False"

lemma held_zero: "pc_ok r p \<Longrightarrow> \<not> waits r \<Longrightarrow> held r p = 0"
  by (cases r; cases p) (simp_all add: pc_ok_def held_def)

text \<open>Calls that are not waits keep the account of every waiter.\<close>

lemma others_counted:
  assumes "locked req s" "counted req s" "multi_step req c timeout s = Some t" "\<not> waits (req c)"
    and "positive t" "\<And>d. surplus d t = surplus d s"
  shows "counted req t"
proof (rule counted_move [where c = c, OF assms(2,5)])
  have "own (m_pc s c) = 0"
    using locked_call(2) [OF assms(1), of c] assms(4) by (cases "req c"; cases "m_pc s c") (simp_all add: pc_ok_def)
  then have "pc_ok (req c) (m_pc t c)" using step_guarded [OF assms(1,3)] by (simp add: guarded_def)
  then show "surplus c t - surplus c s = held (req c) (m_pc t c) - held (req c) (m_pc s c)"
    using held_zero assms(4,6) locked_call(2) [OF assms(1), of c] by simp
qed (use assms(6) step_held [OF assms(3)] in simp_all)

lemma destroy_counted:
  assumes "locked req s" "counted req s" "names (req c) = {e}" "at_work (req c) = destroy_pc e" "destroy_step e c s = Some t"
  shows "positive t \<and> surplus d t = surplus d s"
proof -
  have ok: "pc_ok (req c) p \<longleftrightarrow> over_pc p \<or> destroy_pc e p" for p using assms(4) by (simp add: pc_ok_def)
  note h = locked_call [OF assms(1), of c, unfolded ok assms(3)] assms(5) helper_exact [OF assms(2,1), of e]
  have "positive s" using assms(2) by (simp add: counted_alt)
  then show ?thesis using h 
    by (cases "m_pc s c") (auto simp: case_prod_beta lock_event_def unlock_event_def split: if_splits)
qed

lemma set_counted:
  assumes "locked req s" "counted req s" "names (req c) = {e}" "at_work (req c) = set_pc e" "set_step e pulse c s = Some t"
  shows "positive t \<and> surplus d t = surplus d s"
proof -
  have ok: "pc_ok (req c) p \<longleftrightarrow> over_pc p \<or> set_pc e p" for p using assms(4) by (simp add: pc_ok_def)
  have e: "e < length (m_events s)" using locked_call(1) [OF assms(1), of c] assms(3) by simp
  note h = locked_call [OF assms(1), of c, unfolded ok assms(3)] assms(5) drop_front [OF assms(2,1) e]
  have "positive s" using assms(2) by (simp add: counted_alt)
  then show ?thesis using h 
    by (cases "m_pc s c")
      (auto simp: lock_event_def unlock_event_def use_waiter_def lock_waiter_def set_done_def Let_def store_waiter notify_exact
        split: if_splits option.splits)
qed

text \<open>Only a wait allocates a waiter, its own and once.\<close>

definition fresh :: "multi \<Rightarrow> bool" where
  "fresh s \<longleftrightarrow> (\<forall>c. m_pc s c = M_idle \<longrightarrow> waiters s c = None)"

lemma wait_pc_own: "wait_pc n p \<Longrightarrow> 0 < own p"
  by (cases p) simp_all

lemma wait_counted:
  assumes "locked req s" "counted req s" "fresh s"
    and r: "req c = Multi_wait events waitAll ms" and t: "wait_step events waitAll ms timeout c s = Some t"
  shows "positive t \<and> surplus d t - surplus d s = (if d = c then held (req c) (m_pc t c) - held (req c) (m_pc s c) else 0)"
proof -
  have ok: "pc_ok (req c) p \<longleftrightarrow> over_pc p \<or> wait_pc (length events) p" for p using r by (simp add: pc_ok_def)
  have ev: "events_of (req c) = events" using r by simp
  note h = locked_call [OF assms(1), of c, unfolded ok]
  have nth: "i < length events \<Longrightarrow> events ! i < length (m_events s)" for i
    using h(1) by (simp add: r nth_below)
  have p: "positive s" "surplus c s = held (req c) (m_pc s c)" using assms(2) by (simp_all add: counted_alt)
  show ?thesis
  proof (cases "m_pc s c = M_idle")
    case True
    then have "refs c s = 0" using assms(3) by (simp add: refs_def fresh_def)
    with True p t r show ?thesis by (auto simp: held_def surplus_def positive_def new_wait_def split: if_splits)
  next
    case False
    note x = helper_exact [OF assms(2,1)]
    consider (work) w where "waiters s c = Some w" "own (m_pc s c) \<le> RefCount w" "0 < own (m_pc s c)" | "over_pc (m_pc s c)"
      using counted_waiter [OF assms(2,1), of c] wait_pc_own h(2) by metis
    then show ?thesis
    proof cases
      case work
      note u = unref_exact [OF work(1)]
      show ?thesis using h(2-) t work p(1) False
        by (cases "m_pc s c") (auto simp: held_def ev ok nth case_prod_beta x u lock_event_def unlock_event_def use_waiter_def acquired_def try_event_def Let_def store_waiter
           split: if_splits option.splits)
    qed (use False t in \<open>cases "m_pc s c"; simp\<close>)
  qed
qed

lemma at_work_eqs:
  "at_work (Set_event e) = set_pc e" "at_work (Pulse_event e) = set_pc e" "at_work (Destroy_event e) = destroy_pc e"
  by (simp_all add: fun_eq_iff)

lemma step_counted:
  assumes "locked req s" "counted req s" "fresh s" "multi_step req c timeout s = Some t"
  shows "counted req t"
proof (cases "req c")
  case (Multi_wait events waitAll ms)
  note w = wait_counted [OF assms(1-3) Multi_wait, of timeout t]
  have "wait_step events waitAll ms timeout c s = Some t" using assms(4) Multi_wait by simp
  note w = w [OF this]
  show ?thesis
  proof (rule counted_move [where c = c, OF assms(2)])
    show "surplus d t = surplus d s" if "d \<noteq> c" for d using w [of d] that by simp
  qed (use w step_held [OF assms(4)] in simp_all)
next
  case (Set_event e)
  then show ?thesis using set_counted [OF assms(1,2), of c e False t] assms(4) by (intro others_counted [OF assms(1,2,4)]) (auto simp: at_work_eqs)
next
  case (Pulse_event e)
  then show ?thesis using set_counted [OF assms(1,2), of c e True t] assms(4) by (intro others_counted [OF assms(1,2,4)]) (auto simp: at_work_eqs)
next
  case (Reset_event e)
  then show ?thesis using assms locked_call(1) [OF assms(1), of c]
    by (intro others_counted [OF assms(1,2,4)]) (auto simp: counted_alt split: if_splits)
next
  case (Try_event e)
  then show ?thesis using assms locked_call(1) [OF assms(1), of c]
    by (intro others_counted [OF assms(1,2,4)]) (auto simp: counted_alt split: if_splits)
next
  case (Destroy_event e)
  then show ?thesis using destroy_counted [OF assms(1,2), of c e t] assms(4) by (intro others_counted [OF assms(1,2,4)]) (auto simp: at_work_eqs)
qed

lemma step_fresh:
  assumes "fresh s" "multi_step req c timeout s = Some t"
  shows "fresh t"
  unfolding fresh_def
proof (intro allI impI)
  fix d assume "m_pc t d = M_idle"
  then show "waiters t d = None"
    using assms(1) step_frame(1,2) [OF assms(2), of d] step_frame(3) [OF assms(2)] by (cases "d = c") (auto simp: fresh_def)
qed

end
