(* ===== verification/Multi_Left.thy ===== *)
theory Multi_Left
  imports Multi_Refs
begin

text \<open>
  A wait for all events never counts below zero: what is left is at least the number of events the
  wait has not looked at and of registrations that no call has served. Together with the exact
  reference counts this gives an invariant under which no step is a fault.
\<close>

section \<open>Events left\<close>

text \<open>The calls that have already told the first waiter of their event.\<close>

fun served_pc :: "multi_pc \<Rightarrow> bool" where
  "served_pc (Sa_signal e) = True"
| "served_pc (Sa_drop e b) = b"
| "served_pc (Sm_signal e) = True"
| "served_pc (Sm_drop e) = True"
| "served_pc _ = False"

definition unserved :: "bool \<Rightarrow> wfmo_info list \<Rightarrow> wfmo_info list" where
  "unserved b ws = (if b then tl ws else ws)"

definition served :: "nat \<Rightarrow> multi \<Rightarrow> bool" where
  "served e s = (case me_Mutex (event e s) of None \<Rightarrow> False | Some c \<Rightarrow> served_pc (m_pc s c))"

definition live :: "nat \<Rightarrow> multi \<Rightarrow> int" where
  "live c s = (\<Sum>e<length (m_events s). entries c (unserved (served e s) (RegisteredWaits (event e s))))"

lemma served_section: "served_pc p \<Longrightarrow> \<exists>e. section_of r p = Some e"
  by (cases p) simp_all

lemma live_le_regs: "live c s \<le> regs c s"
  unfolding live_def regs_def
proof (rule sum_mono)
  fix e show "entries c (unserved (served e s) (RegisteredWaits (event e s))) \<le> entries c (RegisteredWaits (event e s))"
    by (cases "RegisteredWaits (event e s)") (simp_all add: unserved_def)
qed

lemma live_nonneg: "0 \<le> live c s"
  unfolding live_def by (rule sum_nonneg) simp

text \<open>A step changes what is left of one event's list at most.\<close>

lemma served_other:
  assumes "locked req s" "guarded req c s t" "multi_step req c timeout s = Some t" "e < length (m_events s)"
    "section_of (req c) (m_pc s c) \<noteq> Some e" "section_of (req c) (m_pc t c) \<noteq> Some e"
  shows "served e t = served e s \<and> RegisteredWaits (event e t) = RegisteredWaits (event e s)"
proof -
  have e: "me_Mutex (event e t) = me_Mutex (event e s)" "RegisteredWaits (event e t) = RegisteredWaits (event e s)"
    using assms(2,4-6) by (simp_all add: guarded_def)
  have "served_pc (m_pc t d) = served_pc (m_pc s d)" if "me_Mutex (event e s) = Some d" for d
  proof -
    have "d \<noteq> c" using assms(1,4,5) that by (auto simp: locked_def)
    then show ?thesis using step_frame(1) [OF assms(3), of d] by auto
  qed
  then show ?thesis using e by (simp add: served_def split: option.split)
qed

lemma served_own:
  assumes "locked req s" "e < length (m_events s)" "me_Mutex (event e s) = None \<or> me_Mutex (event e s) = Some c"
    "section_of (req c) (m_pc s c) = None \<or> section_of (req c) (m_pc s c) = Some e"
  shows "served e s = served_pc (m_pc s c)"
  using assms served_section [of "m_pc s c" "req c"] by (auto simp: served_def locked_def)

lemma live_same:
  assumes "locked req s" "guarded req c s t" "multi_step req c timeout s = Some t"
    "section_of (req c) (m_pc s c) = None" "section_of (req c) (m_pc t c) = None"
  shows "live d t = live d s"
  using served_other [OF assms(1-3)] assms(2,4,5) unfolding live_def
  by (intro sum.cong) (simp_all add: guarded_def)

lemma live_change:
  assumes "locked req s" "guarded req c s t" "multi_step req c timeout s = Some t" "e < length (m_events s)"
    "section_of (req c) (m_pc s c) = None \<or> section_of (req c) (m_pc s c) = Some e"
    "section_of (req c) (m_pc t c) = None \<or> section_of (req c) (m_pc t c) = Some e"
    "me_Mutex (event e s) = None \<or> me_Mutex (event e s) = Some c"
  shows "live d t = live d s + entries d (unserved (served_pc (m_pc t c)) (RegisteredWaits (event e t)))
    - entries d (unserved (served_pc (m_pc s c)) (RegisteredWaits (event e s)))"
proof -
  have t: "locked req t" by (rule guarded_locked [OF assms(1,2)])
  have n: "length (m_events t) = length (m_events s)" using assms(2) by (simp add: guarded_def)
  have m: "me_Mutex (event e t) = None \<or> me_Mutex (event e t) = Some c"
    using assms(2,4,7) by (auto simp: guarded_def split: if_splits)
  have other: "served f t = served f s \<and> RegisteredWaits (event f t) = RegisteredWaits (event f s)"
    if "f < length (m_events s)" "f \<noteq> e" for f
    using served_other [OF assms(1-3) that(1)] assms(5,6) that(2) by auto
  have "served e s = served_pc (m_pc s c)" "served e t = served_pc (m_pc t c)"
    using served_own [OF assms(1,4,7,5)] served_own [OF t _ m assms(6)] assms(4) n by simp_all
  then show ?thesis unfolding live_def n using assms(4) other
    by (subst sum_change [where e = e and g = "\<lambda>f. entries d (unserved (served f s) (RegisteredWaits (event f s)))"]) simp_all
qed
fun all_of :: "request \<Rightarrow> bool" where
  "all_of (Multi_wait events waitAll milliseconds) = waitAll"
| "all_of _ = False"

text \<open>A wait for all events counts every event that has not been looked at and every entry that has not been served.\<close>

definition enough :: "(nat \<Rightarrow> request) \<Rightarrow> multi \<Rightarrow> bool" where
  "enough req s \<longleftrightarrow> (\<forall>c w. waiters s c = Some w \<longrightarrow> WaitAll w = all_of (req c) \<and>
     (WaitAll w \<longrightarrow> live c s + left (length (events_of (req c))) (m_pc s c) \<le> Status w))"

text \<open>The waiter \<open>d\<close> is the same kind of wait as before, and its count has not dropped by more than \<open>n\<close>.\<close>

definition paid :: "nat \<Rightarrow> int \<Rightarrow> multi \<Rightarrow> multi \<Rightarrow> bool" where
  "paid d n s t \<longleftrightarrow> (\<forall>w'. waiters t d = Some w' \<longrightarrow>
     (\<exists>w. waiters s d = Some w \<and> WaitAll w' = WaitAll w \<and> (WaitAll w \<longrightarrow> Status w - n \<le> Status w')))"

lemma paid_simps [simp]:
  "0 \<le> n \<Longrightarrow> paid d n s s"
  "paid d n s (go c p t) = paid d n s t" "paid d n s (upd_event e f t) = paid d n s t" "paid d n s (drop_wait e k t) = paid d n s t"
  "paid d n s (cond_signal c t) = paid d n s t" "paid d n s (multi_fault x t) = paid d n s t"
  by (simp_all add: paid_def)

lemma paid_store:
  assumes "waiters t = waiters s" "waiters s c = Some w" "WaitAll w' = WaitAll w"
    "if d = c then WaitAll w \<longrightarrow> Status w - n \<le> Status w' else 0 \<le> n"
  shows "paid d n s (set_waiter c w' t)"
  using assms by (auto simp: paid_def)

lemma paid_unref [simp]: "0 \<le> n \<Longrightarrow> paid d n s (unref c k s)"
  by (auto simp: paid_def unref_def use_waiter_def Let_def set_waiter_def split: option.splits)

lemma paid_helper [simp]: "0 \<le> n \<Longrightarrow> paid d n s (snd (RemoveExpiredWaitHelper e k s))"
  by (simp add: RemoveExpiredWaitHelper_def Let_def split: option.split)

lemma paid_notify:
  assumes "waiters s (Waiter i) = Some w" "(if d = Waiter i then 1 else 0) \<le> n"
  shows "paid d n s (notify i w s)"
  using assms by (auto simp: notify_def Let_def paid_def)

lemma enough_paid:
  assumes "enough req s"
    "\<And>d. paid d (live d s + left (length (events_of (req d))) (m_pc s d) - (live d t + left (length (events_of (req d))) (m_pc t d))) s t"
  shows "enough req t"
  unfolding enough_def
proof (intro allI impI)
  fix d w' assume "waiters t d = Some w'"
  then obtain w where w: "waiters s d = Some w" "WaitAll w' = WaitAll w"
    "WaitAll w \<longrightarrow> Status w - (live d s + left (length (events_of (req d))) (m_pc s d) - (live d t + left (length (events_of (req d))) (m_pc t d))) \<le> Status w'"
    using assms(2) [of d] by (auto simp: paid_def)
  then show "WaitAll w' = all_of (req d) \<and> (WaitAll w' \<longrightarrow> live d t + left (length (events_of (req d))) (m_pc t d) \<le> Status w')"
    using assms(1) by (fastforce simp: enough_def)
qed

lemma paid_set:
  assumes l: "locked req s" and g: "guarded req c s t" and m: "multi_step req c timeout s = Some t"
    and r: "at_work (req c) = set_pc e" "names (req c) = {e}" and t: "set_step e pulse c s = Some t"
  shows "paid d (live d s - live d t) s t"
proof -
  have ok: "pc_ok (req c) p \<longleftrightarrow> over_pc p \<or> set_pc e p" for p using r by (simp add: pc_ok_def)
  note h = locked_call [OF l, of c, unfolded r ok] t
  have e: "e < length (m_events s)" using h(1) by simp
  show ?thesis
  proof (cases "m_pc s c = P_reset e")
    case True
    then show ?thesis using t live_same [OF l g m, of d] by auto
  next
    case False
    note v = live_change [OF l g m e, of d]
    show ?thesis using h False v
      by (cases "m_pc s c"; cases "RegisteredWaits (event e s)")
        (auto simp: e lock_event_def unlock_event_def use_waiter_def lock_waiter_def set_done_def Let_def paid_store paid_notify
          unserved_def drop_wait_def front_def split: if_splits option.splits)
  qed
qed

lemma helper_waits:
  "e < length (m_events s) \<Longrightarrow> k < length (RegisteredWaits (event e s)) \<Longrightarrow>
     entries d (RegisteredWaits (event e (snd (RemoveExpiredWaitHelper e k s)))) \<le> entries d (RegisteredWaits (event e s))"
  using entries_drop [of k "RegisteredWaits (event e s)" d]
  by (auto simp: RemoveExpiredWaitHelper_def drop_wait_def Let_def split: option.split)

lemma paid_destroy:
  assumes l: "locked req s" and g: "guarded req c s t" and m: "multi_step req c timeout s = Some t"
    and r: "at_work (req c) = destroy_pc e" "names (req c) = {e}" and t: "destroy_step e c s = Some t"
  shows "paid d (live d s - live d t) s t"
proof -
  have ok: "pc_ok (req c) p \<longleftrightarrow> over_pc p \<or> destroy_pc e p" for p using r by (simp add: pc_ok_def)
  note h = locked_call [OF l, of c, unfolded r ok] t
  have e: "e < length (m_events s)" using h(1) by simp
  show ?thesis using h live_change [OF l g m e, of d] helper_waits [OF e]
    by (cases "m_pc s c") (auto simp: e lock_event_def unlock_event_def case_prod_beta unserved_def split: if_splits)
qed

text \<open>The events that a wait looks at.\<close>

fun place :: "multi_pc \<Rightarrow> nat" where
  "place (Wm_lock i k) = i"
| "place (Wm_clean i k j) = i"
| "place (Wm_try i k) = i"
| "place _ = 0"

lemma paid_wait:
  assumes l: "locked req s" and g: "guarded req c s t" and m: "multi_step req c timeout s = Some t"
    and r: "req c = Multi_wait events waitAll ms" and x: "m_pc s c \<noteq> M_idle" and w: "enough req s"
  shows "paid d (live d s - live d t + (if d = c then left (length events) (m_pc s c) - left (length events) (m_pc t c) else 0)) s t"
proof -
  have t: "wait_step events waitAll ms timeout c s = Some t" using m r by simp
  have ok: "pc_ok (req c) p \<longleftrightarrow> over_pc p \<or> wait_pc (length events) p" for p using r by (simp add: pc_ok_def)
  have ev: "events_of (req c) = events" using r by simp
  note h = locked_call [OF l, of c, unfolded ok]
  have nth: "i < length events \<Longrightarrow> events ! i < length (m_events s)" for i
    using h(1) by (simp add: r nth_below)
  have kind: "waiters s c = Some w \<Longrightarrow> WaitAll w = waitAll" for w using w r by (simp add: enough_def)
  show ?thesis
  proof (cases "section_of (req c) (m_pc s c) = None \<and> section_of (req c) (m_pc t c) = None")
    case True
    note u = live_same [OF l g m conjunct1 [OF True] conjunct2 [OF True]]
    show ?thesis using h(2) t x True unfolding u 
      by (cases "m_pc s c") (auto simp: lock_event_def use_waiter_def acquired_def try_event_def Let_def case_prod_beta paid_store kind
        split: if_splits option.splits)
  next
    case False
    have e: "place (m_pc s c) < length events" "events ! place (m_pc s c) < length (m_events s)"
       using False h(2) t x nth by (cases "m_pc s c"; auto simp: use_waiter_def acquired_def Let_def split: if_splits option.splits)+
    note v = live_change [OF l g m e(2), of d]
    show ?thesis using h(2-) t x False e v helper_waits [OF e(2)]
      by (cases "m_pc s c") (auto simp: ev unserved_def lock_event_def unlock_event_def use_waiter_def acquired_def try_event_def Let_def case_prod_beta paid_store kind
        split: if_splits option.splits)
  qed
qed

section \<open>The invariant\<close>

definition sound :: "(nat \<Rightarrow> request) \<Rightarrow> multi \<Rightarrow> bool" where
  "sound req s \<longleftrightarrow> locked req s \<and> counted req s \<and> fresh s \<and> enough req s \<and> m_faults s = []"

lemma step_left:
  "multi_step req c timeout s = Some t \<Longrightarrow> d \<noteq> c \<Longrightarrow> left n (m_pc t d) = left n (m_pc s d)"
  using step_frame(1) [of req c timeout s t d] by auto

lemma left_zero: "pc_ok r p \<Longrightarrow> \<not> waits r \<Longrightarrow> left n p = 0"
  by (cases r; cases p) (simp_all add: pc_ok_def)

lemma start_enough:
  assumes "locked req s" "guarded req c s t" "counted req s" "fresh s" "enough req s"
    and m: "multi_step req c timeout s = Some t" and r: "req c = Multi_wait events waitAll ms" and i: "m_pc s c = M_idle"
  shows "enough req t"
proof -
  have t: "t = go c (Wm_next 0 0) (set_waiter c (new_wait c (length events) waitAll) s)" using m r i by simp
  have v: "live d t = live d s" for d by (rule live_same [OF assms(1,2) m]) (simp_all add: i t)
  have "refs c s = 0" using assms(4) i by (simp add: fresh_def refs_def)
  then have "regs c s = 0" using assms(3) i by (simp add: counted_def held_def)
  then have "live c t = 0" using v live_le_regs [of c s] live_nonneg [of c s] by simp
  then show ?thesis using assms(5) v r unfolding enough_def t by (auto simp: new_wait_def)
qed

lemma step_enough:
  assumes "locked req s" "guarded req c s t" "counted req s" "fresh s" "enough req s"
    and m: "multi_step req c timeout s = Some t"
  shows "enough req t"
proof (cases "waits (req c)")
  case True
  then obtain events waitAll ms where r: "req c = Multi_wait events waitAll ms" by (cases "req c") auto
  show ?thesis
  proof (cases "m_pc s c = M_idle")
    case True
    then show ?thesis by (rule start_enough [OF assms r])
  next
    case False
    show ?thesis
    proof (rule enough_paid [OF assms(5)])
      fix d
      have "live d s + left (length (events_of (req d))) (m_pc s d) - (live d t + left (length (events_of (req d))) (m_pc t d)) =
        live d s - live d t + (if d = c then left (length events) (m_pc s c) - left (length events) (m_pc t c) else 0)"
        using step_left [OF m, of d] r by simp
      then show "paid d (live d s + left (length (events_of (req d))) (m_pc s d) - (live d t + left (length (events_of (req d))) (m_pc t d))) s t"
        using paid_wait [OF assms(1,2) m r False assms(5), of d] by (simp only:)
    qed
  qed
next
  case False
  have e: "paid d (live d s - live d t) s t" for d
  proof (cases "req c")
    case (Multi_wait events waitAll ms)
    then show ?thesis using False by simp
  next
    case (Set_event e)
    then have "set_step e False c s = Some t" using m by simp
    with Set_event show ?thesis by (intro paid_set [OF assms(1,2) m]) (simp_all add: at_work_eqs)
  next
    case (Pulse_event e)
    then have "set_step e True c s = Some t" using m by simp
    with Pulse_event show ?thesis by (intro paid_set [OF assms(1,2) m]) (simp_all add: at_work_eqs)
  next
    case (Destroy_event e)
    then have "destroy_step e c s = Some t" using m by simp
    with Destroy_event show ?thesis by (intro paid_destroy [OF assms(1,2) m]) (simp_all add: at_work_eqs)
  next
    case (Reset_event e)
    then show ?thesis using m live_same [OF assms(1,2) m, of d] by (auto split: if_splits)
  next
    case (Try_event e)
    then show ?thesis using m live_same [OF assms(1,2) m, of d] by (auto split: if_splits)
  qed
  have c: "left n (m_pc s d) = left n (m_pc t d)" for n d
    using left_zero [OF _ False] locked_call(2) [OF assms(1), of c] assms(2) step_left [OF m, of d]
    by (cases "d = c") (auto simp: guarded_def)
  show ?thesis by (rule enough_paid [OF assms(5)]) (simp add: e c)
qed

section \<open>No fault\<close>

lemma live_front:
  assumes "e < length (m_events s)" "\<not> served e s" "RegisteredWaits (event e s) \<noteq> []"
  shows "0 < live (Waiter (front e s)) s"
proof -
  let ?c = "Waiter (front e s)" let ?f = "\<lambda>e. entries ?c (unserved (served e s) (RegisteredWaits (event e s)))"
  have "0 < ?f e" using assms(2,3)
    by (cases "RegisteredWaits (event e s)") (simp_all add: unserved_def front_def add_pos_nonneg)
  also have "\<dots> \<le> live ?c s" unfolding live_def by (rule member_le_sum) (use assms(1) in simp_all)
  finally show ?thesis .
qed

lemma notify_faults:
  assumes "WaitAll w \<longrightarrow> 0 < Status w"
  shows "m_faults (notify i w s) = m_faults s"
  using assms by (simp add: notify_def Let_def)

lemma set_faults:
  assumes l: "locked req s" and k: "counted req s" and n: "enough req s"
    and r: "at_work (req c) = set_pc e" "names (req c) = {e}" and t: "set_step e pulse c s = Some t"
  shows "m_faults t = m_faults s"
proof -
  have ok: "pc_ok (req c) p \<longleftrightarrow> over_pc p \<or> set_pc e p" for p using r by (simp add: pc_ok_def)
  note h = locked_call [OF l, of c, unfolded r ok]
  have e: "e < length (m_events s)" using h(1) by simp
  show ?thesis
  proof (cases "RegisteredWaits (event e s) = []")
    case True
    then show ?thesis using h(2-) t
      by (cases "m_pc s c") (auto simp: lock_event_def unlock_event_def set_done_def split: if_splits)
  next
    case False
    obtain w where w: "waiters s (Waiter (front e s)) = Some w" "0 < RefCount w" by (rule front_waiter [OF k l e False])
    have "0 < Status w" if "WaitAll w" "section_of (req c) (m_pc s c) = Some e" "\<not> served_pc (m_pc s c)"
    proof -
      have "\<not> served e s" using served_own [OF l e, of c] h(3) [OF that(2)] that by simp
      then have "0 < live (Waiter (front e s)) s" by (rule live_front [OF e _ False])
      moreover have "0 \<le> left (length (events_of (req (Waiter (front e s))))) (m_pc s (Waiter (front e s)))"
        using locked_call(2) [OF l, of "Waiter (front e s)"]
        by (cases "req (Waiter (front e s))"; cases "m_pc s (Waiter (front e s))") (simp_all add: pc_ok_def)
      moreover have "live (Waiter (front e s)) s + left (length (events_of (req (Waiter (front e s))))) (m_pc s (Waiter (front e s))) \<le> Status w"
        using n w(1) that(1) by (simp add: enough_def)
      ultimately show ?thesis by linarith
    qed
    then show ?thesis using h(2-) t w drop_front(3) [OF k l e False]
      by (cases "m_pc s c") (auto simp: lock_event_def unlock_event_def set_done_def use_waiter_def lock_waiter_def Let_def notify_faults
        split: if_splits)
  qed
qed

lemma destroy_faults:
  assumes "locked req s" "counted req s" "req c = Destroy_event e" "destroy_step e c s = Some t"
  shows "m_faults t = m_faults s"
  using locked_call [OF assms(1), of c] assms(3,4) helper_exact(3) [OF assms(2,1), of e]
  by (cases "m_pc s c") (auto simp: pc_ok_def lock_event_def unlock_event_def case_prod_beta split: if_splits)

lemma wait_faults:
  assumes l: "locked req s" and k: "counted req s" and n: "enough req s"
    and r: "req c = Multi_wait events waitAll ms" and t: "wait_step events waitAll ms timeout c s = Some t"
  shows "m_faults t = m_faults s"
proof -
  have ok: "pc_ok (req c) p \<longleftrightarrow> over_pc p \<or> wait_pc (length events) p" for p using r by (simp add: pc_ok_def)
  note h = locked_call [OF l, of c, unfolded ok]
  have nth: "i < length events \<Longrightarrow> events ! i < length (m_events s)" for i
    using h(1) by (simp add: r nth_below)
  consider (over) "over_pc (m_pc s c)"
    | (work) w where "waiters s c = Some w" "own (m_pc s c) \<le> RefCount w" "wait_pc (length events) (m_pc s c)"
    using counted_waiter [OF k l, of c] wait_pc_own h(2) by metis
  then show ?thesis
  proof cases
    case over
    then show ?thesis using t by (cases "m_pc s c") auto
  next
    case work
    have "left (length events) (m_pc s c) \<le> Status w" if "waitAll"
      using n work(1) r that live_nonneg [of c s] unfolding enough_def by (smt (verit) all_of.simps(1) events_of.simps(1))
    then show ?thesis using work t nth helper_exact(3) [OF k l] unref_exact(3) [OF work(1)]
      by (cases "m_pc s c") (auto simp: lock_event_def unlock_event_def use_waiter_def acquired_def try_event_def Let_def case_prod_beta
        split: if_splits)
  qed
qed

lemma step_sound:
  assumes "sound req s" "multi_step req c timeout s = Some t"
  shows "sound req t"
proof -
  have s: "locked req s" "counted req s" "fresh s" "enough req s" "m_faults s = []" using assms(1) by (simp_all add: sound_def)
  have "own (m_pc s c) > 0 \<Longrightarrow> waiters s c \<noteq> None" using counted_waiter [OF s(2,1), of c] by blast
  then have g: "guarded req c s t" by (rule step_guarded [OF s(1) assms(2)])
  have "m_faults t = m_faults s"
  proof (cases "req c")
    case (Multi_wait events waitAll ms)
    then have "wait_step events waitAll ms timeout c s = Some t" using assms(2) by simp
    then show ?thesis by (rule wait_faults [OF s(1,2,4) Multi_wait])
  next
    case (Set_event e)
    then have "set_step e False c s = Some t" using assms(2) by simp
    with Set_event show ?thesis by (intro set_faults [OF s(1,2,4)]) (simp_all add: at_work_eqs)
  next
    case (Pulse_event e)
    then have "set_step e True c s = Some t" using assms(2) by simp
    with Pulse_event show ?thesis by (intro set_faults [OF s(1,2,4)]) (simp_all add: at_work_eqs)
  next
    case (Destroy_event e)
    then have "destroy_step e c s = Some t" using assms(2) by simp
    then show ?thesis by (rule destroy_faults [OF s(1,2) Destroy_event])
  qed (use assms(2) in \<open>auto split: if_splits\<close>)
  then show ?thesis
    using s(5) guarded_locked [OF s(1) g] step_counted [OF s(1-3) assms(2)] step_fresh [OF s(3) assms(2)]
      step_enough [OF s(1) g s(2-4) assms(2)] by (simp add: sound_def)
qed

lemma start_sound:
  assumes "list_all (\<lambda>x. me_Mutex x = None \<and> RegisteredWaits x = []) es" "\<forall>c. names (req c) \<subseteq> {..<length es}"
  shows "sound req (multi_start es)"
proof -
  have "regs c (multi_start es) = 0" for c
    unfolding regs_def by (rule sum.neutral) (use assms(1) in \<open>simp add: multi_start_def list_all_length\<close>)
  then show ?thesis using locked_start [OF assms]
    by (simp add: sound_def counted_def fresh_def enough_def refs_def held_def) (simp add: multi_start_def)
qed

lemma reachable_sound: "multi_reachable req s \<Longrightarrow> sound req s"
  by (induction rule: multi_reachable.induct) (blast intro: start_sound step_sound)+

end
