(* ===== verification/Multi_Safety.thy ===== *)
theory Multi_Safety
  imports Multi_Left
begin

text \<open>
  Mutual exclusion on the waiters, what a wait for several events returns, and the safety of such
  waits; two runs that show what they do not guarantee.
\<close>

section \<open>Mutual exclusion on the waiters\<close>

text \<open>The waiter whose mutex a call holds: its own while it runs, or the first of the event it sets.\<close>

fun inside :: "multi_pc \<Rightarrow> bool" where
  "inside (Wm_next i k) = True"
| "inside (Wm_reload i k) = True"
| "inside (Wm_lock i k) = True"
| "inside (Wm_clean i k j) = True"
| "inside (Wm_try i k) = True"
| "inside (Wm_check k) = True"
| "inside (Wm_test k) = True"
| "inside (Wm_end r k) = True"
| "inside _ = False"

fun tells :: "multi_pc \<Rightarrow> nat option" where
  "tells (Sa_notify e) = Some e"
| "tells (Sm_notify e) = Some e"
| "tells _ = None"

definition waiter_of :: "nat \<Rightarrow> multi \<Rightarrow> nat option" where
  "waiter_of c s = (if inside (m_pc s c) then Some c else map_option (\<lambda>e. Waiter (front e s)) (tells (m_pc s c)))"

definition holds :: "nat \<Rightarrow> nat \<Rightarrow> multi \<Rightarrow> bool" where
  "holds c d s \<longleftrightarrow> (\<exists>w. waiters s d = Some w \<and> wf_Mutex w = Some c)"

definition owned :: "multi \<Rightarrow> bool" where
  "owned s \<longleftrightarrow> (\<forall>c d. waiter_of c s = Some d \<longrightarrow> holds c d s)"

lemma holds_simps [simp]:
  "holds c d (go a p s) = holds c d s" "holds c d (upd_event e f s) = holds c d s" "holds c d (cond_signal a s) = holds c d s"
  "holds c d (multi_fault x s) = holds c d s" "holds c d (drop_wait e k s) = holds c d s"
  "holds c d (set_waiter a w s) = (if d = a then wf_Mutex w = Some c else holds c d s)"
  by (simp_all add: holds_def)

lemma holds_some: "waiters s d = Some w \<Longrightarrow> holds c d s \<longleftrightarrow> wf_Mutex w = Some c"
  by (simp add: holds_def)

lemma holds_unref: "holds c d s \<Longrightarrow> waiters (unref a n s) d = Some w \<Longrightarrow> holds c d (unref a n s)"
  by (auto simp: holds_def unref_def use_waiter_def Let_def split: option.splits if_splits)

lemma holds_notify: "holds c d (notify i w s) = (if d = Waiter i then False else holds c d s)"
  by (simp add: notify_def Let_def)

lemma holds_helper:
  "holds c d s \<Longrightarrow> waiters (snd (RemoveExpiredWaitHelper e k s)) d = Some w \<Longrightarrow> holds c d (snd (RemoveExpiredWaitHelper e k s))"
  by (auto simp: RemoveExpiredWaitHelper_def Let_def holds_unref split: option.splits if_splits)

lemma holds_unique: "holds a d s \<Longrightarrow> holds c d s \<Longrightarrow> a = c"
  by (auto simp: holds_def)

text \<open>A mutex that another call holds stays held.\<close>

lemma set_keeps:
  assumes "owned s" "pc_ok (req c) (m_pc s c)" "at_work (req c) = set_pc e" "set_step e pulse c s = Some t"
    "a \<noteq> c" "holds a d s" "waiters t d \<noteq> None"
  shows "holds a d t"
proof -
  have ok: "over_pc (m_pc s c) \<or> set_pc e (m_pc s c)" using assms(2,3) by (simp add: pc_ok_def)
  have own: "waiter_of c s = Some d \<Longrightarrow> False"
    using assms(1,5,6) holds_unique by (auto simp: owned_def)
  have m: "wf_Mutex w = Some a" if "waiters s d = Some w" for w using assms(6) that by (simp add: holds_some)
  show ?thesis using ok own assms(4-7) m
    by (cases "m_pc s c") (auto simp: waiter_of_def lock_event_def unlock_event_def set_done_def use_waiter_def lock_waiter_def Let_def
      holds_unref holds_notify split: if_splits option.splits)
qed

lemma wait_keeps:
  assumes "owned s" "fresh s" "pc_ok (req c) (m_pc s c)" "req c = Multi_wait events waitAll ms" "wait_step events waitAll ms timeout c s = Some t"
    "a \<noteq> c" "holds a d s" "waiters t d \<noteq> None"
  shows "holds a d t"
proof -
  have ok: "over_pc (m_pc s c) \<or> wait_pc (length events) (m_pc s c)" using assms(3,4) by (simp add: pc_ok_def)
  have own: "waiter_of c s = Some d \<Longrightarrow> False"
    using assms(1,6,7) holds_unique by (auto simp: owned_def)
  have m: "wf_Mutex w = Some a" if "waiters s d = Some w" for w using assms(7) that by (simp add: holds_some)
  have "m_pc s c = M_idle \<Longrightarrow> d \<noteq> c" using assms(2,7) by (auto simp: fresh_def holds_def)
  then show ?thesis using ok own assms(5-8) m
    by (cases "m_pc s c") (auto simp: waiter_of_def lock_event_def unlock_event_def use_waiter_def acquired_def try_event_def Let_def
      case_prod_beta holds_unref holds_helper split: if_splits option.splits)
qed

lemma destroy_keeps:
  assumes "destroy_step e c s = Some t" "holds a d s" "waiters t d \<noteq> None"
  shows "holds a d t"
  using assms by (cases "m_pc s c") (auto simp: lock_event_def unlock_event_def case_prod_beta holds_helper split: if_splits)

lemma step_keeps:
  assumes "owned s" "fresh s" "locked req s" "multi_step req c timeout s = Some t" "a \<noteq> c" "holds a d s" "waiters t d \<noteq> None"
  shows "holds a d t"
proof -
  have ok: "pc_ok (req c) (m_pc s c)" by (rule locked_call(2) [OF assms(3)])
  show ?thesis
  proof (cases "req c")
    case (Multi_wait events waitAll ms)
    then have "wait_step events waitAll ms timeout c s = Some t" using assms(4) by simp
    then show ?thesis using wait_keeps [where req = req and a = a and d = d] assms ok Multi_wait by blast
  next
    case (Set_event e)
    then have "set_step e False c s = Some t" "at_work (req c) = set_pc e" using assms(4) by (simp_all add: at_work_eqs)
    then show ?thesis using set_keeps [where req = req and a = a and d = d] assms ok by blast
  next
    case (Pulse_event e)
    then have "set_step e True c s = Some t" "at_work (req c) = set_pc e" using assms(4) by (simp_all add: at_work_eqs)
    then show ?thesis using set_keeps [where req = req and a = a and d = d] assms ok by blast
  next
    case (Destroy_event e)
    then have "destroy_step e c s = Some t" using assms(4) by simp
    then show ?thesis by (rule destroy_keeps [OF _ assms(6,7)])
  qed (use assms(4,6) in \<open>auto split: if_splits\<close>)
qed

lemma set_takes:
  assumes "owned s" "pc_ok (req c) (m_pc s c)" "at_work (req c) = set_pc e" "set_step e pulse c s = Some t" "waiter_of c t = Some d"
  shows "holds c d t"
proof -
  have ok: "over_pc (m_pc s c) \<or> set_pc e (m_pc s c)" using assms(2,3) by (simp add: pc_ok_def)
  have f: "front e (go c p (set_waiter a w s)) = front e s" for p a w by (simp add: front_def)
  have "waiter_of c s = Some x \<Longrightarrow> waiters s x \<noteq> None" for x using assms(1) by (auto simp: owned_def holds_def)
  then show ?thesis using ok assms(4,5)
    by (cases "m_pc s c") (auto simp: f waiter_of_def lock_event_def unlock_event_def set_done_def use_waiter_def lock_waiter_def Let_def
      split: if_splits option.splits)
qed

lemma wait_takes:
  assumes "owned s" "pc_ok (req c) (m_pc s c)" "req c = Multi_wait events waitAll ms" "wait_step events waitAll ms timeout c s = Some t"
    "waiter_of c t = Some d" "waiters t c \<noteq> None"
  shows "holds c d t"
proof -
  have ok: "over_pc (m_pc s c) \<or> wait_pc (length events) (m_pc s c)" using assms(2,3) by (simp add: pc_ok_def)
  have i: "inside (m_pc s c) \<Longrightarrow> holds c c s" using assms(1) by (simp add: owned_def waiter_of_def)
  then have m: "inside (m_pc s c) \<Longrightarrow> waiters s c = Some w \<Longrightarrow> wf_Mutex w = Some c" for w by (simp add: holds_some)
  show ?thesis using ok assms(4-6) i m
    by (cases "m_pc s c") (auto simp: waiter_of_def new_wait_def lock_event_def unlock_event_def use_waiter_def acquired_def try_event_def Let_def
      case_prod_beta holds_helper split: if_splits option.splits)
qed

lemma step_takes:
  assumes "owned s" "locked req s" "multi_step req c timeout s = Some t" "waiter_of c t = Some d"
    "inside (m_pc t c) \<Longrightarrow> waiters t c \<noteq> None"
  shows "holds c d t"
proof -
  have ok: "pc_ok (req c) (m_pc s c)" by (rule locked_call(2) [OF assms(2)])
  show ?thesis
  proof (cases "req c")
    case (Multi_wait events waitAll ms)
    then have w: "wait_step events waitAll ms timeout c s = Some t" using assms(3) by simp
    have "inside (m_pc t c)" using w ok Multi_wait assms(4)
      by (cases "m_pc s c") (auto simp: pc_ok_def waiter_of_def use_waiter_def acquired_def try_event_def lock_event_def unlock_event_def Let_def case_prod_beta
        split: if_splits option.splits)
    then show ?thesis using wait_takes [where req = req and c = c and d = d] assms ok Multi_wait w by blast
  next
    case (Set_event e)
    then have "set_step e False c s = Some t" "at_work (req c) = set_pc e" using assms(3) by (simp_all add: at_work_eqs)
    then show ?thesis using set_takes [where req = req and c = c and d = d] assms ok by blast
  next
    case (Pulse_event e)
    then have "set_step e True c s = Some t" "at_work (req c) = set_pc e" using assms(3) by (simp_all add: at_work_eqs)
    then show ?thesis using set_takes [where req = req and c = c and d = d] assms ok by blast
  next
    case (Destroy_event e)
    then show ?thesis using assms(3,4)
      by (cases "m_pc s c") (auto simp: waiter_of_def lock_event_def case_prod_beta split: if_splits)
  qed (use assms(3,4) in \<open>auto simp: waiter_of_def split: if_splits\<close>)
qed

lemma inside_own: "inside p \<Longrightarrow> 0 < own p"
  by (cases p) simp_all

lemma tells_front: "tells p = Some e \<Longrightarrow> section_of r p = Some e \<and> at_front p"
  by (cases p) simp_all

lemma held_waiter:
  assumes "sound req s" "waiter_of c s = Some d"
  shows "waiters s d \<noteq> None"
proof (cases "inside (m_pc s c)")
  case True
  then show ?thesis using assms counted_waiter [of req s c] by (auto simp: sound_def waiter_of_def inside_own)
next
  case False
  then obtain e where e: "tells (m_pc s c) = Some e" "d = Waiter (front e s)" using assms(2) by (auto simp: waiter_of_def)
  have l: "locked req s" "counted req s" using assms(1) by (simp_all add: sound_def)
  have "e < length (m_events s)" "RegisteredWaits (event e s) \<noteq> []"
    using tells_front [OF e(1), of "req c"] locked_call(4,5) [OF l(1), of c e] by simp_all
  then show ?thesis using front_waiter [OF l(2,1)] e(2) by blast
qed

lemma step_owned:
  assumes "sound req s" "sound req t" "owned s" "multi_step req c timeout s = Some t"
  shows "owned t"
  unfolding owned_def
proof (intro allI impI)
  fix a d assume d: "waiter_of a t = Some d"
  have s: "locked req s" "counted req s" "fresh s" "locked req t" using assms(1,2) by (simp_all add: sound_def)
  have alive: "waiters t d \<noteq> None" by (rule held_waiter [OF assms(2) d])
  show "holds a d t"
  proof (cases "a = c")
    case True
    then show ?thesis using step_takes [OF assms(3) s(1) assms(4), of d] d alive by (auto simp: waiter_of_def split: if_splits)
  next
    case False
    have p: "m_pc t a = m_pc s a" using step_frame(1) [OF assms(4) False] d by (auto simp: waiter_of_def)
    have "front e t = front e s" if "tells (m_pc s a) = Some e" for e
    proof -
      have "section_of (req a) (m_pc s a) = Some e" "section_of (req a) (m_pc t a) = Some e"
        using tells_front [OF that] p by simp_all
      then have "section_of (req c) (m_pc s c) \<noteq> Some e" "section_of (req c) (m_pc t c) \<noteq> Some e" "e < length (m_events s)"
        using locked_call(3) [OF s(1), of a e] locked_call(3) [OF s(1), of c e] locked_call(3) [OF s(4), of a e] locked_call(3) [OF s(4), of c e]
          locked_call(5) [OF s(1), of a e] False by auto
      moreover have "guarded req c s t" using step_guarded [OF s(1) assms(4)] counted_waiter [OF s(2,1), of c] by blast
      ultimately show ?thesis by (simp add: guarded_def front_def)
    qed
    then have "waiter_of a s = Some d" using d p by (auto simp: waiter_of_def split: if_splits)
    then have "holds a d s" using assms(3) by (simp add: owned_def)
    then show ?thesis by (rule step_keeps [OF assms(3) s(3,1) assms(4) False _ alive])
  qed
qed

lemma reachable_owned: "multi_reachable req s \<Longrightarrow> owned s"
proof (induction rule: multi_reachable.induct)
  case (multi_begin es)
  then show ?case by (simp add: owned_def waiter_of_def multi_start_def)
next
  case (multi_next s c timeout t)
  then show ?case using step_owned reachable_sound step_sound by blast
qed

section \<open>What a wait returns\<close>

text \<open>The value of \<open>waitIndex\<close> with which a wait may end, and the states of a wait on the way there.\<close>

definition good_index :: "request \<Rightarrow> int \<Rightarrow> bool" where
  "good_index r i \<longleftrightarrow> (if all_of r then i = 0 else 0 \<le> i \<and> i < int (length (events_of r)))"

fun ended :: "multi_pc \<Rightarrow> neosmart_wfmo option \<Rightarrow> int option" where
  "ended (Wm_end r k) w = (if r = 0 then map_option Status w else None)"
| "ended (Wm_unref r i k) w = (if r = 0 then Some i else None)"
| "ended (M_returned r i) w = (if r = 0 then Some i else None)"
| "ended _ w = None"

text \<open>A registration carries the place of its event in the wait's list.\<close>

definition placed :: "(nat \<Rightarrow> request) \<Rightarrow> nat \<Rightarrow> wfmo_info \<Rightarrow> bool" where
  "placed req e i \<longleftrightarrow> 0 \<le> WaitIndex i \<and> WaitIndex i < int (length (events_of (req (Waiter i)))) \<and>
     events_of (req (Waiter i)) ! nat (WaitIndex i) = e"

definition indexed :: "(nat \<Rightarrow> request) \<Rightarrow> multi \<Rightarrow> bool" where
  "indexed req s \<longleftrightarrow> (\<forall>e<length (m_events s). \<forall>i\<in>set (RegisteredWaits (event e s)). placed req e i) \<and>
     (\<forall>c w. waiters s c = Some w \<longrightarrow> \<not> WaitAll w \<longrightarrow> Status w = - 1 \<or> good_index (req c) (Status w)) \<and>
     (\<forall>c i. waits (req c) \<longrightarrow> ended (m_pc s c) (waiters s c) = Some i \<longrightarrow> good_index (req c) i)"

text \<open>How a step of \<open>c\<close> may change the state of a waiter that is not its own.\<close>

definition told :: "nat \<Rightarrow> nat \<Rightarrow> multi \<Rightarrow> multi \<Rightarrow> bool" where
  "told c d s t \<longleftrightarrow> (\<forall>w'. waiters t d = Some w' \<longrightarrow> (\<exists>w. waiters s d = Some w \<and> WaitAll w' = WaitAll w \<and>
     (Status w' = Status w \<or> waiter_of c s = Some d \<and> (\<not> WaitAll w \<longrightarrow>
        (\<exists>e. tells (m_pc s c) = Some e \<and> d = Waiter (front e s) \<and> Status w' = WaitIndex (front e s))))))"

lemma told_same [simp]: "told c d s s"
  by (simp add: told_def)

lemma told_simps [simp]:
  "told c d s (go a p t) = told c d s t" "told c d s (upd_event e f t) = told c d s t" "told c d s (drop_wait e k t) = told c d s t"
  "told c d s (cond_signal a t) = told c d s t" "told c d s (multi_fault x t) = told c d s t"
  by (simp_all add: told_def)

lemma told_unref [simp]: "told c d s (unref a n s)"
  by (auto simp: told_def unref_def use_waiter_def Let_def set_waiter_def split: option.splits)

lemma told_helper [simp]: "told c d s (snd (RemoveExpiredWaitHelper e k s))"
  by (simp add: RemoveExpiredWaitHelper_def Let_def split: option.split)

lemma told_other [simp]: "d \<noteq> a \<Longrightarrow> told c d s (set_waiter a w t) = told c d s t"
  by (simp add: told_def)

lemma told_store:
  "waiters t = waiters s \<Longrightarrow> waiters s a = Some w \<Longrightarrow> d \<noteq> a \<or> Status w' = Status w \<and> WaitAll w' = WaitAll w \<Longrightarrow>
     told c d s (set_waiter a w' t)"
  by (auto simp: told_def)

lemma told_notify:
  assumes "tells (m_pc s c) = Some e" "waiters s (Waiter (front e s)) = Some w"
  shows "told c d s (notify (front e s) w s)"
proof -
  have "\<not> inside (m_pc s c)" using assms(1) by (cases "m_pc s c") simp_all
  then show ?thesis using assms by (auto simp: told_def notify_def Let_def waiter_of_def)
qed

lemma step_told:
  assumes "multi_step req c timeout s = Some t" "pc_ok (req c) (m_pc s c)" "d \<noteq> c \<or> \<not> waits (req c)"
  shows "told c d s t"
proof -
  have set: "told c d s t" if "set_step e pulse c s = Some t" "over_pc (m_pc s c) \<or> set_pc e (m_pc s c)" for e pulse
    using that told_notify [of s c e]
    by (cases "m_pc s c") (auto simp: lock_event_def unlock_event_def set_done_def use_waiter_def lock_waiter_def Let_def told_store
      split: if_splits option.splits)
  show ?thesis
  proof (cases "req c")
    case (Multi_wait events waitAll ms)
    then have "d \<noteq> c" "wait_step events waitAll ms timeout c s = Some t" using assms by simp_all
    then show ?thesis
      by (cases "m_pc s c") (auto simp: lock_event_def unlock_event_def use_waiter_def acquired_def try_event_def Let_def case_prod_beta told_store
        split: if_splits option.splits)
  next
    case (Set_event e)
    then have "set_step e False c s = Some t" "over_pc (m_pc s c) \<or> set_pc e (m_pc s c)" using assms(1,2) by (simp_all add: pc_ok_def)
    then show ?thesis by (rule set)
  next
    case (Pulse_event e)
    then have "set_step e True c s = Some t" "over_pc (m_pc s c) \<or> set_pc e (m_pc s c)" using assms(1,2) by (simp_all add: pc_ok_def)
    then show ?thesis by (rule set)
  next
    case (Destroy_event e)
    then show ?thesis using assms(1)
      by (cases "m_pc s c") (auto simp: lock_event_def unlock_event_def case_prod_beta split: if_splits)
  qed (use assms(1) in \<open>auto split: if_splits\<close>)
qed

lemma set_waits:
  assumes "set_step e pulse c s = Some t" "e < length (m_events s)" "over_pc (m_pc s c) \<or> set_pc e (m_pc s c)"
  shows "set (RegisteredWaits (event d t)) \<subseteq> set (RegisteredWaits (event d s))"
  using assms
  by (cases "m_pc s c") (auto simp: lock_event_def unlock_event_def set_done_def use_waiter_def lock_waiter_def drop_wait_def Let_def
    dest: in_set_dropD split: if_splits option.splits)

lemma helper_subset:
  "e < length (m_events s) \<Longrightarrow> i \<in> set (RegisteredWaits (event d (snd (RemoveExpiredWaitHelper e k s)))) \<Longrightarrow>
     i \<in> set (RegisteredWaits (event d s))"
  by (auto simp: RemoveExpiredWaitHelper_def drop_wait_def Let_def dest: in_set_takeD in_set_dropD split: option.splits if_splits)

text \<open>A step registers nothing but the calling wait, at the place it is looking at.\<close>

lemma step_places:
  assumes l: "locked req s" and m: "multi_step req c timeout s = Some t"
    and i: "i \<in> set (RegisteredWaits (event e t))" "e < length (m_events s)"
  shows "i \<in> set (RegisteredWaits (event e s)) \<or> placed req e i"
proof (cases "req c")
  case (Multi_wait events waitAll ms)
  have ok: "over_pc (m_pc s c) \<or> wait_pc (length events) (m_pc s c)"
    using locked_call(2) [OF l, of c] Multi_wait by (simp add: pc_ok_def)
  have nth: "i < length events \<Longrightarrow> events ! i < length (m_events s)" for i
    using locked_call(1) [OF l, of c] by (simp add: Multi_wait nth_below)
  show ?thesis using ok nth m i Multi_wait
    by (cases "m_pc s c") (auto simp: placed_def lock_event_def unlock_event_def use_waiter_def acquired_def try_event_def Let_def case_prod_beta
      dest: helper_subset [OF nth] split: if_splits option.splits)
next
  case (Set_event d)
  then have "set_step d False c s = Some t" "d < length (m_events s)" "over_pc (m_pc s c) \<or> set_pc d (m_pc s c)"
    using m locked_call(1,2) [OF l, of c] by (simp_all add: pc_ok_def)
  then show ?thesis using set_waits [of d False c s t e] i by blast
next
  case (Pulse_event d)
  then have "set_step d True c s = Some t" "d < length (m_events s)" "over_pc (m_pc s c) \<or> set_pc d (m_pc s c)"
    using m locked_call(1,2) [OF l, of c] by (simp_all add: pc_ok_def)
  then show ?thesis using set_waits [of d True c s t e] i by blast
next
  case (Destroy_event d)
  then show ?thesis using m i locked_call(1) [OF l, of c]
    by (cases "m_pc s c") (auto simp: lock_event_def unlock_event_def case_prod_beta dest: helper_subset split: if_splits)
qed (use m i locked_call(1) [OF l, of c] in \<open>auto split: if_splits\<close>)

lemma unref_fields:
  "waiters (unref a n s) d = Some w' \<Longrightarrow> \<exists>w. waiters s d = Some w \<and> Status w' = Status w \<and> WaitAll w' = WaitAll w"
  by (auto simp: unref_def use_waiter_def Let_def split: option.splits if_splits)

lemma helper_fields:
  assumes "waiters (snd (RemoveExpiredWaitHelper e k s)) d = Some w'"
  shows "\<exists>w. waiters s d = Some w \<and> Status w' = Status w \<and> WaitAll w' = WaitAll w"
  using assms unref_fields [of "Waiter (RegisteredWaits (event e s) ! k)" 1 s d w']
  by (simp add: RemoveExpiredWaitHelper_def Let_def split: option.splits if_splits)

lemma wait_answers:
  assumes r: "req c = Multi_wait events waitAll ms" and t: "wait_step events waitAll ms timeout c s = Some t"
    and ok: "pc_ok (req c) (m_pc s c)" and k: "\<And>w. waiters s c = Some w \<Longrightarrow> WaitAll w = waitAll" and x: "indexed req s"
    and live: "0 < own (m_pc s c) \<Longrightarrow> \<exists>w. waiters s c = Some w"
  shows "(\<forall>w. waiters t c = Some w \<longrightarrow> \<not> WaitAll w \<longrightarrow> Status w = - 1 \<or> good_index (req c) (Status w)) \<and>
    (\<forall>i. ended (m_pc t c) (waiters t c) = Some i \<longrightarrow> good_index (req c) i)"
proof -
  have ok: "over_pc (m_pc s c) \<or> wait_pc (length events) (m_pc s c)" using ok r by (simp add: pc_ok_def)
  have g: "good_index (req c) i \<longleftrightarrow> (if waitAll then i = 0 else 0 \<le> i \<and> i < int (length events))" for i
    using r by (simp add: good_index_def)
  have "Status w = - 1 \<or> good_index (req c) (Status w)" if "waiters s c = Some w" "\<not> waitAll" for w
    using x k [OF that(1)] that unfolding indexed_def by blast
  then have st: "waiters s c = Some w \<Longrightarrow> \<not> waitAll \<Longrightarrow> Status w = - 1 \<or> 0 \<le> Status w \<and> Status w < int (length events)" for w
    unfolding g by force
  have "waits (req c)" using r by simp
  then have "good_index (req c) i" if "ended (m_pc s c) (waiters s c) = Some i" for i
    using x that unfolding indexed_def by blast
  then have en: "ended (m_pc s c) (waiters s c) = Some i \<Longrightarrow> if waitAll then i = 0 else 0 \<le> i \<and> i < int (length events)" for i
    unfolding g by blast
  show ?thesis
  proof (cases "m_pc s c = M_idle")
    case True
    then show ?thesis unfolding g using t by (auto simp: new_wait_def)
  next
    case False
    then have p: "wait_pc (length events) (m_pc s c)" using ok t by (cases "m_pc s c") simp_all
    then obtain w where w: "waiters s c = Some w" using live wait_pc_own by blast
    have e: "m_pc s c = Wm_end 0 j \<Longrightarrow> if waitAll then Status w = 0 else 0 \<le> Status w \<and> Status w < int (length events)"
      "m_pc s c = Wm_unref 0 i j \<Longrightarrow> if waitAll then i = 0 else 0 \<le> i \<and> i < int (length events)" for i j
      using en [of "Status w"] en [of i] w by simp_all
    show ?thesis unfolding g using p t w e k [OF w] st [OF w]
      by (cases "m_pc s c") (auto simp: WAIT_TIMEOUT_def lock_event_def unlock_event_def use_waiter_def acquired_def try_event_def Let_def case_prod_beta
        dest!: unref_fields helper_fields split: if_splits)
  qed
qed

lemma step_indexed:
  assumes s: "sound req s" "owned s" "indexed req s" and m: "multi_step req c timeout s = Some t"
  shows "indexed req t"
proof -
  have l: "locked req s" and n: "enough req s" using s(1) by (simp_all add: sound_def)
  have ok: "pc_ok (req c) (m_pc s c)" by (rule locked_call(2) [OF l])
  have len: "length (m_events t) = length (m_events s)"
    using step_guarded [OF l m] counted_waiter [of req s c] s(1) unfolding sound_def guarded_def by blast
  have 1: "placed req e i" if "e < length (m_events s)" "i \<in> set (RegisteredWaits (event e t))" for e i
    using step_places [OF l m that(2,1)] s(3) that(1) by (auto simp: indexed_def)
  have kind: "WaitAll w = all_of (req d)" if "waiters s d = Some w" for d w using n that by (simp add: enough_def)
  have own: "(\<forall>w. waiters t c = Some w \<longrightarrow> \<not> WaitAll w \<longrightarrow> Status w = - 1 \<or> good_index (req c) (Status w)) \<and>
    (\<forall>i. ended (m_pc t c) (waiters t c) = Some i \<longrightarrow> good_index (req c) i)" if w: "waits (req c)"
  proof -
    obtain events waitAll ms where r: "req c = Multi_wait events waitAll ms" using w by (cases "req c") auto
    have "wait_step events waitAll ms timeout c s = Some t" using m r by simp
    moreover have "\<exists>w. waiters s c = Some w" if "0 < own (m_pc s c)"
      using counted_waiter [of req s c] s(1) that by (auto simp: sound_def)
    ultimately show ?thesis using kind r by (intro wait_answers [OF r _ ok _ s(3)]) simp_all
  qed
  have 2: "Status w' = - 1 \<or> good_index (req d) (Status w')" if w': "waiters t d = Some w'" "\<not> WaitAll w'" for d w'
  proof (cases "d = c \<and> waits (req c)")
    case True
    then show ?thesis using own w' by blast
  next
    case False
    then have "told c d s t" using step_told [OF m ok] by blast
    then obtain w where w: "waiters s d = Some w" "\<not> WaitAll w"
      "Status w' = Status w \<or> (\<exists>e. tells (m_pc s c) = Some e \<and> d = Waiter (front e s) \<and> Status w' = WaitIndex (front e s))"
      using w' by (auto simp: told_def)
    from w(3) show ?thesis
    proof
      assume "Status w' = Status w"
      then show ?thesis using s(3) w(1,2) by (auto simp: indexed_def)
    next
      assume "\<exists>e. tells (m_pc s c) = Some e \<and> d = Waiter (front e s) \<and> Status w' = WaitIndex (front e s)"
      then obtain e where e: "tells (m_pc s c) = Some e" "d = Waiter (front e s)" "Status w' = WaitIndex (front e s)" by blast
      have "e < length (m_events s)" "RegisteredWaits (event e s) \<noteq> []"
        using tells_front [OF e(1), of "req c"] locked_call(4,5) [OF l, of c e] by simp_all
      then have "placed req e (front e s)" using s(3) by (simp add: indexed_def front_def)
      then show ?thesis using e kind [OF w(1)] w(2) by (simp add: placed_def good_index_def)
    qed
  qed
  have 3: "good_index (req d) i" if d: "waits (req d)" "ended (m_pc t d) (waiters t d) = Some i" for d i
  proof (cases "d = c")
    case True
    then show ?thesis using own d by blast
  next
    case False
    have p: "m_pc t d = m_pc s d" using step_frame(1) [OF m False] d(2) by auto
    have "ended (m_pc s d) (waiters s d) = Some i"
    proof (cases "inside (m_pc s d)")
      case True
      then have "waiter_of c s \<noteq> Some d" using s(2) False holds_unique [of d d s c] by (auto simp: owned_def waiter_of_def)
      moreover have "told c d s t" using step_told [OF m ok] False by blast
      ultimately show ?thesis using d(2) p by (cases "m_pc s d") (auto simp: told_def split: if_splits)
    next
      case False
      then show ?thesis using d(2) p by (cases "m_pc s d") simp_all
    qed
    then show ?thesis using s(3) d(1) by (simp add: indexed_def)
  qed
  show ?thesis unfolding indexed_def len using 1 2 3 by blast
qed

lemma reachable_indexed: "multi_reachable req s \<Longrightarrow> indexed req s"
proof (induction rule: multi_reachable.induct)
  case (multi_begin es)
  then show ?case by (simp add: indexed_def multi_start_def list_all_length)
next
  case (multi_next s c timeout t)
  then show ?case using step_indexed reachable_sound reachable_owned by blast
qed

section \<open>Safety\<close>

text \<open>
  C28: however waits for several events, \<open>SetEvent\<close>, \<open>PulseEvent\<close>, \<open>ResetEvent\<close> and
  \<open>DestroyEvent\<close> interleave, no call uses a deleted waiter and no assertion fails; the reference count
  of every waiter is exactly what the wait still holds and one for each registration, and a waiter
  that nobody refers to is deleted; at most one call holds the mutex of an event or of a waiter. A
  wait that returns success gives the index of one of its events or, if it waits for all of them,
  has none left.
\<close>

theorem multi_wait_safe:
  assumes "multi_reachable req s"
  shows "m_faults s = [] \<and>
    (\<forall>c. case waiters s c of
       Some w \<Rightarrow> RefCount w = held (req c) (m_pc s c) + regs c s \<and> 0 < RefCount w
     | None \<Rightarrow> held (req c) (m_pc s c) + regs c s = 0) \<and>
    (\<forall>a b e. section_of (req a) (m_pc s a) = Some e \<and> section_of (req b) (m_pc s b) = Some e \<longrightarrow> a = b) \<and>
    (\<forall>a b d. waiter_of a s = Some d \<and> waiter_of b s = Some d \<longrightarrow> a = b) \<and>
    (\<forall>c events waitAll ms i. req c = Multi_wait events waitAll ms \<and> m_pc s c = M_returned 0 i \<longrightarrow>
       (if waitAll then i = 0 else 0 \<le> i \<and> i < int (length events)))"
proof -
  have s: "locked req s" "counted req s" "m_faults s = []" "owned s"
    using reachable_sound [OF assms] reachable_owned [OF assms] by (simp_all add: sound_def)
  have "case waiters s c of Some w \<Rightarrow> RefCount w = held (req c) (m_pc s c) + regs c s \<and> 0 < RefCount w
    | None \<Rightarrow> held (req c) (m_pc s c) + regs c s = 0" for c
  proof -
    have "refs c s = held (req c) (m_pc s c) + regs c s" "\<forall>w. waiters s c = Some w \<longrightarrow> 0 < RefCount w"
      using s(2) by (simp_all add: counted_def)
    then show ?thesis by (simp add: refs_def split: option.splits)
  qed
  moreover have "a = b" if "section_of (req a) (m_pc s a) = Some e" "section_of (req b) (m_pc s b) = Some e" for a b e
    using locked_call(3) [OF s(1) that(1)] locked_call(3) [OF s(1) that(2)] by simp
  moreover have "a = b" if "waiter_of a s = Some d" "waiter_of b s = Some d" for a b d
    using s(4) that holds_unique unfolding owned_def by blast
  moreover have "if waitAll then i = 0 else 0 \<le> i \<and> i < int (length events)"
    if "req c = Multi_wait events waitAll ms" "m_pc s c = M_returned 0 i" for c events waitAll ms i
  proof -
    have "waits (req c)" "ended (m_pc s c) (waiters s c) = Some i" using that by simp_all
    then have "good_index (req c) i" using reachable_indexed [OF assms] unfolding indexed_def by blast
    then show ?thesis using that(1) by (simp add: good_index_def split: if_splits)
  qed
  ultimately show ?thesis using s(3) by blast
qed

section \<open>Runs\<close>

lemma run_reachable: "multi_reachable req s \<Longrightarrow> multi_run req cs s = Some t \<Longrightarrow> multi_reachable req t"
proof (induction cs arbitrary: s)
  case (Cons x cs)
  obtain c b where x: "x = (c, b)" by (cases x)
  obtain u where u: "multi_step req c b s = Some u" "multi_run req cs u = Some t"
    using Cons.prems(2) x by (auto simp del: multi_step.simps split: option.splits)
  show ?case by (rule Cons.IH [OF multi_next [OF Cons.prems(1) u(1)] u(2)])
qed simp

lemmas running = eval_nat_numeral new_event_def multi_start_def go_def upd_event_def set_waiter_def use_waiter_def
  lock_event_def unlock_event_def lock_waiter_def try_event_def acquired_def notify_def front_def unref_def drop_wait_def
  new_wait_def cond_signal_def set_done_def

text \<open>Two waits that name two events in opposite orders, and two calls that set these events.\<close>

definition crossed :: "bool \<Rightarrow> bool \<Rightarrow> u64 \<Rightarrow> nat \<Rightarrow> request" where
  "crossed a b ms c = (if c = 0 then Multi_wait [0, 1] a ms else if c = 1 then Multi_wait [1, 0] b ms
     else if c = 2 then Set_event 0 else Set_event 1)"

definition crossed_run :: "(nat \<times> bool) list" where
  "crossed_run = replicate 6 (0, False) @ replicate 6 (1, False) @ replicate 2 (2, False) @ replicate 2 (3, False)"

text \<open>
  C29: a wait holds its waiter's mutex while it locks the events, and \<open>SetEvent\<close>
  holds the event's mutex while it locks the waiter; two waits for the same two events in opposite
  orders and two calls that set them can all stop for good, each waiting for a mutex that another
  one holds, whatever the time-out, and every later call that sets the event stops too.
\<close>

theorem multi_wait_deadlock:
  "\<exists>s. multi_run (crossed a b ms) crossed_run (multi_start [new_event False False, new_event False False]) = Some s \<and>
     (\<forall>c timeout. multi_step (crossed a b ms) c timeout s = None) \<and>
     m_pc s 0 = Wm_lock 1 0 \<and> m_pc s 1 = Wm_lock 1 0 \<and> m_pc s 2 = Sa_lock 0 \<and> m_pc s 3 = Sa_lock 1"
  by (simp add: crossed_run_def crossed_def running)

text \<open>One wait with a time-out, and a call that sets its event just when the time-out has passed.\<close>

definition late_set :: "u64 \<Rightarrow> nat \<Rightarrow> request" where
  "late_set ms c = (if c = 0 then Multi_wait [0] False ms else Set_event 0)"

definition late_run :: "(nat \<times> bool) list" where
  "late_run = replicate 8 (0, False) @ [(0, True)] @ replicate 6 (1, False) @ replicate 3 (0, False)"

text \<open>
  \<open>SetEvent\<close> hands an auto-reset event to a wait whose time-out has passed but which has not taken its
  mutex back: the wait returns the time-out, and the event is not set either.
\<close>

lemma multi_timeout_loses:
  assumes "ms \<noteq> 0" "ms \<noteq> WAIT_INFINITE"
  shows "\<exists>s. multi_run (late_set ms) late_run (multi_start [new_event False False]) = Some s \<and>
     m_pc s 1 = M_returned 0 0 \<and> m_pc s 0 = M_returned WAIT_TIMEOUT 0 \<and> \<not> me_State (event 0 s)"
  using assms by (simp add: late_run_def late_set_def running WAIT_TIMEOUT_def)

section \<open>Witnesses\<close>

lemma crossed_reachable:
  "\<exists>s. multi_reachable (crossed True False 0) s \<and> m_pc s 0 = Wm_lock 1 0 \<and> m_pc s 3 = Sa_lock 1"
proof -
  let ?s = "multi_start [new_event False False, new_event False False]"
  have "multi_reachable (crossed True False 0) ?s"
    by (rule multi_begin) (simp_all add: new_event_def crossed_def)
  moreover have "\<exists>s. multi_run (crossed True False 0) crossed_run ?s = Some s \<and> m_pc s 0 = Wm_lock 1 0 \<and> m_pc s 3 = Sa_lock 1"
    by (simp add: crossed_run_def crossed_def running)
  ultimately show ?thesis using run_reachable by blast
qed

theorem multi_wait_safe_witness:
  "\<exists>s. m_pc s 0 = Wm_lock 1 0 \<and> m_pc s 3 = Sa_lock 1 \<and> m_faults s = [] \<and>
     (\<forall>a b d. waiter_of a s = Some d \<and> waiter_of b s = Some d \<longrightarrow> a = b)"
  using crossed_reachable multi_wait_safe by blast

end
