(* ===== verification/Windows_Events.thy ===== *)
theory Windows_Events
  imports Events
begin

text \<open>
  The Windows branch of \<open>pevents.cpp\<close>: every operation calls the Windows API, which is a parameter;
  the code itself only splits a 64-bit time-out into 32-bit ones and translates the results.
\<close>

section \<open>The Windows API\<close>

text \<open>The constants of \<open>Windows.h\<close> that the code names.\<close>

definition WAIT_OBJECT_0 :: u32 where "WAIT_OBJECT_0 = 0"
definition WAIT_ABANDONED_0 :: u32 where "WAIT_ABANDONED_0 = 128"
definition WIN_TIMEOUT :: u32 where "WIN_TIMEOUT = 258"
definition WAIT_FAILED :: u32 where "WAIT_FAILED = NOT 0"
definition INFINITE :: u32 where "INFINITE = NOT 0"

record 'w win_api =
  WaitForSingleObject :: "nat \<Rightarrow> u32 \<Rightarrow> 'w \<Rightarrow> u32 \<times> 'w"
  WaitForMultipleObjects :: "u32 \<Rightarrow> nat list \<Rightarrow> bool \<Rightarrow> u32 \<Rightarrow> 'w \<Rightarrow> u32 \<times> 'w"
  win_CreateEvent :: "bool \<Rightarrow> bool \<Rightarrow> 'w \<Rightarrow> nat \<times> 'w"
  win_CloseHandle :: "nat \<Rightarrow> 'w \<Rightarrow> bool \<times> 'w"
  win_SetEvent :: "nat \<Rightarrow> 'w \<Rightarrow> bool \<times> 'w"
  win_ResetEvent :: "nat \<Rightarrow> 'w \<Rightarrow> bool \<times> 'w"
  win_PulseEvent :: "nat \<Rightarrow> 'w \<Rightarrow> bool \<times> 'w"
  GetLastError :: "'w \<Rightarrow> u32"

section \<open>Operations\<close>

definition CreateEvent_win :: "'w win_api \<Rightarrow> bool \<Rightarrow> bool \<Rightarrow> 'w \<Rightarrow> nat \<times> 'w" where
  "CreateEvent_win api manualReset initialState w = win_CreateEvent api manualReset initialState w"

definition checked_win :: "'w win_api \<Rightarrow> bool \<times> 'w \<Rightarrow> int \<times> 'w" where
  "checked_win api r = (if fst r then 0 else int_of_u32 (GetLastError api (snd r)), snd r)"

definition DestroyEvent_win :: "'w win_api \<Rightarrow> nat \<Rightarrow> 'w \<Rightarrow> int \<times> 'w" where
  "DestroyEvent_win api event w = checked_win api (win_CloseHandle api event w)"

definition SetEvent_win :: "'w win_api \<Rightarrow> nat \<Rightarrow> 'w \<Rightarrow> int \<times> 'w" where
  "SetEvent_win api event w = checked_win api (win_SetEvent api event w)"

definition ResetEvent_win :: "'w win_api \<Rightarrow> nat \<Rightarrow> 'w \<Rightarrow> int \<times> 'w" where
  "ResetEvent_win api event w = checked_win api (win_ResetEvent api event w)"

definition PulseEvent_win :: "'w win_api \<Rightarrow> nat \<Rightarrow> 'w \<Rightarrow> int \<times> 'w" where
  "PulseEvent_win api event w = checked_win api (win_PulseEvent api event w)"

text \<open>The loop over the rounds, and the split of the time-out; \<open>wait\<close> is the call of the API.\<close>

definition waitUnit :: u32 where "waitUnit = ucast WAIT_INFINITE - 1"

fun wait_rounds :: "(u32 \<Rightarrow> 'w \<Rightarrow> u32 \<times> 'w) \<Rightarrow> nat \<Rightarrow> u32 \<times> 'w \<Rightarrow> u32 \<times> 'w" where
  "wait_rounds wait 0 (result, w) = (result, w)"
| "wait_rounds wait (Suc rounds) (result, w) =
     (if result = WIN_TIMEOUT then wait_rounds wait rounds (wait waitUnit w) else (result, w))"

definition wait_split :: "(u32 \<Rightarrow> 'w \<Rightarrow> u32 \<times> 'w) \<Rightarrow> u64 \<Rightarrow> 'w \<Rightarrow> u32 \<times> 'w" where
  "wait_split wait milliseconds w =
     (if milliseconds = WAIT_INFINITE \<or> drop_bit 32 milliseconds = 0 then wait (ucast milliseconds) w
      else
        let rounds = milliseconds div ucast waitUnit;
            remainder = ucast (milliseconds mod ucast waitUnit)
        in wait_rounds wait (unat rounds) (wait remainder w))"

definition WaitForEvent_win :: "'w win_api \<Rightarrow> nat \<Rightarrow> u64 \<Rightarrow> 'w \<Rightarrow> int \<times> 'w" where
  "WaitForEvent_win api event milliseconds w =
     (let (result, w) = wait_split (WaitForSingleObject api event) milliseconds w
      in if result = WAIT_OBJECT_0 \<or> result = WAIT_ABANDONED_0 then (0, w)
         else if result = WIN_TIMEOUT then (int_of_u32 WIN_TIMEOUT, w)
         else (int_of_u32 (GetLastError api w), w))"

text \<open>The result is the value returned and, if it was written, the index of the event.\<close>

definition WaitForMultipleEvents_win ::
  "'w win_api \<Rightarrow> nat list \<Rightarrow> bool \<Rightarrow> u64 \<Rightarrow> 'w \<Rightarrow> (int \<times> int option) \<times> 'w" where
  "WaitForMultipleEvents_win api events waitAll milliseconds w =
     (let count = of_nat (length events) :: u32;
          (result, w) = wait_split (WaitForMultipleObjects api count events waitAll) milliseconds w
      in if WAIT_OBJECT_0 \<le> result \<and> result < WAIT_OBJECT_0 + count then ((0, Some (int_of_u32 (result - WAIT_OBJECT_0))), w)
         else if WAIT_ABANDONED_0 \<le> result \<and> result < WAIT_ABANDONED_0 + count
         then ((0, Some (int_of_u32 (result - WAIT_ABANDONED_0))), w)
         else if result = WAIT_FAILED then ((int_of_u32 (GetLastError api w), None), w)
         else ((int_of_u32 result, None), w))"

section \<open>The time-out\<close>

lemma waitUnit_eq: "waitUnit = 4294967294"
proof -
  have "ucast (- 1 :: u64) = (- 1 :: u32)" by (rule bit_word_eqI) (simp add: bit_ucast_iff)
  then show ?thesis by (simp add: waitUnit_def WAIT_INFINITE_def)
qed

lemma waitUnit_value: "unat waitUnit = 4294967294" "unat (ucast waitUnit :: u64) = 4294967294"
  unfolding waitUnit_eq by simp_all

text \<open>An API under which nothing is ever signalled; its state is the time that has passed.\<close>

definition asleep :: "u32 \<Rightarrow> nat \<Rightarrow> u32 \<times> nat" where
  "asleep ms t = (WIN_TIMEOUT, t + unat ms)"

lemma rounds_asleep: "wait_rounds asleep n (WIN_TIMEOUT, t) = (WIN_TIMEOUT, t + n * unat waitUnit)"
  by (induction n arbitrary: t) (simp_all add: asleep_def algebra_simps)

text \<open>
  A wait whose time-out does not fit into 32 bits lasts exactly as long as it says, and no single
  call of the API has a time-out that means to wait for ever.
\<close>

lemma split_exact:
  assumes "drop_bit 32 milliseconds \<noteq> 0" "milliseconds \<noteq> WAIT_INFINITE"
  shows "wait_split asleep milliseconds 0 = (WIN_TIMEOUT, unat milliseconds)"
proof -
  have "unat (milliseconds mod ucast waitUnit) < 4294967294"
    by (simp add: waitUnit_value unat_mod)
  then have "unat (ucast (milliseconds mod ucast waitUnit) :: u32) = unat milliseconds mod 4294967294"
    by (simp add: unat_mod waitUnit_value unsigned_ucast_eq take_bit_eq_mod)
  then have "wait_split asleep milliseconds 0 = wait_rounds asleep (unat milliseconds div 4294967294) (WIN_TIMEOUT, unat milliseconds mod 4294967294)"
    using assms by (simp add: wait_split_def asleep_def Let_def unat_div waitUnit_value)
  then show ?thesis by (simp add: rounds_asleep waitUnit_value)
qed

text \<open>A time-out of \<open>0xFFFFFFFF\<close> milliseconds fits into 32 bits and is passed on, where it means to wait for ever.\<close>

lemma split_infinite: "wait_split wait 4294967295 w = wait INFINITE w"
proof -
  have "drop_bit 32 (4294967295 :: u64) = 0" by (simp add: drop_bit_eq_div)
  moreover have "ucast (4294967295 :: u64) = INFINITE" by (simp add: INFINITE_def)
  ultimately show ?thesis by (simp add: wait_split_def)
qed

end
