(* ===== verification/Spec2Isabelle.thy ===== *)
theory Spec2Isabelle
  imports End_To_End File_Props Vfs_Refs Vfs_Blocks Release_Props Forward_Props Stacking_Props Log_Props
    Miscdev_Race Build_Config Pool_Teardown Test_App
    Multi_Safety Windows_Events
begin

text \<open>
  TEADFS, a stacking file system with transparent encryption by a user-mode client.

  \<^bold>\<open>The program.\<close> A kernel module (\<open>src/TEADFS/src\<close>) mounts over a directory of another file
  system, the lower one. Opening a regular file asks a user-mode client over a netlink channel how
  to treat it: plainly (\<open>OFR_INIT\<close>), not at all (\<open>OFR_PROHIBIT\<close>), encrypted as it is
  (\<open>OFR_ENCRYPT\<close>), or decrypted (\<open>OFR_DECRYPT\<close>). In decrypt mode every page read from the lower
  file is sent to the client for decryption and every write for encryption; such a lower file
  starts with a 256-byte label that readers do not see. One client at a time connects through a
  misc device. The client library (\<open>src/TEADFS-utils\<close>) receives the messages, hands them to a
  thread pool, calls the application's callbacks and sends the answers; \<open>src/test/test.cpp\<close> is an
  example application that encrypts by exclusive or.

  \<^bold>\<open>The machine.\<close> Everything the module calls in the Linux kernel, the lower file system included,
  is a parameter \<open>K\<close> of every operation: a function from a call and an abstract world to a result
  and a new world (\<open>Kernel_Env\<close>). Messages that arrive while a request sleeps are part of the result
  of \<open>wait_event_timeout\<close>. The module's memory is the record \<open>st\<close>: a heap of typed blocks, one
  datatype constructor per C structure, the globals and the private-data fields of VFS objects.
  An operation of C is a function into the library's state monad with the branches and early
  returns of the source; error codes are the negative integers of the source and error pointers
  follow \<open>IS_ERR\<close>. Ghost fields record the trace of calls and the memory faults. Machine integers are
  words where the code relies on their width (message ids, packet fields, time-outs).

  \<^bold>\<open>Theories and sources.\<close>
  \<^item> \<open>TPrelude\<close>: types, byte codecs (locale \<open>byte_codec\<close>), weakest preconditions \<open>wp\<close>.
  \<^item> \<open>Protocol\<close> (\<open>protocol.h\<close>): constants, C layout of the packets, headers as records (one
    codec for all members, where the code accesses them one by one).
  \<^item> \<open>Kernel_Env\<close>, \<open>Lower_Path\<close> (\<open>teadfs_header.h\<close>, \<open>mem.h\<close>): state, allocation, accessors; the two
    proof interfaces for all operations, monitors of the trace (\<open>quiet_monitor\<close>,
    \<open>neutral_monitor\<close>) and views of the state (\<open>outer_view\<close>).
  \<^item> \<open>Global_Param\<close> (\<open>global_param.c\<close>), \<open>Miscdev\<close> (\<open>miscdev.c\<close>), \<open>Netlink\<close> (\<open>netlink.c\<close>),
    \<open>User_Com\<close> (\<open>user_com.c\<close>): the message channel as the module sees it.
  \<^item> \<open>File_Ops\<close> (\<open>file.c\<close>), \<open>Mmap_Ops\<close> (\<open>mmap.c\<close>), \<open>Super_Ops\<close> (\<open>super.c\<close>, \<open>dentry.c\<close>), \<open>Lookup_Ops\<close>
    (\<open>lookup.c\<close>), \<open>Inode_Ops\<close> (\<open>inode.c\<close>), \<open>Log\<close> (\<open>teadfs_log.c\<close>), \<open>Module_Main\<close> (\<open>main.c\<close>): one
    definition per function of the source, under its name. \<open>Build_Config\<close> (\<open>config.h\<close>): the build options. \<open>Vfs_Calls\<close>: the operation tables at the end of these sources, and
    sequences of calls of the VFS through them.
  \<^item> \<open>Client_Daemon\<close> (\<open>main.cpp\<close>, \<open>netlink.cpp\<close>, \<open>test.cpp\<close>): dispatching and answering a message,
    the callbacks of the example; the files of user space are a map from paths, and how much a system
    call transfers is an argument (\<open>user_io\<close>). \<open>Client_Start\<close> (\<open>request.cpp\<close>, \<open>netlink.cpp\<close>, \<open>main.cpp\<close>): start-up,
    the hello request, the receive loop. \<open>Test_App\<close> (\<open>test.cpp\<close>): the example's main program.
  \<^item> \<open>Events\<close> (\<open>pevents.cpp\<close>), \<open>Thread_Pool\<close> (\<open>thread_pool.h\<close>): step relations, one rule or case per
    access to shared memory and one program counter per thread. \<open>Miscdev_Race\<close>: the open of the
    misc device in the same style. \<open>Multi_Events\<close> (\<open>pevents.cpp\<close> with \<open>WFMO\<close> and \<open>PULSE\<close>): waits for
    several events; every call is a process, the calls that set or destroy an event included.
    \<open>Windows_Events\<close>: the Windows branch of \<open>pevents.cpp\<close>, over the Windows API as a parameter.

  \<^bold>\<open>Interfaces.\<close> \<open>client_channel\<close> is what the module relies on for an answered request;
  \<open>lower_store\<close> extends it by the laws of the lower file system and of an encrypting client;
  \<open>open_env\<close> extends that by path names and the client's decision on an open. All are interpreted
  on a host that runs the modelled client library with the example application. \<open>id_counter\<close> is
  the interface of a message-id counter. \<open>block_law\<close> gives invariants of heap blocks under every
  call of the VFS. \<open>inode_monitor\<close> and \<open>upper_monitor\<close> (\<open>Stack_Monitors\<close>) give the proof rules of a
  monitor for the operations on inodes, from what it says of single calls.

  \<^bold>\<open>What is shown.\<close>
  \<^item> Data path (\<open>Data_Path\<close>, \<open>End_To_End\<close>, \<open>Mmap_Props\<close>): in decrypt mode writes and reads refine
    writing and reading the plaintext view of the lower file; what is written is read back; the
    label is never overwritten; in decrypt mode writes fail closed and reads fail open without a
    client; page flags and page locks; the size after truncation; labelling a file and opening it
    again; every access leaks its request packet and every write reads its answer after freeing it.
    The environment decides what that read gives, so a write is specified by the number of bytes it
    reports; \<open>stale_keeps\<close>, that freed memory still holds its contents, is never assumed and only
    used to say that then the whole range is written.
  \<^item> Channel (\<open>Request_Safety\<close>, \<open>Client_Channel\<close>, \<open>Channel_Props\<close>): a request gets only the answer to
    its own id, received messages keep the channel invariant, open and release requests are
    memory safe, all for messages as long as their headers say; locks are balanced, but sending takes
    a mutex where sleeping is forbidden; message ids are distinct.
  \<^item> Files and inodes (\<open>File_Props\<close>, \<open>Release_Props\<close>, \<open>Vfs_Locks\<close>, \<open>Vfs_Blocks\<close>, \<open>Vfs_Refs\<close>): an open
    does what the client decides; a close frees what the open allocated; every sequence of VFS
    calls without a rename keeps the lock discipline, and a rename can leave its locks held;
    dentry and inode references are balanced; the size reported always includes the label.
  \<^item> Stacking (\<open>Forward_Props\<close>, \<open>Stacking_Props\<close>): operations on directory entries, permissions and
    extended attributes make exactly one call of the lower file system, on the lower objects, and
    hand its error on, creating a file apart, which may remove it again; lookup and mount (once a
    super block was found) hook upper objects onto the lower ones or undo what they did in memory.
  \<^item> Log and device (\<open>Log_Props\<close>, \<open>Miscdev_Race\<close>): one line per message and no effect on the module,
    a bad access at the first line if there is no log file;
    overlapping opens of the device are all granted, later ones refused.
  \<^item> Client (\<open>Client_Start\<close>, \<open>Events\<close>, \<open>Thread_Pool_Props\<close>, \<open>Pool_Teardown\<close>): the handshake connects and a second
    client is refused; the receive loop hands on every message in order; in every interleaving
    tasks are handled once and in order and every message is answered at most once; events refine
    atomic events and lose no wake-up; deadlines are exact; a pending task is attended to, with
    the one exception of a worker woken while it leaves, which is exhibited; that the dispatcher destroys
    a worker is safe, and destroying the pool, which a second start of the library does, never is.
  \<^item> Waits for several events (\<open>Multi_Props\<close>, \<open>Multi_Refs\<close>, \<open>Multi_Left\<close>, \<open>Multi_Safety\<close>), an option of
    \<open>pevents.cpp\<close> that this build does not select: in every interleaving the reference counts of the waiters are
    exact, so that none is used after its deletion and none is leaked, the assertions of the code
    hold, its mutexes exclude and a successful wait returns a valid index; but waits and calls of
    \<open>SetEvent\<close> can deadlock, and a time-out can swallow an event. On Windows a time-out beyond 32 bits is kept exactly (\<open>Windows_Events\<close>).

  \<^bold>\<open>Bounds.\<close> No fuel is used. The truncation loop has a measure, the receive loop runs over the list
  of poll results it is given, and the interleaved components are step relations. A path and its
  packet fit into the client's receive buffer (\<open>MAX_MSG_SIZE\<close>, 8 KB) where a theorem is about an answered request;
  a wait's deadline is exact as long as it fits in 64 bits.

  \<^bold>\<open>Not modelled.\<close> The log calls inside the other operations, in every theorem: a log call changes
  nothing of the module (\<open>log_lines\<close>), but it reads the strings it prints, among them the path of an
  open file and the names of dentries, and writes to the log file, and it faults without one. How a
  format expands is an argument of the log operations. File offsets and sizes (\<open>loff_t\<close>) are unbounded
  integers: near the 63rd power of two the code would wrap. References of dentries are counted for the operations that
  \<open>Vfs_Refs\<close> names; create and lookup are not among them. Whether a lock may sleep is not part of the
  lock discipline. A function of the source without a return statement is modelled as returning. Of alternatives by kernel version the model
  has the ones of the builds that compile, in mount both. Unused: \<open>teadfs_bind\<close>, \<open>teadfs_open_req\<close>.
  Waits for a single event with a time-out are not mixed with waits for several; when a sleep times
  out is left open there; events are used only before their deletion, and the last step of \<open>DestroyEvent\<close>, which deletes the
  event, is left out. The terminal loop at the end
  of the example's main program does nothing and is left out. What the properties say of the example
  holds for every way of finding the program of a process, \<open>GetProcPath\<close> among them.
  Concurrent calls into the module are modelled as far as their effect on the message channel
  goes; otherwise operations run one after the other. After a first memory fault a run of the model
  goes on, with a value from the kernel for a stale read.
\<close>

end
